(* ===== verification/Ngfw_Prelude.thy ===== *)
theory Ngfw_Prelude
  imports
    Main
    "HOL-Library.Word"
    "HOL-Library.FSet"
    "HOL-Library.Finite_Map"
    "HOL-Library.Char_ord"
    "HOL-Library.List_Lexorder"
    "HOL-Library.Multiset"
begin

text \<open>
  Shared vocabulary of the development: the widths of Go's integers, instants and durations,
  byte strings with the functions of Go's packages \<open>strings\<close>, \<open>strconv\<close> and \<open>fmt\<close> that
  the sources use, finite maps and sets for Go's \<open>map\<close> type, and the generic lemmas on
  lists, sorting and maps that the components rest on.

  A Go \<open>string\<close> is a list of bytes (HOL \<open>char\<close>). Case mapping, case folding and trimming
  are those of the ASCII range: bytes above 127 are left alone. Instants are nanoseconds since
  the zero \<open>time.Time\<close>, so that \<open>IsZero\<close> is comparison with 0; durations are nanoseconds.
\<close>

section \<open>Numbers, instants, maps\<close>

type_synonym u8 = "8 word"
type_synonym u16 = "16 word"
type_synonym u32 = "32 word"
type_synonym u64 = "64 word"
type_synonym gotime = int
type_synonym duration = int

abbreviation second :: duration where
  "second \<equiv> 1000000000"

abbreviation millisecond :: duration where
  "millisecond \<equiv> 1000000"

abbreviation maxInt64 :: int where
  "maxInt64 \<equiv> 9223372036854775807"

abbreviation minInt64 :: int where
  "minInt64 \<equiv> - 9223372036854775808"

text \<open>The wrap-around of \<open>int\<close> arithmetic on a 64-bit platform.\<close>

definition wrapInt64 :: "int \<Rightarrow> int" where
  "wrapInt64 n = (n + 2 ^ 63) mod 2 ^ 64 - 2 ^ 63"

lemma wrapInt64_id: "minInt64 \<le> n \<Longrightarrow> n \<le> maxInt64 \<Longrightarrow> wrapInt64 n = n"
  by (simp add: wrapInt64_def)

text \<open>\<open>time.Time.Sub\<close> saturates at the range of \<open>time.Duration\<close>.\<close>

definition time_sub :: "gotime \<Rightarrow> gotime \<Rightarrow> duration" where
  "time_sub t u = max minInt64 (min maxInt64 (t - u))"

text \<open>\<open>len\<close> of a Go map or of a Go set.\<close>

abbreviation fmlen :: "('k, 'v) fmap \<Rightarrow> nat" where
  "fmlen m \<equiv> fcard (fmdom m)"

section \<open>Strings\<close>

abbreviation byte_of :: "char \<Rightarrow> int" where
  "byte_of c \<equiv> of_char c"

definition isSpace :: "char \<Rightarrow> bool" where
  "isSpace c \<longleftrightarrow> (let n = byte_of c in n = 32 \<or> (9 \<le> n \<and> n \<le> 13))"

definition TrimSpace :: "string \<Rightarrow> string" where
  "TrimSpace s = rev (dropWhile isSpace (rev (dropWhile isSpace s)))"

definition lower_char :: "char \<Rightarrow> char" where
  "lower_char c = (let n = byte_of c in if 65 \<le> n \<and> n \<le> 90 then char_of (n + 32) else c)"

definition upper_char :: "char \<Rightarrow> char" where
  "upper_char c = (let n = byte_of c in if 97 \<le> n \<and> n \<le> 122 then char_of (n - 32) else c)"

definition ToLower :: "string \<Rightarrow> string" where
  "ToLower s = map lower_char s"

definition ToUpper :: "string \<Rightarrow> string" where
  "ToUpper s = map upper_char s"

definition EqualFold :: "string \<Rightarrow> string \<Rightarrow> bool" where
  "EqualFold s t \<longleftrightarrow> ToLower s = ToLower t"

fun Split :: "char \<Rightarrow> string \<Rightarrow> string list" where
  "Split sep [] = [[]]"
| "Split sep (c # cs) =
     (if c = sep then [] # Split sep cs
      else (case Split sep cs of [] \<Rightarrow> [[c]] | w # ws \<Rightarrow> (c # w) # ws))"

definition isDigit :: "char \<Rightarrow> bool" where
  "isDigit c \<longleftrightarrow> (let n = byte_of c in 48 \<le> n \<and> n \<le> 57)"

definition digit_val :: "char \<Rightarrow> int" where
  "digit_val c = byte_of c - 48"

definition digits_val :: "string \<Rightarrow> int" where
  "digits_val s = fold (\<lambda>c acc. acc * 10 + digit_val c) s 0"

text \<open>The range check of \<open>strconv.ParseInt(_, 10, 64)\<close> on a sign and its digits.\<close>

definition ParseInt64 :: "string \<Rightarrow> int option" where
  "ParseInt64 s =
     (let (neg, ds) = (case s of [] \<Rightarrow> (False, [])
                       | c # cs \<Rightarrow> if c = CHR ''-'' then (True, cs)
                                  else if c = CHR ''+'' then (False, cs) else (False, s));
          n = (if neg then - digits_val ds else digits_val ds)
      in if ds \<noteq> [] \<and> list_all isDigit ds \<and> minInt64 \<le> n \<and> n \<le> maxInt64
         then Some n else None)"

definition Atoi :: "string \<Rightarrow> int option" where
  "Atoi s = ParseInt64 s"

text \<open>
  \<open>fmt.Sscanf(s, "%d", &n)\<close> on a string without leading space: an optional sign, then the
  longest run of digits; what follows is left unread.
\<close>

definition Sscanf_d :: "string \<Rightarrow> int option" where
  "Sscanf_d s =
     (case s of
        [] \<Rightarrow> None
      | c # cs \<Rightarrow>
          if c = CHR ''-'' \<or> c = CHR ''+'' then ParseInt64 (c # takeWhile isDigit cs)
          else ParseInt64 (takeWhile isDigit s))"

text \<open>\<open>%d\<close>, \<open>%x\<close> without leading zeros, and \<open>hex.EncodeToString\<close>.\<close>

function show_dec :: "int \<Rightarrow> string" where
  "show_dec n = (if n < 10 then [char_of (48 + n)] else show_dec (n div 10) @ [char_of (48 + n mod 10)])"
  by pat_completeness auto
termination
  by (relation "measure nat") auto

declare show_dec.simps [simp del]

definition show_int :: "int \<Rightarrow> string" where
  "show_int i = (if i < 0 then CHR ''-'' # show_dec (- i) else show_dec i)"

definition hex_char :: "int \<Rightarrow> char" where
  "hex_char n = (if n < 10 then char_of (48 + n) else char_of (87 + n))"

function show_hex :: "int \<Rightarrow> string" where
  "show_hex n = (if n < 16 then [hex_char n] else show_hex (n div 16) @ [hex_char (n mod 16)])"
  by pat_completeness auto
termination
  by (relation "measure nat") auto

declare show_hex.simps [simp del]

definition EncodeToString :: "u8 list \<Rightarrow> string" where
  "EncodeToString bs = concat (map (\<lambda>b. [hex_char (uint b div 16), hex_char (uint b mod 16)]) bs)"

text \<open>The bytes of a string.\<close>

definition bytes_of :: "string \<Rightarrow> u8 list" where
  "bytes_of s = map (\<lambda>c. of_char c) s"

text \<open>The \<open>k\<close> digits of a number in a base, most significant first, and back.\<close>

fun to_base :: "int \<Rightarrow> nat \<Rightarrow> int \<Rightarrow> int list" where
  "to_base b 0 n = []"
| "to_base b (Suc k) n = to_base b k (n div b) @ [n mod b]"

definition of_base :: "int \<Rightarrow> int list \<Rightarrow> int" where
  "of_base b ds = fold (\<lambda>d acc. acc * b + d) ds 0"

section \<open>Loops over slices\<close>

text \<open>
  The loop that copies the first occurrence of every element, with a map of the elements seen.
\<close>

fun dedup_seen :: "'a list \<Rightarrow> 'a list \<Rightarrow> 'a list" where
  "dedup_seen seen [] = []"
| "dedup_seen seen (x # xs) =
     (if x \<in> set seen then dedup_seen seen xs else x # dedup_seen (x # seen) xs)"

abbreviation dedup :: "'a list \<Rightarrow> 'a list" where
  "dedup \<equiv> dedup_seen []"

text \<open>The loop that maps a fallible function over a slice and stops at the first error.\<close>

fun map_err :: "('a \<Rightarrow> 'e + 'b) \<Rightarrow> 'a list \<Rightarrow> 'e + 'b list" where
  "map_err f [] = Inr []"
| "map_err f (x # xs) =
     (case f x of Inl e \<Rightarrow> Inl e
      | Inr y \<Rightarrow> (case map_err f xs of Inl e \<Rightarrow> Inl e | Inr ys \<Rightarrow> Inr (y # ys)))"

section \<open>Lemmas on strings\<close>

lemma byte_of_inject: "byte_of c = byte_of d \<longleftrightarrow> c = d"
  by (metis char_of_char)

lemma lower_char_idem [simp]: "lower_char (lower_char c) = lower_char c"
  by (auto simp: lower_char_def Let_def)

lemma isSpace_lower [simp]: "isSpace (lower_char c) = isSpace c"
  by (auto simp: lower_char_def isSpace_def Let_def)

lemma ToLower_idem [simp]: "ToLower (ToLower s) = ToLower s"
  by (simp add: ToLower_def)

lemma ToLower_Nil_iff [simp]: "ToLower s = [] \<longleftrightarrow> s = []"
  by (simp add: ToLower_def)

lemma dropWhile_isSpace_lower: "dropWhile isSpace (map lower_char s) = map lower_char (dropWhile isSpace s)"
  by (induction s) auto

lemma TrimSpace_ToLower: "TrimSpace (ToLower s) = ToLower (TrimSpace s)"
  by (simp add: TrimSpace_def ToLower_def dropWhile_isSpace_lower rev_map)

lemma dropWhile_rev_dropWhile:
  "dropWhile P (rev (dropWhile P (rev (dropWhile P s)))) = rev (dropWhile P (rev (dropWhile P s)))"
proof (cases "dropWhile P s")
  case Nil
  then show ?thesis by (simp del: dropWhile_eq_Nil_conv)
next
  case (Cons c cs)
  then have c: "\<not> P c" by (metis hd_dropWhile list.distinct(1) list.sel(1))
  have "dropWhile P (rev cs @ [c]) = dropWhile P (rev cs) @ [c]"
    using c by (simp add: dropWhile_append)
  then show ?thesis using Cons c by simp
qed

lemma TrimSpace_idem [simp]: "TrimSpace (TrimSpace s) = TrimSpace s"
  by (simp add: TrimSpace_def dropWhile_rev_dropWhile)

lemma TrimSpace_id: "list_all (\<lambda>c. \<not> isSpace c) s \<Longrightarrow> TrimSpace s = s"
proof -
  have *: "list_all (\<lambda>c. \<not> isSpace c) t \<Longrightarrow> dropWhile isSpace t = t" for t
    by (cases t) auto
  assume "list_all (\<lambda>c. \<not> isSpace c) s"
  then show ?thesis by (simp add: TrimSpace_def *)
qed

lemma TrimSpace_Nil [simp]: "TrimSpace [] = []"
  by (simp add: TrimSpace_def)

lemma EqualFold_refl [simp]: "EqualFold s s"
  by (simp add: EqualFold_def)

lemma EqualFold_sym: "EqualFold s t \<Longrightarrow> EqualFold t s"
  by (simp add: EqualFold_def)

lemma Split_not_Nil [simp]: "Split c s \<noteq> []"
  by (induction s) (auto split: list.splits)

lemma Split_no_sep: "c \<notin> set s \<Longrightarrow> Split c s = [s]"
  by (induction s) auto

lemma Split_sep: "c \<notin> set s \<Longrightarrow> Split c (s @ c # t) = s # Split c t"
  by (induction s) auto

section \<open>Decimal numbers\<close>

lemma show_dec_not_Nil [simp]: "show_dec n \<noteq> []"
  by (subst show_dec.simps) simp

lemma digit_char [simp]:
  assumes "0 \<le> n" "n < 10"
  shows "isDigit (char_of (48 + n))" "digit_val (char_of (48 + n)) = n"
  using assms by (simp_all add: isDigit_def digit_val_def Let_def)

lemma digits_show_dec: "0 \<le> n \<Longrightarrow> list_all isDigit (show_dec n)"
proof (induction n rule: show_dec.induct)
  case (1 n)
  then show ?case
    by (cases "n < 10") (auto simp: show_dec.simps [of n])
qed

lemma digits_val_snoc: "digits_val (s @ [c]) = digits_val s * 10 + digit_val c"
  by (simp add: digits_val_def)

lemma digits_val_show_dec [simp]: "0 \<le> n \<Longrightarrow> digits_val (show_dec n) = n"
proof (induction n rule: show_dec.induct)
  case (1 n)
  show ?case
  proof (cases "n < 10")
    case True
    with 1 show ?thesis by (simp add: show_dec.simps [of n] digits_val_def)
  next
    case False
    with 1 have "digits_val (show_dec (n div 10)) = n div 10" by simp
    with False show ?thesis
      by (simp add: show_dec.simps [of n] digits_val_snoc)
  qed
qed

lemma show_dec_inject: "0 \<le> m \<Longrightarrow> 0 \<le> n \<Longrightarrow> show_dec m = show_dec n \<longleftrightarrow> m = n"
  by (metis digits_val_show_dec)

lemma of_base_snoc: "of_base b (ds @ [d]) = of_base b ds * b + d"
  by (simp add: of_base_def)

lemma of_base_to_base: "0 < b \<Longrightarrow> 0 \<le> n \<Longrightarrow> n < b ^ k \<Longrightarrow> of_base b (to_base b k n) = n"
proof (induction k arbitrary: n)
  case 0
  then show ?case by (simp add: of_base_def)
next
  case (Suc k)
  have "n div b < b ^ k"
  proof (rule ccontr)
    assume "\<not> n div b < b ^ k"
    then have "b ^ k * b \<le> n div b * b" using Suc.prems by simp
    also have "\<dots> \<le> n" using Suc.prems by (metis minus_div_mult_eq_mod diff_ge_0_iff_ge pos_mod_sign)
    finally show False using Suc.prems by (simp add: mult.commute)
  qed
  then have "of_base b (to_base b k (n div b)) = n div b"
    using Suc by (simp add: pos_imp_zdiv_nonneg_iff)
  then show ?case by (simp add: of_base_snoc)
qed

lemma to_base_range: "0 < b \<Longrightarrow> d \<in> set (to_base b k n) \<Longrightarrow> 0 \<le> d \<and> d < b"
  by (induction k arbitrary: n) auto

lemma length_to_base [simp]: "length (to_base b k n) = k"
  by (induction k arbitrary: n) auto

lemma isDigit_not_space: "isDigit c \<Longrightarrow> \<not> isSpace c"
  by (auto simp: isDigit_def isSpace_def Let_def)

lemma isDigit_not_sign:
  "isDigit c \<Longrightarrow> c \<noteq> CHR ''-''" "isDigit c \<Longrightarrow> c \<noteq> CHR ''+''" "isDigit c \<Longrightarrow> c \<noteq> CHR '':''"
  "isDigit c \<Longrightarrow> c \<noteq> CHR ''.''" "isDigit c \<Longrightarrow> c \<noteq> CHR ''/''" "isDigit c \<Longrightarrow> c \<noteq> CHR ''|''"
  by (auto simp: isDigit_def Let_def)

lemma TrimSpace_digits: "list_all isDigit s \<Longrightarrow> TrimSpace s = s"
  by (rule TrimSpace_id) (auto simp: list_all_iff isDigit_not_space)

lemma show_dec_chars: "0 \<le> n \<Longrightarrow> c \<in> set (show_dec n) \<Longrightarrow> isDigit c"
  using digits_show_dec [of n] by (simp add: list_all_iff)

lemma digits_val_nonneg: "list_all isDigit s \<Longrightarrow> 0 \<le> digits_val s"
proof (induction s rule: rev_induct)
  case Nil
  then show ?case by (simp add: digits_val_def)
next
  case (snoc c s)
  then show ?case by (simp add: digits_val_snoc digit_val_def isDigit_def Let_def)
qed

lemma ParseInt64_digits:
  "s \<noteq> [] \<Longrightarrow> list_all isDigit s \<Longrightarrow>
   ParseInt64 s = (if digits_val s \<le> maxInt64 then Some (digits_val s) else None)"
  using digits_val_nonneg [of s]
  by (cases s) (auto simp: ParseInt64_def Let_def isDigit_not_sign)

lemma Atoi_show_dec: "0 \<le> n \<Longrightarrow> n \<le> maxInt64 \<Longrightarrow> Atoi (show_dec n) = Some n"
  by (simp add: Atoi_def ParseInt64_digits digits_show_dec)

section \<open>Lemmas on slices\<close>

lemma set_dedup_seen: "set (dedup_seen seen xs) = set xs - set seen"
  by (induction seen xs rule: dedup_seen.induct) auto

lemma set_dedup [simp]: "set (dedup xs) = set xs"
  by (simp add: set_dedup_seen)

lemma distinct_dedup_seen [simp]: "distinct (dedup_seen seen xs)"
  by (induction seen xs rule: dedup_seen.induct) (auto simp: set_dedup_seen)

lemma dedup_seen_id: "distinct xs \<Longrightarrow> set xs \<inter> set seen = {} \<Longrightarrow> dedup_seen seen xs = xs"
  by (induction seen xs rule: dedup_seen.induct) auto

lemma dedup_id: "distinct xs \<Longrightarrow> dedup xs = xs"
  by (simp add: dedup_seen_id)

lemma dedup_seen_subset:
  "length (dedup_seen seen xs) \<le> length xs"
  by (induction seen xs rule: dedup_seen.induct) auto

lemma not_isSpace [simp]:
  "\<not> isSpace (CHR ''-'')" "\<not> isSpace (CHR '':'')" "\<not> isSpace (CHR ''t'')" "\<not> isSpace (CHR ''c'')"
  "\<not> isSpace (CHR ''p'')" "\<not> isSpace (CHR ''u'')" "\<not> isSpace (CHR ''d'')"
  by (simp_all add: isSpace_def)

lemma show_dec_no:
  assumes "0 \<le> n" "\<not> isDigit c"
  shows "c \<notin> set (show_dec n)"
  using show_dec_chars [OF assms(1)] assms(2) by blast

lemma TrimSpace_show_dec [simp]: "0 \<le> n \<Longrightarrow> TrimSpace (show_dec n) = show_dec n"
  by (simp add: TrimSpace_digits digits_show_dec)

lemma map_err_Inr_iff:
  "map_err f xs = Inr ys \<longleftrightarrow> list_all2 (\<lambda>x y. f x = Inr y) xs ys"
proof (induction xs arbitrary: ys)
  case Nil
  then show ?case by auto
next
  case (Cons x xs)
  show ?case
  proof (cases "map_err f xs")
    case (Inl e)
    then have "\<not> list_all2 (\<lambda>x y. f x = Inr y) xs zs" for zs using Cons [of zs] by simp
    then show ?thesis using Inl by (auto simp: list_all2_Cons1 split: sum.splits)
  next
    case (Inr zs)
    then have "list_all2 (\<lambda>x y. f x = Inr y) xs us \<longleftrightarrow> zs = us" for us using Cons [of us] by simp
    then show ?thesis using Inr by (auto simp: list_all2_Cons1 split: sum.splits)
  qed
qed

lemma map_err_length: "map_err f xs = Inr ys \<Longrightarrow> length ys = length xs"
  by (auto simp: map_err_Inr_iff dest: list_all2_lengthD)

lemma map_err_cong_id: "(\<And>x. x \<in> set xs \<Longrightarrow> f x = Inr x) \<Longrightarrow> map_err f xs = Inr xs"
  by (induction xs) auto

lemma map_err_all:
  "map_err f xs = Inr ys \<Longrightarrow> (\<And>x y. f x = Inr y \<Longrightarrow> P y) \<Longrightarrow> list_all P ys"
  by (induction xs arbitrary: ys) (auto split: sum.splits)

section \<open>Canonical forms\<close>

text \<open>
  The contract of a function that brings a list into canonical form: it succeeds exactly on the
  lists that denote something, keeps what is denoted, and depends on nothing else.
\<close>

locale canonical_form =
  fixes canon :: "'a list \<Rightarrow> 'e + 'a list" and denote :: "'a list \<Rightarrow> 'e + 'b set"
  assumes canon_denote: "canon xs = Inr ys \<Longrightarrow> denote ys = denote xs"
    and canon_determined: "denote xs = Inr A \<Longrightarrow> denote ys = Inr A \<Longrightarrow> canon xs = canon ys"
    and canon_total: "(\<exists>ys. canon xs = Inr ys) \<longleftrightarrow> (\<exists>A. denote xs = Inr A)"
begin

lemma canon_eq_iff:
  assumes "canon xs = Inr zs"
  shows "canon ys = Inr zs \<longleftrightarrow> denote ys = denote xs"
  by (metis assms canon_denote canon_determined canon_total)

lemma canon_idem: "canon xs = Inr ys \<Longrightarrow> canon ys = Inr ys"
  using canon_denote canon_eq_iff by blast

end

section \<open>Sorting\<close>

text \<open>A list sorted by a key that is injective on it is determined by its elements.\<close>

lemma sort_key_unique:
  assumes "mset xs = mset ys" "inj_on f (set xs)"
  shows "sort_key f xs = sort_key f ys"
proof (rule properties_for_sort_key [symmetric])
  show "mset (sort_key f xs) = mset ys" using assms(1) by simp
  show "sorted (map f (sort_key f xs))" by simp
  fix k assume "k \<in> set (sort_key f xs)"
  moreover have "set xs = set ys" using assms(1) by (rule mset_eq_setD)
  ultimately have k: "k \<in> set ys" by simp
  have *: "filter (\<lambda>x. f k = f x) zs = filter (\<lambda>x. x = k) zs" if "set zs = set ys" for zs
    using that k assms(2) \<open>set xs = set ys\<close> by (intro filter_cong) (auto simp: inj_on_def)
  have r: "filter (\<lambda>x. x = k) zs = replicate (count (mset zs) k) k" for zs
    by (induction zs) auto
  have "filter (\<lambda>x. x = k) (sort_key f xs) = filter (\<lambda>x. x = k) ys"
    using assms(1) by (simp add: r)
  then show "filter (\<lambda>x. f k = f x) (sort_key f xs) = filter (\<lambda>x. f k = f x) ys"
    using \<open>set xs = set ys\<close> by (simp add: *)
qed

lemma sort_key_id: "sorted (map f xs) \<Longrightarrow> sort_key f xs = xs"
  by (simp add: sort_key_id_if_sorted)

section \<open>Finite maps and sets\<close>

lemma fcard_fsingleton [simp]: "fcard {|x|} = 1"
  by (simp add: fcard_finsert_if)

lemma fcard_1_iff: "fcard A = 1 \<longleftrightarrow> (\<exists>x. A = {|x|})"
proof
  assume "fcard A = 1"
  then obtain x where "fset A = {x}"
    by (metis card_1_singletonE fcard.rep_eq)
  then have "A = {|x|}" by (metis finsert.rep_eq bot_fset.rep_eq fset_inject)
  then show "\<exists>x. A = {|x|}" ..
qed auto

lemma fcard_0_iff: "fcard A = 0 \<longleftrightarrow> A = {||}"
  by (metis fcard_fempty fcard_0_eq)

end
