(* ===== verification/Netip.thy ===== *)
theory Netip
  imports Ngfw_Prelude
begin

text \<open>
  The part of Go's package \<open>net/netip\<close> the sources use: addresses of both families with
  IPv6 zones, prefixes, the parsers \<open>ParseAddr\<close> and \<open>ParsePrefix\<close>, the printers, masking and
  containment. The lemmas are the ones the firewall's address matching rests on: a printed
  IPv4 address parses back, masking does not change containment, a shorter prefix that holds a
  longer one's address holds every address of it, and no string is both an address and a prefix.
\<close>

section \<open>Addresses\<close>

datatype Addr = AddrZero | Addr4 "32 word" | Addr6 "128 word" string

definition Is4 :: "Addr \<Rightarrow> bool" where
  "Is4 a = (case a of Addr4 _ \<Rightarrow> True | _ \<Rightarrow> False)"

definition Is6 :: "Addr \<Rightarrow> bool" where
  "Is6 a = (case a of Addr6 _ _ \<Rightarrow> True | _ \<Rightarrow> False)"

definition Addr_IsValid :: "Addr \<Rightarrow> bool" where
  "Addr_IsValid a \<longleftrightarrow> a \<noteq> AddrZero"

definition BitLen :: "Addr \<Rightarrow> int" where
  "BitLen a = (case a of AddrZero \<Rightarrow> 0 | Addr4 _ \<Rightarrow> 32 | Addr6 _ _ \<Rightarrow> 128)"

definition Addr_Zone :: "Addr \<Rightarrow> string" where
  "Addr_Zone a = (case a of Addr6 _ z \<Rightarrow> z | _ \<Rightarrow> [])"

definition withoutZone :: "Addr \<Rightarrow> Addr" where
  "withoutZone a = (case a of Addr6 w _ \<Rightarrow> Addr6 w [] | _ \<Rightarrow> a)"

definition Is4In6 :: "Addr \<Rightarrow> bool" where
  "Is4In6 a = (case a of Addr6 w _ \<Rightarrow> drop_bit 32 w = 65535 | _ \<Rightarrow> False)"

definition Unmap :: "Addr \<Rightarrow> Addr" where
  "Unmap a = (if Is4In6 a then (case a of Addr6 w _ \<Rightarrow> Addr4 (ucast w) | _ \<Rightarrow> a) else a)"

definition IsLoopback :: "Addr \<Rightarrow> bool" where
  "IsLoopback a = (case Unmap a of
      AddrZero \<Rightarrow> False
    | Addr4 w \<Rightarrow> drop_bit 24 w = 127
    | Addr6 w _ \<Rightarrow> w = 1)"

section \<open>Parsing\<close>

text \<open>
  \<open>parseIPv4Fields\<close>: \<open>sep\<close> says that the previous position is the start or a dot, \<open>val\<close> and
  \<open>digLen\<close> are the current octet and the number of its digits.
\<close>

fun parseIPv4Fields :: "bool \<Rightarrow> int \<Rightarrow> nat \<Rightarrow> int list \<Rightarrow> string \<Rightarrow> int list option" where
  "parseIPv4Fields sep val digLen fields [] =
     (if length fields < 3 then None else Some (fields @ [val]))"
| "parseIPv4Fields sep val digLen fields (c # cs) =
     (if isDigit c then
        (if digLen = 1 \<and> val = 0 then None
         else if val * 10 + digit_val c > 255 then None
         else parseIPv4Fields False (val * 10 + digit_val c) (digLen + 1) fields cs)
      else if c = CHR ''.'' then
        (if sep \<or> cs = [] then None
         else if length fields = 3 then None
         else parseIPv4Fields True 0 0 (fields @ [val]) cs)
      else None)"

definition parseIPv4 :: "string \<Rightarrow> Addr option" where
  "parseIPv4 s = map_option (\<lambda>fs. Addr4 (of_int (of_base 256 fs))) (parseIPv4Fields True 0 0 [] s)"

definition isHex :: "char \<Rightarrow> bool" where
  "isHex c \<longleftrightarrow> isDigit c \<or> (let n = byte_of c in (97 \<le> n \<and> n \<le> 102) \<or> (65 \<le> n \<and> n \<le> 70))"

definition hex_val :: "char \<Rightarrow> int" where
  "hex_val c = (let n = byte_of c in
     if isDigit c then n - 48 else if 97 \<le> n then n - 87 else n - 55)"

definition hexes_val :: "string \<Rightarrow> int" where
  "hexes_val s = fold (\<lambda>c acc. acc * 16 + hex_val c) s 0"

text \<open>
  One round of the loop of \<open>parseIPv6\<close> on the 16-bit groups so far, the position of the
  ellipsis and the rest of the string: an error, the state after a \<open>break\<close>, or the state in
  which the next round starts. Every round that goes on has added one group, so the loop, which
  runs while fewer than eight are there, has at most eight rounds.
\<close>

definition parseIPv6_step :: "int list \<Rightarrow> nat option \<Rightarrow> string \<Rightarrow>
    ((int list \<times> nat option) + (int list \<times> nat option \<times> string)) option" where
  "parseIPv6_step gs ellipsis s =
     (let h = takeWhile isHex s; rest = dropWhile isHex s; gs' = gs @ [hexes_val h] in
      if h = [] \<or> 4 < length h then None
      else case rest of
        [] \<Rightarrow> Some (Inl (gs', ellipsis))
      | c # r \<Rightarrow>
          if c = CHR ''.'' then
            (if ellipsis = None \<and> length gs \<noteq> 6 then None
             else if 8 < length gs + 2 then None
             else (case parseIPv4Fields True 0 0 [] s of
                     Some [f0, f1, f2, f3] \<Rightarrow>
                       Some (Inl (gs @ [f0 * 256 + f1, f2 * 256 + f3], ellipsis))
                   | _ \<Rightarrow> None))
          else if c \<noteq> CHR '':'' then None
          else case r of
            [] \<Rightarrow> None
          | d # r' \<Rightarrow>
              if d = CHR '':'' then
                (if ellipsis \<noteq> None then None
                 else if r' = [] then Some (Inl (gs', Some (length gs')))
                 else Some (Inr (gs', Some (length gs'), r')))
              else Some (Inr (gs', ellipsis, r)))"

fun parseIPv6_loop :: "nat \<Rightarrow> int list \<Rightarrow> nat option \<Rightarrow> string \<Rightarrow>
    (int list \<times> nat option \<times> string) option" where
  "parseIPv6_loop 0 gs ellipsis s = Some (gs, ellipsis, s)"
| "parseIPv6_loop (Suc k) gs ellipsis s =
     (case parseIPv6_step gs ellipsis s of
        None \<Rightarrow> None
      | Some (Inl (gs', ellipsis')) \<Rightarrow> Some (gs', ellipsis', [])
      | Some (Inr (gs', ellipsis', s')) \<Rightarrow> parseIPv6_loop k gs' ellipsis' s')"

definition parseIPv6_finish :: "int list \<times> nat option \<times> string \<Rightarrow> int list option" where
  "parseIPv6_finish r =
     (case r of (gs, ellipsis, s) \<Rightarrow>
        if s \<noteq> [] then None
        else if length gs < 8 then
          (case ellipsis of None \<Rightarrow> None
           | Some e \<Rightarrow> Some (take e gs @ replicate (8 - length gs) 0 @ drop e gs))
        else if ellipsis \<noteq> None then None
        else Some gs)"

definition parseIPv6_groups :: "string \<Rightarrow> int list option" where
  "parseIPv6_groups s =
     (if take 2 s = ''::'' then
        (if drop 2 s = [] then Some (replicate 8 0)
         else Option.bind (parseIPv6_loop 8 [] (Some 0) (drop 2 s)) parseIPv6_finish)
      else Option.bind (parseIPv6_loop 8 [] None s) parseIPv6_finish)"

definition parseIPv6 :: "string \<Rightarrow> Addr option" where
  "parseIPv6 s =
     (let body = takeWhile (\<lambda>c. c \<noteq> CHR ''%'') s; after = dropWhile (\<lambda>c. c \<noteq> CHR ''%'') s in
      if after \<noteq> [] \<and> tl after = [] then None
      else map_option (\<lambda>gs. Addr6 (of_int (of_base 65536 gs)) (tl after)) (parseIPv6_groups body))"

definition ParseAddr :: "string \<Rightarrow> Addr option" where
  "ParseAddr s =
     (case find (\<lambda>c. c = CHR ''.'' \<or> c = CHR '':'' \<or> c = CHR ''%'') s of
        None \<Rightarrow> None
      | Some c \<Rightarrow> if c = CHR ''.'' then parseIPv4 s
                 else if c = CHR '':'' then parseIPv6 s else None)"

section \<open>Printing\<close>

definition join :: "string \<Rightarrow> string list \<Rightarrow> string" where
  "join sep ss = (case ss of [] \<Rightarrow> [] | x # xs \<Rightarrow> x @ concat (map (\<lambda>y. sep @ y) xs))"

definition string4 :: "32 word \<Rightarrow> string" where
  "string4 w = join ''.'' (map show_dec (to_base 256 4 (uint w)))"

definition zero_run :: "int list \<Rightarrow> nat \<Rightarrow> nat" where
  "zero_run gs i = length (takeWhile (\<lambda>g. g = 0) (drop i gs))"

text \<open>The leftmost longest run of at least two zero groups, as its start and end.\<close>

definition zero_span :: "int list \<Rightarrow> (nat \<times> nat) option" where
  "zero_span gs =
     fold (\<lambda>i best. let l = zero_run gs i in
             if 2 \<le> l \<and> (case best of None \<Rightarrow> True | Some (s, e) \<Rightarrow> e - s < l)
             then Some (i, i + l) else best) [0..<8] None"

definition appendTo6 :: "128 word \<Rightarrow> string" where
  "appendTo6 w =
     (let gs = to_base 65536 8 (uint w); hexes = (\<lambda>hs. join '':'' (map show_hex hs)) in
      case zero_span gs of
        None \<Rightarrow> hexes gs
      | Some (s, e) \<Rightarrow> hexes (take s gs) @ ''::'' @ hexes (drop e gs))"

definition Addr_String :: "Addr \<Rightarrow> string" where
  "Addr_String a =
     (case a of
        AddrZero \<Rightarrow> ''invalid IP''
      | Addr4 w \<Rightarrow> string4 w
      | Addr6 w z \<Rightarrow>
          (if Is4In6 a then ''::ffff:'' @ string4 (ucast w) else appendTo6 w)
          @ (if z \<noteq> [] then CHR ''%'' # z else []))"

section \<open>Prefixes\<close>

record Prefix =
  PfxAddr :: Addr
  PfxBits :: int

abbreviation PrefixZero :: Prefix where
  "PrefixZero \<equiv> \<lparr>PfxAddr = AddrZero, PfxBits = - 1\<rparr>"

definition PrefixFrom :: "Addr \<Rightarrow> int \<Rightarrow> Prefix" where
  "PrefixFrom ip bits =
     (if ip \<noteq> AddrZero \<and> 0 \<le> bits \<and> bits \<le> BitLen ip
      then \<lparr>PfxAddr = withoutZone ip, PfxBits = bits\<rparr>
      else \<lparr>PfxAddr = withoutZone ip, PfxBits = - 1\<rparr>)"

definition Prefix_IsValid :: "Prefix \<Rightarrow> bool" where
  "Prefix_IsValid p \<longleftrightarrow> 0 \<le> PfxBits p"

definition keep_top :: "nat \<Rightarrow> 'a::len word \<Rightarrow> 'a word" where
  "keep_top b w = push_bit (LENGTH('a) - b) (drop_bit (LENGTH('a) - b) w)"

definition Masked :: "Prefix \<Rightarrow> Prefix" where
  "Masked p =
     (if PfxBits p < 0 then PrefixZero
      else case PfxAddr p of
        AddrZero \<Rightarrow> PrefixZero
      | Addr4 w \<Rightarrow> (if 32 < PfxBits p then PrefixZero
                   else PrefixFrom (Addr4 (keep_top (nat (PfxBits p)) w)) (PfxBits p))
      | Addr6 w z \<Rightarrow> (if 128 < PfxBits p then PrefixZero
                     else PrefixFrom (Addr6 (keep_top (nat (PfxBits p)) w) []) (PfxBits p)))"

definition Contains :: "Prefix \<Rightarrow> Addr \<Rightarrow> bool" where
  "Contains p ip =
     (if \<not> Prefix_IsValid p \<or> Addr_Zone ip \<noteq> [] then False
      else case (PfxAddr p, ip) of
        (Addr4 v, Addr4 w) \<Rightarrow>
          drop_bit (32 - nat (PfxBits p)) v = drop_bit (32 - nat (PfxBits p)) w
      | (Addr6 v _, Addr6 w _) \<Rightarrow>
          drop_bit (128 - nat (PfxBits p)) v = drop_bit (128 - nat (PfxBits p)) w
      | _ \<Rightarrow> False)"

definition Prefix_String :: "Prefix \<Rightarrow> string" where
  "Prefix_String p =
     (if \<not> Prefix_IsValid p then ''invalid Prefix''
      else Addr_String (PfxAddr p) @ ''/'' @ show_int (PfxBits p))"

definition ParsePrefix :: "string \<Rightarrow> Prefix option" where
  "ParsePrefix s =
     (if CHR ''/'' \<notin> set s then None
      else
        let bitsStr = rev (takeWhile (\<lambda>c. c \<noteq> CHR ''/'') (rev s));
            ipStr = take (length s - length bitsStr - 1) s in
        case ParseAddr ipStr of
          None \<Rightarrow> None
        | Some ip \<Rightarrow>
            if Is6 ip \<and> Addr_Zone ip \<noteq> [] then None
            else if 1 < length bitsStr
                 \<and> (byte_of (hd bitsStr) < byte_of CHR ''1'' \<or> byte_of CHR ''9'' < byte_of (hd bitsStr))
            then None
            else (case Atoi bitsStr of
                    None \<Rightarrow> None
                  | Some bits \<Rightarrow>
                      if bits < 0 \<or> (if Is6 ip then 128 else 32) < bits then None
                      else Some (PrefixFrom ip bits)))"

section \<open>Containment\<close>

lemma drop_bit_eq_mono:
  fixes v w :: "'a::len word"
  assumes "drop_bit m v = drop_bit m w" "m \<le> n"
  shows "drop_bit n v = drop_bit n w"
proof -
  have "drop_bit n x = drop_bit (n - m) (drop_bit m x)" for x :: "'a word"
    using assms(2) by simp
  then show ?thesis using assms(1) by metis
qed

lemma Contains_cover:
  assumes "Contains c (PfxAddr w)" "PfxBits c \<le> PfxBits w" "Contains w a"
  shows "Contains c a"
proof -
  have le: "n - nat (PfxBits w) \<le> n - nat (PfxBits c)" for n
    using assms(2) by simp
  consider x y z where "PfxAddr c = Addr4 x" "PfxAddr w = Addr4 y" "a = Addr4 z"
      "drop_bit (32 - nat (PfxBits c)) x = drop_bit (32 - nat (PfxBits c)) y"
      "drop_bit (32 - nat (PfxBits w)) y = drop_bit (32 - nat (PfxBits w)) z"
    | x y z i j where "PfxAddr c = Addr6 x i" "PfxAddr w = Addr6 y j" "a = Addr6 z []"
      "drop_bit (128 - nat (PfxBits c)) x = drop_bit (128 - nat (PfxBits c)) y"
      "drop_bit (128 - nat (PfxBits w)) y = drop_bit (128 - nat (PfxBits w)) z"
    using assms(1,3)
    by (auto simp: Contains_def Addr_Zone_def split: if_splits Addr.splits)
  then show ?thesis
  proof cases
    case 1
    with assms(1,3) drop_bit_eq_mono [OF 1(5) le] show ?thesis
      by (simp add: Contains_def split: if_splits)
  next
    case 2
    with assms(1,3) drop_bit_eq_mono [OF 2(5) le] show ?thesis
      by (simp add: Contains_def split: if_splits)
  qed
qed

lemma drop_bit_keep_top:
  fixes w :: "'a::len word"
  shows "b \<le> LENGTH('a) \<Longrightarrow> drop_bit (LENGTH('a) - b) (keep_top b w) = drop_bit (LENGTH('a) - b) w"
  by (rule bit_word_eqI) (auto simp: keep_top_def bit_simps dest: bit_imp_le_length)

lemmas drop_bit_keep_top32 = drop_bit_keep_top [where 'a = 32, simplified]
lemmas drop_bit_keep_top128 = drop_bit_keep_top [where 'a = 128, simplified]

text \<open>A prefix as \<open>PrefixFrom\<close> and the parser make it.\<close>

definition wf_Prefix :: "Prefix \<Rightarrow> bool" where
  "wf_Prefix p \<longleftrightarrow> Prefix_IsValid p \<and> PfxAddr p \<noteq> AddrZero \<and> PfxBits p \<le> BitLen (PfxAddr p)
     \<and> Addr_Zone (PfxAddr p) = []"

lemma wf_PrefixFrom:
  "ip \<noteq> AddrZero \<Longrightarrow> 0 \<le> b \<Longrightarrow> b \<le> BitLen ip \<Longrightarrow> wf_Prefix (PrefixFrom ip b)"
  by (auto simp: wf_Prefix_def PrefixFrom_def Prefix_IsValid_def withoutZone_def BitLen_def
      Addr_Zone_def split: Addr.splits)

lemma wf_Masked: "wf_Prefix p \<Longrightarrow> wf_Prefix (Masked p)"
  by (auto simp: Masked_def wf_Prefix_def PrefixFrom_def Prefix_IsValid_def withoutZone_def
      BitLen_def Addr_Zone_def split: Addr.splits)

lemma Contains_Masked: "wf_Prefix p \<Longrightarrow> Contains (Masked p) a = Contains p a"
  by (auto simp: Masked_def wf_Prefix_def PrefixFrom_def Prefix_IsValid_def withoutZone_def
      BitLen_def Addr_Zone_def Contains_def drop_bit_keep_top32 drop_bit_keep_top128
      split: Addr.splits)

lemma PfxBits_Masked: "wf_Prefix p \<Longrightarrow> PfxBits (Masked p) = PfxBits p"
  by (auto simp: Masked_def wf_Prefix_def PrefixFrom_def Prefix_IsValid_def withoutZone_def
      BitLen_def split: Addr.splits)

lemma Contains_self: "wf_Prefix p \<Longrightarrow> Contains p (PfxAddr p)"
  by (auto simp: Contains_def wf_Prefix_def split: Addr.splits)

section \<open>What the parsers accept\<close>

lemma parseIPv4Fields_chars:
  "parseIPv4Fields sep val digLen fs0 s = Some fs \<Longrightarrow> c \<in> set s \<Longrightarrow> isDigit c \<or> c = CHR ''.''"
  by (induction sep val digLen fs0 s rule: parseIPv4Fields.induct) (auto split: if_splits)

lemma parseIPv4Fields_length:
  "parseIPv4Fields sep val digLen fs0 s = Some fs \<Longrightarrow> length fs0 \<le> 3 \<Longrightarrow> length fs = 4"
  by (induction sep val digLen fs0 s rule: parseIPv4Fields.induct) (auto split: if_splits)

lemma set_takeWhile_dropWhile: "set s = set (takeWhile P s) \<union> set (dropWhile P s)"
  by (metis set_append takeWhile_dropWhile_id)

lemma isHex_digit: "isDigit c \<Longrightarrow> isHex c"
  by (simp add: isHex_def)

lemma parseIPv6_step_chars:
  assumes "parseIPv6_step gs e s = Some r" "c \<in> set s"
  shows "isHex c \<or> c = CHR '':'' \<or> c = CHR ''.'' \<or> (\<exists>gs' e' s'. r = Inr (gs', e', s') \<and> c \<in> set s')"
proof (cases "c \<in> set (takeWhile isHex s)")
  case True
  then show ?thesis by (auto dest: set_takeWhileD)
next
  case False
  then have c: "c \<in> set (dropWhile isHex s)"
    using assms(2) set_takeWhile_dropWhile [of s isHex] by blast
  then obtain d t where rest: "dropWhile isHex s = d # t" by (cases "dropWhile isHex s") auto
  show ?thesis
  proof (cases "d = CHR ''.''")
    case True
    then obtain fs where "parseIPv4Fields True 0 0 [] s = Some fs"
      using assms(1) rest
      by (cases "parseIPv4Fields True 0 0 [] s") (auto simp: parseIPv6_step_def Let_def split: if_splits)
    then show ?thesis using parseIPv4Fields_chars [OF _ assms(2)] isHex_digit by blast
  next
    case False
    then show ?thesis
      using assms(1) c rest
      by (cases t) (auto simp: parseIPv6_step_def Let_def split: if_splits)
  qed
qed

lemma parseIPv6_loop_chars:
  assumes "parseIPv6_loop k gs e s = Some (gs', e', r)" "c \<in> set s"
  shows "isHex c \<or> c = CHR '':'' \<or> c = CHR ''.'' \<or> c \<in> set r"
  using assms
proof (induction k gs e s rule: parseIPv6_loop.induct)
  case (2 k gs e s)
  show ?case
  proof (cases "parseIPv6_step gs e s")
    case None
    with 2 show ?thesis by simp
  next
    case (Some x)
    from parseIPv6_step_chars [OF this 2(3)] show ?thesis
      using 2 Some by (cases x) fastforce+
  qed
qed auto

lemma parseIPv6_groups_chars:
  assumes "parseIPv6_groups s = Some gs" "c \<in> set s"
  shows "isHex c \<or> c = CHR '':'' \<or> c = CHR ''.''"
proof (cases "take 2 s = ''::''")
  case True
  then have "c = CHR '':'' \<or> c \<in> set (drop 2 s)"
    using assms(2) append_take_drop_id [of 2 s] by (metis Un_iff empty_iff empty_set insert_iff list.simps(15) set_append)
  with True assms(1) show ?thesis
    by (auto simp: parseIPv6_groups_def parseIPv6_finish_def split: if_splits Option.bind_splits
        dest: parseIPv6_loop_chars)
next
  case False
  with assms show ?thesis
    by (auto simp: parseIPv6_groups_def parseIPv6_finish_def split: if_splits Option.bind_splits
        dest: parseIPv6_loop_chars)
qed

lemma parseIPv6_chars:
  assumes "parseIPv6 s = Some a" "c \<in> set s"
  shows "isHex c \<or> c = CHR '':'' \<or> c = CHR ''.'' \<or> CHR ''%'' \<in> set s \<and> Addr_Zone a \<noteq> []"
proof (cases "dropWhile (\<lambda>c. c \<noteq> CHR ''%'') s")
  case Nil
  then have "takeWhile (\<lambda>c. c \<noteq> CHR ''%'') s = s"
    by (metis append_Nil2 takeWhile_dropWhile_id)
  with Nil assms show ?thesis
    by (auto simp: parseIPv6_def Let_def simp del: dropWhile_eq_Nil_conv takeWhile_eq_all_conv
        dest: parseIPv6_groups_chars)
next
  case (Cons d t)
  have "CHR ''%'' \<in> set s"
  proof (rule ccontr)
    assume "CHR ''%'' \<notin> set s"
    then have "dropWhile (\<lambda>c. c \<noteq> CHR ''%'') s = []" by auto
    with Cons show False by simp
  qed
  with Cons assms(1) show ?thesis
    by (auto simp: parseIPv6_def Let_def Addr_Zone_def split: if_splits)
qed

lemma ParseAddr_chars:
  assumes "ParseAddr s = Some a" "c \<in> set s"
  shows "isHex c \<or> c = CHR '':'' \<or> c = CHR ''.'' \<or> CHR ''%'' \<in> set s \<and> Addr_Zone a \<noteq> []"
  using assms parseIPv6_chars [of s a c]
  by (auto simp: ParseAddr_def parseIPv4_def isHex_digit split: option.splits if_splits
      dest: parseIPv4Fields_chars)

lemma ParseAddr_nonzero: "ParseAddr s = Some a \<Longrightarrow> a \<noteq> AddrZero"
  by (auto simp: ParseAddr_def parseIPv4_def parseIPv6_def Let_def split: option.splits if_splits)

lemma wf_prefix_of_addr: "ParseAddr s = Some a \<Longrightarrow> wf_Prefix (PrefixFrom a (BitLen a))"
  by (rule wf_PrefixFrom) (auto dest: ParseAddr_nonzero simp: BitLen_def split: Addr.splits)

lemma Atoi_chars: "Atoi s = Some n \<Longrightarrow> c \<in> set s \<Longrightarrow> isDigit c \<or> c = CHR ''-'' \<or> c = CHR ''+''"
  by (auto simp: Atoi_def ParseInt64_def Let_def list_all_iff split: if_splits list.splits)

lemma split_last_slash:
  assumes "CHR ''/'' \<in> set s"
  defines "b \<equiv> rev (takeWhile (\<lambda>c. c \<noteq> CHR ''/'') (rev s))"
  shows "s = take (length s - length b - 1) s @ CHR ''/'' # b"
proof -
  let ?P = "\<lambda>c. c \<noteq> CHR ''/''"
  obtain t where t: "dropWhile ?P (rev s) = CHR ''/'' # t"
    using assms(1) hd_dropWhile [of ?P "rev s"]
    by (cases "dropWhile ?P (rev s)") (auto simp: dropWhile_eq_Nil_conv)
  have "rev s = takeWhile ?P (rev s) @ CHR ''/'' # t"
    by (metis t takeWhile_dropWhile_id)
  then have s: "s = rev t @ CHR ''/'' # b"
    by (metis append.assoc append_Cons append_Nil b_def rev.simps(2) rev_append rev_rev_ident)
  then show ?thesis
    by (metis (no_types, lifting) add_diff_cancel_right' append_eq_conv_conj diff_diff_left length_Cons
        length_append plus_1_eq_Suc add.commute)
qed

lemma ParsePrefix_Some:
  assumes "ParsePrefix s = Some p"
  obtains ipStr bitsStr ip bits where
    "s = ipStr @ CHR ''/'' # bitsStr" "ParseAddr ipStr = Some ip" "Addr_Zone ip = []"
    "Atoi bitsStr = Some bits" "0 \<le> bits" "bits \<le> BitLen ip" "p = PrefixFrom ip bits"
proof -
  let ?b = "rev (takeWhile (\<lambda>c. c \<noteq> CHR ''/'') (rev s))"
  let ?a = "take (length s - length ?b - 1) s"
  have slash: "CHR ''/'' \<in> set s"
    using assms by (auto simp: ParsePrefix_def split: if_splits)
  obtain ip where ip: "ParseAddr ?a = Some ip"
    using assms slash by (auto simp: ParsePrefix_def Let_def split: option.splits)
  have zone: "Addr_Zone ip = []"
    using assms slash ip
    by (cases ip) (auto simp: ParsePrefix_def Let_def Is6_def Addr_Zone_def split: if_splits)
  obtain bits where bits: "Atoi ?b = Some bits"
    using assms slash ip by (auto simp: ParsePrefix_def Let_def split: option.splits if_splits)
  have "0 \<le> bits \<and> bits \<le> BitLen ip \<and> p = PrefixFrom ip bits"
    using assms slash ip bits ParseAddr_nonzero [OF ip]
    by (cases ip) (auto simp: ParsePrefix_def Let_def Is6_def BitLen_def split: if_splits)
  then show ?thesis
    using that [OF split_last_slash [OF slash] ip zone bits] by simp
qed

lemma wf_ParsePrefix: "ParsePrefix s = Some p \<Longrightarrow> wf_Prefix p"
  by (elim ParsePrefix_Some) (auto intro: wf_PrefixFrom dest: ParseAddr_nonzero)

text \<open>No string is both a prefix and an address.\<close>

lemma ParsePrefix_not_addr:
  assumes "ParsePrefix s = Some p"
  shows "ParseAddr s = None"
proof (rule ccontr)
  assume "ParseAddr s \<noteq> None"
  then obtain a where a: "ParseAddr s = Some a" by auto
  from assms obtain ipStr bitsStr ip bits where s: "s = ipStr @ CHR ''/'' # bitsStr"
      "ParseAddr ipStr = Some ip" "Addr_Zone ip = []" "Atoi bitsStr = Some bits"
    by (rule ParsePrefix_Some)
  have "CHR ''%'' \<in> set s"
    using ParseAddr_chars [OF a, of "CHR ''/''"] s(1) by (auto simp: isHex_def isDigit_def Let_def)
  then have "CHR ''%'' \<in> set ipStr \<or> CHR ''%'' \<in> set bitsStr" using s(1) by auto
  then show False
    using ParseAddr_chars [OF s(2), of "CHR ''%''"] Atoi_chars [OF s(4), of "CHR ''%''"] s(3)
    by (auto simp: isHex_def isDigit_def Let_def)
qed

section \<open>A printed IPv4 address parses back\<close>

lemma show_dec_octet:
  assumes "0 \<le> n" "n < 256"
  shows "show_dec n =
    (if n < 10 then [char_of (48 + n)]
     else if n < 100 then [char_of (48 + n div 10), char_of (48 + n mod 10)]
     else [char_of (48 + n div 100), char_of (48 + n div 10 mod 10), char_of (48 + n mod 10)])"
proof -
  have "n div 100 < 10" "n div 10 < 10 \<longleftrightarrow> n < 100" using assms by auto
  then show ?thesis
    using assms by (auto simp: show_dec.simps [of n] show_dec.simps [of "n div 10"]
        show_dec.simps [of "n div 100"] zdiv_zmult2_eq [symmetric])
qed

lemma parseIPv4Fields_octet:
  assumes "0 \<le> n" "n < 256"
  shows "parseIPv4Fields True 0 0 fs (show_dec n @ s) =
     parseIPv4Fields False n (length (show_dec n)) fs s"
proof -
  have d: "isDigit (char_of (48 + n))" "digit_val (char_of (48 + n)) = n" if "n < 10"
    using that assms by simp_all
  have ds: "isDigit (char_of (48 + k mod 10))" "digit_val (char_of (48 + k mod 10)) = k mod 10" for k :: int
    by (rule digit_char; simp)+
  consider "n < 10" | "10 \<le> n" "n < 100" | "100 \<le> n" by linarith
  then show ?thesis
  proof cases
    case 1
    then show ?thesis using assms d by (simp add: show_dec_octet)
  next
    case 2
    then have "0 < n div 10" "n div 10 < 10" by auto
    with 2 assms ds [of n] show ?thesis
      by (simp add: show_dec_octet)
  next
    case 3
    then have "0 < n div 100" "n div 100 < 10" using assms by auto
    moreover have "n div 100 * 10 + n div 10 mod 10 = n div 10"
      by (simp add: zdiv_zmult2_eq [of 10 n 10, simplified])
    moreover have "n div 10 * 10 + n mod 10 = n" by simp
    moreover have "n div 10 \<le> 255" using assms by auto
    ultimately show ?thesis
      using 3 assms ds [of n] ds [of "n div 10"]
      by (simp add: show_dec_octet)
  qed
qed

lemma parseIPv4Fields_string4:
  "parseIPv4Fields True 0 0 [] (string4 w) = Some (to_base 256 4 (uint w))"
proof -
  obtain a b c d where o: "to_base 256 4 (uint w) = [a, b, c, d]"
    by (simp add: numeral_eq_Suc)
  have r: "0 \<le> x \<and> x < 256" if "x \<in> {a, b, c, d}" for x
    using to_base_range [of 256 x 4 "uint w"] that by (auto simp: o)
  have dot: "\<not> isDigit (CHR ''.'')" by (simp add: isDigit_def)
  from r show ?thesis
    by (simp add: string4_def join_def o dot parseIPv4Fields_octet
        parseIPv4Fields_octet [where s = "[]", simplified])
qed

lemma find_string4: "find (\<lambda>c. c = CHR ''.'' \<or> c = CHR '':'' \<or> c = CHR ''%'') (string4 w) = Some (CHR ''.'')"
proof -
  have *: "find P (ds @ CHR ''.'' # s) = Some (CHR ''.'')"
    if "list_all isDigit ds" "P = (\<lambda>c. c = CHR ''.'' \<or> c = CHR '':'' \<or> c = CHR ''%'')" for P ds s
    using that by (induction ds) (auto simp: isDigit_def)
  obtain a b c d where o: "to_base 256 4 (uint w) = [a, b, c, d]"
    by (simp add: numeral_eq_Suc)
  have "0 \<le> a" using to_base_range [of 256 a 4 "uint w"] by (auto simp: o)
  then show ?thesis
    by (simp add: string4_def join_def o * digits_show_dec)
qed

lemma ParseAddr_string4: "ParseAddr (string4 w) = Some (Addr4 w)"
proof -
  have "of_base 256 (to_base 256 4 (uint w)) = uint w"
    by (rule of_base_to_base) (use uint_lt2p [of w] in auto)
  then show ?thesis
    by (simp add: ParseAddr_def find_string4 parseIPv4_def parseIPv4Fields_string4)
qed

lemma string4_inject [simp]: "string4 v = string4 w \<longleftrightarrow> v = w"
  by (metis Addr.inject(1) ParseAddr_string4 option.inject)

end
