(* ===== verification/Netip_Text.thy ===== *)
theory Netip_Text
imports Netip
begin

text \<open>
  Every address and every prefix that the parsers can return prints to a text that parses back to
  it: the decimal form of IPv4 (theory \<open>Netip\<close>), the hexadecimal groups of IPv6 with and without a
  run of zeros left out, the form \<open>::ffff:a.b.c.d\<close>, and zones.
\<close>

section \<open>Hexadecimal groups\<close>

lemma hex_char_val:
  assumes "0 \<le> n" "n < 16"
  shows "isHex (hex_char n)" "hex_val (hex_char n) = n"
proof -
  have "n \<in> set [0..15]" using assms by simp
  moreover have "\<forall>n \<in> set [0..15]. isHex (hex_char n) \<and> hex_val (hex_char n) = n" by code_simp
  ultimately show "isHex (hex_char n)" "hex_val (hex_char n) = n" by blast+
qed

lemma show_hex_not_Nil [simp]: "show_hex n \<noteq> []"
  by (simp add: show_hex.simps [of n])

lemma hexes_val_snoc: "hexes_val (s @ [c]) = hexes_val s * 16 + hex_val c"
  by (simp add: hexes_val_def)

lemma show_hex_props:
  "0 \<le> n \<Longrightarrow> list_all isHex (show_hex n) \<and> hexes_val (show_hex n) = n"
proof (induction n rule: show_hex.induct)
  case (1 n)
  have d: "0 \<le> n mod 16" "n mod 16 < 16" "0 \<le> n div 16" using 1(2) by simp_all
  show ?case
  proof (cases "n < 16")
    case True
    with 1(2) show ?thesis
      by (simp add: show_hex.simps [of n] hex_char_val hexes_val_def)
  next
    case False
    with 1 d show ?thesis
      by (simp add: show_hex.simps [of n] hex_char_val hexes_val_snoc)
  qed
qed

lemma length_show_hex: "n < 16 ^ Suc k \<Longrightarrow> 0 \<le> n \<Longrightarrow> length (show_hex n) \<le> Suc k"
proof (induction k arbitrary: n)
  case 0
  then show ?case by (simp add: show_hex.simps [of n])
next
  case (Suc k)
  have "n div 16 < 16 ^ Suc k" using Suc.prems by simp
  then show ?case
    using Suc.IH [of "n div 16"] Suc.prems by (simp add: show_hex.simps [of n])
qed

lemma hexes_val_show_hex: "0 \<le> g \<Longrightarrow> hexes_val (show_hex g) = g"
  using show_hex_props by blast

lemma length_group: "0 \<le> g \<Longrightarrow> g < 65536 \<Longrightarrow> length (show_hex g) \<le> 4"
  using length_show_hex [of g 3] by simp

lemma hex_group:
  assumes "0 \<le> g" "g < 65536" "s = [] \<or> \<not> isHex (hd s)"
  shows "takeWhile isHex (show_hex g @ s) = show_hex g" "dropWhile isHex (show_hex g @ s) = s"
proof -
  have "list_all isHex (show_hex g)" using show_hex_props assms(1) by blast
  then show "takeWhile isHex (show_hex g @ s) = show_hex g" "dropWhile isHex (show_hex g @ s) = s"
    using assms(3) by (cases s; simp add: list_all_iff takeWhile_append dropWhile_append)+
qed

lemma not_hex [simp]: "\<not> isHex (CHR '':'')" "\<not> isHex (CHR ''.'')" "\<not> isHex (CHR ''%'')" "\<not> isHex (CHR ''/'')"
  by code_simp+

abbreviation groups_text :: "int list \<Rightarrow> string" where
  "groups_text gs \<equiv> join '':'' (map show_hex gs)"

lemma join_simps [simp]:
  "join sep [] = []" "join sep [x] = x" "join sep (x # y # xs) = x @ sep @ join sep (y # xs)"
  by (simp_all add: join_def)

lemma groups_text_hd: "gs \<noteq> [] \<Longrightarrow> list_all (\<lambda>g. 0 \<le> g) gs \<Longrightarrow> groups_text gs \<noteq> [] \<and> isHex (hd (groups_text gs))"
  using show_hex_props [of "hd gs"] by (cases gs rule: list.exhaust; cases "tl gs") (auto simp: list_all_iff)

abbreviation group_ok :: "int list \<Rightarrow> bool" where
  "group_ok gs \<equiv> list_all (\<lambda>g. 0 \<le> g \<and> g < 65536) gs"

section \<open>Parsing the groups back\<close>

lemma step_last:
  assumes "0 \<le> g" "g < 65536"
  shows "parseIPv6_step gs e (show_hex g) = Some (Inl (gs @ [g], e))"
  using length_group [of g] assms
  by (simp add: parseIPv6_step_def Let_def hexes_val_show_hex
      hex_group [OF assms, of "[]", unfolded append_Nil2])

lemma step_group:
  assumes "0 \<le> g" "g < 65536" "t \<noteq> []" "isHex (hd t)"
  shows "parseIPv6_step gs e (show_hex g @ CHR '':'' # t) = Some (Inr (gs @ [g], e, t))"
proof -
  obtain d r where t: "t = d # r" using assms(3) by (cases t) auto
  then have "d \<noteq> CHR '':''" using assms(4) by auto
  then show ?thesis
    using length_group [of g] assms(1,2)
    by (simp add: parseIPv6_step_def t Let_def hex_group hexes_val_show_hex)
qed

lemma step_ellipsis:
  assumes "0 \<le> g" "g < 65536"
  shows "parseIPv6_step gs None (show_hex g @ ''::'' @ t) =
    Some (if t = [] then Inl (gs @ [g], Some (length gs + 1)) else Inr (gs @ [g], Some (length gs + 1), t))"
  using length_group [of g] assms
  by (simp add: parseIPv6_step_def Let_def hex_group hexes_val_show_hex)

lemma loop_groups:
  assumes "hs \<noteq> []" "group_ok hs" "length hs \<le> k"
  shows "parseIPv6_loop k gs e (groups_text hs) = Some (gs @ hs, e, [])"
  using assms
proof (induction hs arbitrary: k gs)
  case (Cons h hs)
  then obtain k' where k: "k = Suc k'" by (cases k) auto
  show ?case
  proof (cases hs)
    case Nil
    with Cons.prems show ?thesis by (simp add: k step_last)
  next
    case (Cons h' hs')
    have "groups_text hs \<noteq> [] \<and> isHex (hd (groups_text hs))"
      using Cons.prems Cons by (intro groups_text_hd) (auto simp: list_all_iff)
    with Cons.prems Cons.IH [of k' "gs @ [h]"] show ?thesis
      by (simp add: k Cons step_group)
  qed
qed simp

lemma loop_ellipsis:
  assumes "hs \<noteq> []" "group_ok hs" "length hs \<le> k"
  shows "parseIPv6_loop k gs None (groups_text hs @ ''::'' @ t) =
    (if t = [] then Some (gs @ hs, Some (length (gs @ hs)), [])
     else parseIPv6_loop (k - length hs) (gs @ hs) (Some (length (gs @ hs))) t)"
  using assms
proof (induction hs arbitrary: k gs)
  case (Cons h hs)
  then obtain k' where k: "k = Suc k'" by (cases k) auto
  show ?case
  proof (cases hs)
    case Nil
    with Cons.prems step_ellipsis [of h gs t] show ?thesis by (simp add: k)
  next
    case (Cons h' hs')
    have "groups_text hs \<noteq> [] \<and> isHex (hd (groups_text hs))"
      using Cons.prems Cons by (intro groups_text_hd) (auto simp: list_all_iff)
    with Cons.prems Cons.IH [of k' "gs @ [h]"] step_group [of h "groups_text hs @ ''::'' @ t" gs None] show ?thesis
      by (simp add: k Cons)
  qed
qed simp

lemma zero_span_Some:
  assumes "zero_span gs = Some (s, e)"
  shows "e = s + zero_run gs s" "2 \<le> zero_run gs s"
proof -
  let ?P = "\<lambda>best. \<forall>s e. best = Some (s, e) \<longrightarrow> e = s + zero_run gs s \<and> 2 \<le> zero_run gs s"
  have "?P (fold (\<lambda>i best. let l = zero_run gs i in
             if 2 \<le> l \<and> (case best of None \<Rightarrow> True | Some (s, e) \<Rightarrow> e - s < l)
             then Some (i, i + l) else best) is None)" for "is"
    by (rule fold_invariant [where Q = "\<lambda>_. True"]) (auto simp: Let_def split: if_splits)
  from this [of "[0..<8]"] assms show "e = s + zero_run gs s" "2 \<le> zero_run gs s"
    by (auto simp: zero_span_def)
qed

lemma zero_run_split:
  assumes "0 < zero_run gs s"
  shows "gs = take s gs @ replicate (zero_run gs s) 0 @ drop (s + zero_run gs s) gs" "s \<le> length gs"
proof -
  let ?z = "takeWhile (\<lambda>g. g = 0) (drop s gs)"
  have "?z = replicate (length ?z) 0" by (rule replicate_length_same [symmetric]) (auto dest: set_takeWhileD)
  moreover have "drop s gs = ?z @ drop (length ?z) (drop s gs)"
    by (metis takeWhile_dropWhile_id dropWhile_eq_drop)
  ultimately show "gs = take s gs @ replicate (zero_run gs s) 0 @ drop (s + zero_run gs s) gs"
    by (metis append_take_drop_id drop_drop zero_run_def add.commute)
  show "s \<le> length gs" using assms by (cases "s \<le> length gs") (auto simp: zero_run_def)
qed

lemma not_ellipsis: "s \<noteq> [] \<Longrightarrow> isHex (hd s) \<Longrightarrow> take 2 (s @ t) \<noteq> ''::''"
  by (cases s) auto

definition text6 :: "int list \<Rightarrow> string" where
  "text6 gs = (case zero_span gs of None \<Rightarrow> groups_text gs
     | Some (s, e) \<Rightarrow> groups_text (take s gs) @ ''::'' @ groups_text (drop e gs))"

lemma parse_text6:
  assumes gs: "length gs = 8" "group_ok gs"
  shows "parseIPv6_groups (text6 gs) = Some gs"
proof (cases "zero_span gs")
  case None
  have "groups_text gs \<noteq> [] \<and> isHex (hd (groups_text gs))"
    using gs by (intro groups_text_hd) (auto simp: list_all_iff)
  then have "take 2 (groups_text gs) \<noteq> ''::''" using not_ellipsis [of _ "[]"] by simp
  moreover have "parseIPv6_loop 8 [] None (groups_text gs) = Some (gs, None, [])"
    using loop_groups [of gs 8 "[]" None] gs by fastforce
  ultimately show ?thesis
    using gs(1) by (simp add: text6_def None parseIPv6_groups_def parseIPv6_finish_def)
next
  case (Some se)
  obtain s e where se: "se = (s, e)" by (cases se)
  define A B where "A = take s gs" and "B = drop e gs"
  note z = zero_span_Some [OF Some [unfolded se]]
  then have split: "gs = A @ replicate (e - s) 0 @ B" and s: "s \<le> 8" "s + 2 \<le> e"
    using zero_run_split [of gs s] gs(1) by (simp_all add: A_def B_def)
  have lenA: "length A = s" using s gs(1) by (simp add: A_def)
  have "length gs = length A + (e - s) + length B" by (subst split) simp
  then have len: "length A = s" "length B + (e - s) + s = 8"
    using lenA gs(1) by simp_all
  have ok: "group_ok A" "group_ok B"
    using gs(2) by (auto simp: A_def B_def list_all_iff dest: in_set_takeD in_set_dropD)
  have hexA: "groups_text A \<noteq> [] \<and> isHex (hd (groups_text A))" if "A \<noteq> []"
    using that ok by (intro groups_text_hd) (auto simp: list_all_iff)
  have hexB: "groups_text B \<noteq> []" if "B \<noteq> []"
    using groups_text_hd [of B] that ok by (auto simp: list_all_iff)
  have fin: "parseIPv6_finish (A @ B, Some s, []) = Some gs"
  proof -
    have "8 - length (A @ B) = e - s" "length (A @ B) < 8" using len s by auto
    then show ?thesis by (subst split) (simp add: parseIPv6_finish_def len(1))
  qed
  have shape: "text6 gs = groups_text A @ ''::'' @ groups_text B"
    by (simp add: text6_def Some se A_def B_def)
  show ?thesis
  proof (cases "A = []")
    case True
    then have s0: "s = 0" using len by simp
    show ?thesis
    proof (cases "B = []")
      case True
      with \<open>A = []\<close> len have "gs = replicate 8 0" by (subst split) simp
      moreover have "text6 gs = ''::''" using \<open>A = []\<close> True by (simp add: shape)
      ultimately show ?thesis by (simp only: parseIPv6_groups_def) simp
    next
      case False
      then have "parseIPv6_loop 8 [] (Some 0) (groups_text B) = Some (B, Some 0, [])"
        using loop_groups [of B 8 "[]" "Some 0"] ok len by auto
      with False hexB fin \<open>A = []\<close> s0 show ?thesis by (simp add: shape parseIPv6_groups_def)
    qed
  next
    case False
    note h = hexA [OF False]
    have "parseIPv6_loop 8 [] None (text6 gs) = Some (A @ B, Some s, [])"
    proof (cases "B = []")
      case True
      then show ?thesis
        using loop_ellipsis [of A 8 "[]" "groups_text B"] False ok len by (simp add: shape)
    next
      case B: False
      then show ?thesis
        using loop_ellipsis [of A 8 "[]" "groups_text B"] loop_groups [of B "8 - s" A "Some s"]
          False ok len hexB [OF B] by (simp add: shape)
    qed
    moreover have "take 2 (text6 gs) \<noteq> ''::''"
      unfolding shape using h by (intro not_ellipsis) auto
    ultimately show ?thesis using fin by (simp add: parseIPv6_groups_def)
  qed
qed

section \<open>Addresses\<close>

lemma groups_text_chars: "list_all (\<lambda>g. 0 \<le> g) gs \<Longrightarrow> c \<in> set (groups_text gs) \<Longrightarrow> isHex c \<or> c = CHR '':''"
proof (induction gs)
  case (Cons g gs)
  have "isHex d" if "d \<in> set (show_hex g)" for d
    using show_hex_props [of g] Cons.prems(1) that by (auto simp: list_all_iff)
  with Cons show ?case by (cases gs) auto
qed simp

lemma groups_text_colon: "2 \<le> length gs \<Longrightarrow> CHR '':'' \<in> set (groups_text gs)"
  by (cases gs rule: list.exhaust; cases "tl gs") auto

lemma text6_chars:
  assumes "length gs = 8" "group_ok gs"
  shows "\<forall>c \<in> set (text6 gs). isHex c \<or> c = CHR '':''" "CHR '':'' \<in> set (text6 gs)"
proof -
  have "list_all (\<lambda>g. 0 \<le> g) gs" "\<And>s. list_all (\<lambda>g. 0 \<le> g) (take s gs)" "\<And>s. list_all (\<lambda>g. 0 \<le> g) (drop s gs)"
    using assms(2) by (auto simp: list_all_iff dest: in_set_takeD in_set_dropD)
  note ok = groups_text_chars [OF this(1)] groups_text_chars [OF this(2)] groups_text_chars [OF this(3)]
  show "\<forall>c \<in> set (text6 gs). isHex c \<or> c = CHR '':''"
    by (auto simp: text6_def split: option.splits prod.splits dest: ok)
  show "CHR '':'' \<in> set (text6 gs)"
    using groups_text_colon [of gs] assms(1) by (auto simp: text6_def split: option.splits prod.splits)
qed

lemma find_colon:
  assumes "\<forall>c \<in> set s. isHex c \<or> c = CHR '':''" "CHR '':'' \<in> set s"
  shows "find (\<lambda>c. c = CHR ''.'' \<or> c = CHR '':'' \<or> c = CHR ''%'') (s @ t) = Some (CHR '':'')"
proof -
  have "find P (s @ t) = Some (CHR '':'')"
    if "P = (\<lambda>c. c = CHR ''.'' \<or> c = CHR '':'' \<or> c = CHR ''%'')" for P
    using assms that by (induction s) auto
  then show ?thesis by blast
qed

abbreviation zone_text :: "string \<Rightarrow> string" where
  "zone_text z \<equiv> (if z \<noteq> [] then CHR ''%'' # z else [])"

lemma parseIPv6_zone:
  assumes "\<forall>c \<in> set s. c \<noteq> CHR ''%''"
  shows "parseIPv6 (s @ zone_text z) =
    map_option (\<lambda>gs. Addr6 (of_int (of_base 65536 gs)) z) (parseIPv6_groups s)"
proof -
  have "takeWhile (\<lambda>c. c \<noteq> CHR ''%'') (s @ zone_text z) = s"
    "dropWhile (\<lambda>c. c \<noteq> CHR ''%'') (s @ zone_text z) = zone_text z"
    using assms by (auto simp: takeWhile_append dropWhile_append)
  then show ?thesis by (simp add: parseIPv6_def)
qed

lemma groups_of_word:
  fixes w :: "128 word"
  shows "group_ok (to_base 65536 8 (uint w))" "length (to_base 65536 8 (uint w)) = 8"
    "of_int (of_base 65536 (to_base 65536 8 (uint w))) = w"
proof -
  show "group_ok (to_base 65536 8 (uint w))"
    using to_base_range [of 65536 _ 8 "uint w"] by (auto simp: list_all_iff)
  have "of_base 65536 (to_base 65536 8 (uint w)) = uint w"
    by (rule of_base_to_base) (use uint_lt2p [of w] in auto)
  then show "of_int (of_base 65536 (to_base 65536 8 (uint w))) = w" by simp
qed simp

lemma appendTo6_text6: "appendTo6 w = text6 (to_base 65536 8 (uint w))"
  by (simp add: appendTo6_def text6_def Let_def)

lemma ParseAddr_appendTo6: "ParseAddr (appendTo6 w @ zone_text z) = Some (Addr6 w z)"
proof -
  note g = groups_of_word [of w]
  note t = text6_chars [OF g(2,1)]
  have "\<forall>c \<in> set (text6 (to_base 65536 8 (uint w))). c \<noteq> CHR ''%''" using t(1) by auto
  then show ?thesis
    using parse_text6 [OF g(2,1)]
    by (simp add: ParseAddr_def appendTo6_text6 find_colon [OF t] parseIPv6_zone g(3) del: to_base.simps)
qed

lemma step_string4:
  "parseIPv6_step [g] (Some e) (string4 v) =
    Some (Inl ([g, uint v div 16777216 * 256 + uint v div 65536 mod 256,
                uint v div 256 mod 256 * 256 + uint v mod 256], Some e))"
proof -
  define a b c d where "a = uint v div 16777216" and "b = uint v div 65536 mod 256"
    and "c = uint v div 256 mod 256" and "d = uint v mod 256"
  have lt: "uint v < 2 ^ 32" using uint_lt2p [of v] by simp
  have o: "to_base 256 4 (uint v) = [a, b, c, d]"
  proof -
    have "uint v div 16777216 mod 256 = uint v div 16777216"
      using lt by (intro mod_pos_pos_trivial) (auto simp: pos_imp_zdiv_nonneg_iff)
    then show ?thesis
      by (simp add: numeral_eq_Suc a_def b_def c_def d_def flip: zdiv_zmult2_eq)
  qed
  have a: "0 \<le> a" "a < 256" using lt by (auto simp: a_def pos_imp_zdiv_nonneg_iff)
  have digits: "list_all isDigit (show_dec a)" by (rule digits_show_dec [OF a(1)])
  then have hex: "list_all isHex (show_dec a)" by (auto simp: list_all_iff isHex_digit)
  obtain t where t: "string4 v = show_dec a @ CHR ''.'' # t" by (simp add: string4_def o)
  have tw: "takeWhile isHex (string4 v) = show_dec a" "dropWhile isHex (string4 v) = CHR ''.'' # t"
    using hex by (simp_all add: t list_all_iff takeWhile_append dropWhile_append)
  have "length (show_dec a) \<le> 4" using a by (simp add: show_dec_octet)
  moreover have "parseIPv4Fields True 0 0 [] (string4 v) = Some [a, b, c, d]"
    by (simp only: parseIPv4Fields_string4 o)
  ultimately show ?thesis
    by (simp add: parseIPv6_step_def Let_def tw a_def b_def c_def d_def)
qed

lemma string4_hd: "string4 v \<noteq> [] \<and> isHex (hd (string4 v))"
proof -
  have a: "0 \<le> hd (to_base 256 4 (uint v))" by (simp add: numeral_eq_Suc pos_imp_zdiv_nonneg_iff)
  obtain x xs where "to_base 256 4 (uint v) = x # xs" by (cases "to_base 256 4 (uint v)") (simp_all add: numeral_eq_Suc)
  with a digits_show_dec [of x] show ?thesis
    by (cases "show_dec x") (auto simp: string4_def join_def isHex_digit)
qed

lemma ParseAddr_4in6:
  assumes "drop_bit 32 (w :: 128 word) = 65535"
  shows "ParseAddr (''::ffff:'' @ string4 (ucast w) @ zone_text z) = Some (Addr6 w z)"
proof -
  define v :: "32 word" where "v = ucast w"
  have v: "uint v = uint w mod 2 ^ 32" by (simp add: v_def unsigned_ucast_eq take_bit_eq_mod)
  have "uint w div 2 ^ 32 = 65535"
    using arg_cong [OF assms, of uint] by (simp add: drop_bit_eq_div uint_div_distrib)
  then have w: "uint w = 65535 * 2 ^ 32 + uint v"
    using v by (metis div_mult_mod_eq)
  define gs where "gs = [0, 0, 0, 0, 0, 65535, uint v div 16777216 * 256 + uint v div 65536 mod 256,
                uint v div 256 mod 256 * 256 + uint v mod 256]"
  have ffff: "show_hex 65535 = ''ffff''" by code_simp
  have first: "parseIPv6_step [] (Some 0) (''ffff:'' @ string4 v) = Some (Inr ([65535], Some 0, string4 v))"
    using step_group [of 65535 "string4 v" "[]" "Some 0"] string4_hd [of v] by (simp add: ffff)
  have "parseIPv6_loop (Suc (Suc 6)) [] (Some 0) (''ffff:'' @ string4 v) = Some (drop 5 gs, Some 0, [])"
    by (simp only: parseIPv6_loop.simps first step_string4 option.case sum.case prod.case) (simp add: gs_def)
  moreover have "Suc (Suc 6) = 8" by simp
  moreover have "parseIPv6_finish (drop 5 gs, Some 0, []) = Some gs"
    by (simp add: parseIPv6_finish_def gs_def numeral_eq_Suc)
  ultimately have "parseIPv6_groups (''::ffff:'' @ string4 v) = Some gs"
    by (simp add: parseIPv6_groups_def)
  moreover have "of_base 65536 gs = uint w"
  proof -
    have "uint v div 16777216 = uint v div 65536 div 256"
      by (simp flip: zdiv_zmult2_eq)
    then have x: "uint v div 16777216 * 256 + uint v div 65536 mod 256 = uint v div 65536"
      by (simp only: div_mult_mod_eq)
    have y: "uint v div 256 mod 256 * 256 + uint v mod 256 = uint v mod 65536"
      using zmod_zmult2_eq [of 256 "uint v" 256] by simp
    have "of_base 65536 gs = (65535 * 65536 + uint v div 65536) * 65536 + uint v mod 65536"
      unfolding gs_def x y by (simp add: of_base_def)
    also have "\<dots> = 65535 * 2 ^ 32 + (uint v div 65536 * 65536 + uint v mod 65536)" by simp
    finally show ?thesis by (simp only: w div_mult_mod_eq)
  qed
  moreover have "\<forall>c \<in> set (''::ffff:'' @ string4 v). c \<noteq> CHR ''%''"
    using parseIPv4Fields_chars [OF parseIPv4Fields_string4 [of v], of "CHR ''%''"] by (auto simp: isDigit_def)
  ultimately show ?thesis
    using parseIPv6_zone [of "''::ffff:'' @ string4 v" z] by (simp add: ParseAddr_def v_def)
qed

lemma ParseAddr_String:
  assumes "a \<noteq> AddrZero"
  shows "ParseAddr (Addr_String a) = Some a"
proof (cases a)
  case (Addr4 w)
  then show ?thesis by (simp add: Addr_String_def ParseAddr_string4)
next
  case (Addr6 w z)
  show ?thesis
  proof (cases "drop_bit 32 w = 65535")
    case True
    then show ?thesis
      using ParseAddr_4in6 [OF True, of z] by (simp add: Addr_String_def Addr6 Is4In6_def)
  next
    case False
    then show ?thesis
      using ParseAddr_appendTo6 [of w z] by (simp add: Addr_String_def Addr6 Is4In6_def)
  qed
qed (use assms in simp)

lemma Addr_String_inject:
  "a \<noteq> AddrZero \<Longrightarrow> b \<noteq> AddrZero \<Longrightarrow> Addr_String a = Addr_String b \<longleftrightarrow> a = b"
  by (metis ParseAddr_String option.inject)

section \<open>Prefixes\<close>

lemma show_dec_leading:
  assumes "0 \<le> n" "n < 256" "1 < length (show_dec n)"
  shows "\<not> (byte_of (hd (show_dec n)) < 49 \<or> 57 < byte_of (hd (show_dec n)))"
proof -
  have n: "10 \<le> n" using assms by (auto simp: show_dec.simps [of n] split: if_splits)
  define q where "q = (if n < 100 then n div 10 else n div 100)"
  have "1 \<le> q" "q \<le> 9" using n assms(2) by (auto simp: q_def)
  moreover have "hd (show_dec n) = char_of (48 + q)"
    using n assms(1,2) by (auto simp: show_dec_octet q_def)
  ultimately show ?thesis by (simp add: of_char_of)
qed

lemma ParsePrefix_printed:
  assumes a: "ParseAddr s = Some a" "Addr_Zone a = []" and n: "0 \<le> n" "n \<le> BitLen a"
  shows "ParsePrefix (s @ ''/'' @ show_dec n) = Some \<lparr>PfxAddr = a, PfxBits = n\<rparr>"
proof -
  have nz: "a \<noteq> AddrZero" using ParseAddr_nonzero [OF a(1)] .
  have n': "n \<le> 128" using n(2) by (auto simp: BitLen_def split: Addr.splits)
  have "list_all isDigit (show_dec n)" using n by (simp add: digits_show_dec)
  then have "c \<noteq> CHR ''/''" if "c \<in> set (rev (show_dec n))" for c
    using that by (auto simp: list_all_iff isDigit_def)
  then have tw: "takeWhile (\<lambda>c. c \<noteq> CHR ''/'') (rev (s @ ''/'' @ show_dec n)) = rev (show_dec n)"
    by (simp add: takeWhile_append)
  have lead: "\<not> (1 < length (show_dec n) \<and> (byte_of (hd (show_dec n)) < 49 \<or> 57 < byte_of (hd (show_dec n))))"
    using show_dec_leading [of n] n(1) n' by linarith
  have wz: "withoutZone a = a" using a(2) by (cases a) (simp_all add: withoutZone_def Addr_Zone_def)
  have bl: "\<not> Is6 a \<Longrightarrow> \<not> 32 < n" using nz n(2) by (cases a) (simp_all add: Is6_def BitLen_def)
  show ?thesis
    using n n' lead nz bl unfolding ParsePrefix_def tw
    by (simp add: Let_def a Atoi_show_dec PrefixFrom_def wz)
qed

lemma ParsePrefix_String:
  assumes "wf_Prefix p"
  shows "ParsePrefix (Prefix_String p) = Some p"
  using assms ParsePrefix_printed [OF ParseAddr_String, of "PfxAddr p" "PfxBits p"]
  by (simp add: wf_Prefix_def Prefix_IsValid_def Prefix_String_def show_int_def)

lemma Prefix_String_inject:
  "wf_Prefix p \<Longrightarrow> wf_Prefix q \<Longrightarrow> Prefix_String p = Prefix_String q \<longleftrightarrow> p = q"
  by (metis ParsePrefix_String option.inject)

lemma Addr_String_inj: "Addr_String a = Addr_String b \<longleftrightarrow> a = b"
proof -
  have "ParseAddr (Addr_String AddrZero) = None" by code_simp
  then show ?thesis by (metis ParseAddr_String option.distinct(1) option.inject)
qed

lemma Addr_String_chars:
  assumes "c \<in> set (Addr_String a)" "Addr_Zone a = []" "a \<noteq> AddrZero"
  shows "isHex c \<or> c = CHR '':'' \<or> c = CHR ''.''"
  using ParseAddr_chars [OF ParseAddr_String [OF assms(3)] assms(1)] assms(2) by auto

lemma TrimSpace_Addr_String:
  assumes "Addr_Zone a = []" "a \<noteq> AddrZero"
  shows "TrimSpace (Addr_String a) = Addr_String a"
proof (rule TrimSpace_id)
  have "\<not> isSpace c" if "c \<in> set (Addr_String a)" for c
    using Addr_String_chars [OF that assms] by (auto simp: isHex_def isDigit_def isSpace_def Let_def)
  then show "list_all (\<lambda>c. \<not> isSpace c) (Addr_String a)" by (simp add: list_all_iff)
qed

declare join_simps [simp del]

end
