(* ===== verification/Flow.thy ===== *)
theory Flow
  imports Netip_Text
begin

text \<open>
  Tuples and keys of flows: \<open>internal/domain/flow.go\<close> (the directional tuple, its validity,
  its reversal, protocol names, the legacy flow key) and \<open>internal/flow/tuple.go\<close> (scoped
  keys, the bidirectional pair, the alias list of a connection). The lemmas say that reversal is
  an involution that keeps validity, and what the alias list of a connection is.
\<close>

section \<open>Tuples\<close>

type_synonym IPFamily = u8

abbreviation FamilyUnknown :: IPFamily where "FamilyUnknown \<equiv> 0"
abbreviation FamilyIPv4 :: IPFamily where "FamilyIPv4 \<equiv> 4"
abbreviation FamilyIPv6 :: IPFamily where "FamilyIPv6 \<equiv> 6"

definition IPFamily_String :: "IPFamily \<Rightarrow> string" where
  "IPFamily_String f =
     (if f = FamilyIPv4 then ''ipv4'' else if f = FamilyIPv6 then ''ipv6'' else ''unknown'')"

record Tuple =
  Family :: IPFamily
  SrcIP :: Addr
  SrcPort :: u16
  DstIP :: Addr
  DstPort :: u16
  Protocol :: u8
  ICMPType :: u8
  ICMPCode :: u8
  ICMPID :: u16

definition TupleZero :: Tuple where
  "TupleZero = \<lparr>Family = 0, SrcIP = AddrZero, SrcPort = 0, DstIP = AddrZero, DstPort = 0,
     Protocol = 0, ICMPType = 0, ICMPCode = 0, ICMPID = 0\<rparr>"

definition Tuple_Valid :: "Tuple \<Rightarrow> bool" where
  "Tuple_Valid t =
     (if SrcIP t = AddrZero \<or> DstIP t = AddrZero \<or> Protocol t = 0 then False
      else if Family t = FamilyIPv4 \<and> (\<not> Is4 (SrcIP t) \<or> \<not> Is4 (DstIP t)) then False
      else if Family t = FamilyIPv6 \<and>
        (\<not> Is6 (SrcIP t) \<or> Is4 (SrcIP t) \<or> \<not> Is6 (DstIP t) \<or> Is4 (DstIP t)) then False
      else BitLen (SrcIP t) = BitLen (DstIP t))"

definition Tuple_Reverse :: "Tuple \<Rightarrow> Tuple" where
  "Tuple_Reverse t =
     (let r = t\<lparr>SrcIP := DstIP t, DstIP := SrcIP t, SrcPort := DstPort t, DstPort := SrcPort t\<rparr> in
      if Protocol t = 1 \<or> Protocol t = 58 then
        (if ICMPType t = 8 then r\<lparr>ICMPType := 0\<rparr>
         else if ICMPType t = 0 then r\<lparr>ICMPType := 8\<rparr>
         else if ICMPType t = 128 then r\<lparr>ICMPType := 129\<rparr>
         else if ICMPType t = 129 then r\<lparr>ICMPType := 128\<rparr>
         else r)
      else r)"

definition Tuple_String :: "Tuple \<Rightarrow> string" where
  "Tuple_String t = join ''|''
     [IPFamily_String (Family t), Addr_String (SrcIP t), Addr_String (DstIP t),
      show_dec (uint (SrcPort t)), show_dec (uint (DstPort t)), show_dec (uint (Protocol t)),
      show_dec (uint (ICMPType t)), show_dec (uint (ICMPCode t)), show_dec (uint (ICMPID t)),
      show_dec (BitLen (SrcIP t))]"

definition ParseProtocol :: "string \<Rightarrow> u8 \<times> bool" where
  "ParseProtocol value =
     (let v = ToLower (TrimSpace value) in
      if v = ''tcp'' \<or> v = ''6'' then (6, True)
      else if v = ''udp'' \<or> v = ''17'' then (17, True)
      else if v = ''icmp'' \<or> v = ''1'' then (1, True)
      else if v = ''icmpv6'' \<or> v = ''58'' then (58, True)
      else (case Sscanf_d (TrimSpace value) of
              Some n \<Rightarrow> if 0 < n \<and> n \<le> 255 then (of_int n, True) else (0, False)
            | None \<Rightarrow> (0, False)))"

section \<open>The legacy flow key\<close>

record FlowKey =
  fk_SrcIP :: string
  fk_DstIP :: string
  fk_SrcPort :: int
  fk_DstPort :: int
  fk_Protocol :: string
  fk_Namespace :: string

definition FlowKey_Reverse :: "FlowKey \<Rightarrow> FlowKey" where
  "FlowKey_Reverse k = \<lparr>fk_SrcIP = fk_DstIP k, fk_DstIP = fk_SrcIP k, fk_SrcPort = fk_DstPort k,
     fk_DstPort = fk_SrcPort k, fk_Protocol = fk_Protocol k, fk_Namespace = fk_Namespace k\<rparr>"

definition FlowKey_String :: "FlowKey \<Rightarrow> string" where
  "FlowKey_String k = fk_SrcIP k @ '':'' @ show_int (fk_SrcPort k) @ ''-'' @ fk_DstIP k @ '':''
     @ show_int (fk_DstPort k) @ ''/'' @ ToUpper (fk_Protocol k) @ ''/'' @ fk_Namespace k"

datatype FlowError =
    InvalidSourceIP | InvalidDestinationIP | MixedFamilies
  | UnsupportedProtocol string | PortOutsideRange | InvalidTuple

definition TupleFromFlowKey :: "FlowKey \<Rightarrow> FlowError + Tuple" where
  "TupleFromFlowKey k =
     (case ParseAddr (TrimSpace (fk_SrcIP k)) of
        None \<Rightarrow> Inl InvalidSourceIP
      | Some src \<Rightarrow>
     (case ParseAddr (TrimSpace (fk_DstIP k)) of
        None \<Rightarrow> Inl InvalidDestinationIP
      | Some dst \<Rightarrow>
          if Is4 src \<noteq> Is4 dst then Inl MixedFamilies
          else
            let (proto, ok) = ParseProtocol (fk_Protocol k) in
            if \<not> ok then Inl (UnsupportedProtocol (fk_Protocol k))
            else if fk_SrcPort k < 0 \<or> 65535 < fk_SrcPort k \<or> fk_DstPort k < 0 \<or> 65535 < fk_DstPort k
            then Inl PortOutsideRange
            else Inr \<lparr>Family = (if Is4 src then FamilyIPv4 else FamilyIPv6), SrcIP = src,
                   SrcPort = of_int (fk_SrcPort k), DstIP = dst, DstPort = of_int (fk_DstPort k),
                   Protocol = proto, ICMPType = 0, ICMPCode = 0, ICMPID = 0\<rparr>))"

definition Tuple_FlowKey :: "Tuple \<Rightarrow> string \<Rightarrow> FlowKey" where
  "Tuple_FlowKey t namespace =
     \<lparr>fk_SrcIP = Addr_String (SrcIP t), fk_DstIP = Addr_String (DstIP t),
      fk_SrcPort = uint (SrcPort t), fk_DstPort = uint (DstPort t),
      fk_Protocol =
        (if Protocol t = 1 then ''icmp'' else if Protocol t = 6 then ''tcp''
         else if Protocol t = 17 then ''udp'' else if Protocol t = 58 then ''icmpv6''
         else show_dec (uint (Protocol t))),
      fk_Namespace = namespace\<rparr>"

section \<open>Scoped keys\<close>

record Scope =
  NetworkNamespace :: string
  ConntrackZone :: u16

record Key =
  Key_Scope :: Scope
  Key_Tuple :: Tuple

definition NewKey :: "Scope \<Rightarrow> Tuple \<Rightarrow> FlowError + Key" where
  "NewKey scope tuple =
     (if \<not> Tuple_Valid tuple then Inl InvalidTuple
      else Inr \<lparr>Key_Scope = scope, Key_Tuple = tuple\<rparr>)"

definition Key_Reverse :: "Key \<Rightarrow> Key" where
  "Key_Reverse k = k\<lparr>Key_Tuple := Tuple_Reverse (Key_Tuple k)\<rparr>"

definition Key_String :: "Key \<Rightarrow> string" where
  "Key_String k = NetworkNamespace (Key_Scope k) @ ''/'' @ show_dec (uint (ConntrackZone (Key_Scope k)))
     @ ''/'' @ Tuple_String (Key_Tuple k)"

record Bidirectional =
  Bi_A :: Key
  Bi_B :: Key

definition Pair_keys :: "Key \<Rightarrow> Key \<Rightarrow> Bidirectional" where
  "Pair_keys a b =
     (if Key_String b < Key_String a then \<lparr>Bi_A = b, Bi_B = a\<rparr> else \<lparr>Bi_A = a, Bi_B = b\<rparr>)"

definition PairFromTuple :: "Key \<Rightarrow> Bidirectional" where
  "PairFromTuple key = Pair_keys key (Key_Reverse key)"

definition Bidirectional_String :: "Bidirectional \<Rightarrow> string" where
  "Bidirectional_String p = Key_String (Bi_A p) @ ''|'' @ Key_String (Bi_B p)"

text \<open>
  The tuples \<open>Aliases\<close> passes to its closure \<open>add\<close>, in order; \<open>add\<close> skips the invalid ones and
  the keys already seen.
\<close>

definition alias_tuples :: "Tuple \<Rightarrow> Tuple option \<Rightarrow> Tuple option \<Rightarrow> Tuple list" where
  "alias_tuples original reply translated =
     [original, Tuple_Reverse original]
     @ (case reply of None \<Rightarrow> [] | Some r \<Rightarrow> [r, Tuple_Reverse r])
     @ (case translated of None \<Rightarrow> []
        | Some t \<Rightarrow>
            let policy = original\<lparr>DstIP := DstIP t, DstPort := DstPort t\<rparr> in
            [t, Tuple_Reverse t, policy, Tuple_Reverse policy])"

definition Aliases :: "Scope \<Rightarrow> Tuple \<Rightarrow> Tuple option \<Rightarrow> Tuple option \<Rightarrow> Key list" where
  "Aliases scope original reply translated =
     dedup (map (\<lambda>t. \<lparr>Key_Scope = scope, Key_Tuple = t\<rparr>)
       (filter Tuple_Valid (alias_tuples original reply translated)))"

definition ParseLegacy :: "FlowKey \<Rightarrow> FlowError + Key" where
  "ParseLegacy k =
     (case TupleFromFlowKey k of
        Inl e \<Rightarrow> Inl e
      | Inr t \<Rightarrow> NewKey \<lparr>NetworkNamespace = TrimSpace (fk_Namespace k), ConntrackZone = 0\<rparr> t)"

definition Key_FlowKey :: "Key \<Rightarrow> FlowKey" where
  "Key_FlowKey k = Tuple_FlowKey (Key_Tuple k) (NetworkNamespace (Key_Scope k))"

section \<open>Reversal\<close>

lemma Tuple_Reverse_fields [simp]:
  "Family (Tuple_Reverse t) = Family t" "SrcIP (Tuple_Reverse t) = DstIP t"
  "DstIP (Tuple_Reverse t) = SrcIP t" "SrcPort (Tuple_Reverse t) = DstPort t"
  "DstPort (Tuple_Reverse t) = SrcPort t" "Protocol (Tuple_Reverse t) = Protocol t"
  "ICMPCode (Tuple_Reverse t) = ICMPCode t" "ICMPID (Tuple_Reverse t) = ICMPID t"
  by (simp_all add: Tuple_Reverse_def Let_def)

lemma Tuple_Reverse_Reverse [simp]: "Tuple_Reverse (Tuple_Reverse t) = t"
  by (cases t) (simp add: Tuple_Reverse_def Let_def)

lemma Tuple_Valid_Reverse [simp]: "Tuple_Valid (Tuple_Reverse t) = Tuple_Valid t"
  by (auto simp: Tuple_Valid_def)

lemma Key_Reverse_Reverse [simp]: "Key_Reverse (Key_Reverse k) = k"
  by (simp add: Key_Reverse_def)

lemma Tuple_Valid_TupleZero [simp]: "\<not> Tuple_Valid TupleZero"
  by (simp add: Tuple_Valid_def TupleZero_def)

section \<open>Aliases\<close>

lemma set_Aliases:
  "k \<in> set (Aliases scope original reply translated) \<longleftrightarrow>
     Key_Scope k = scope \<and> Tuple_Valid (Key_Tuple k)
     \<and> Key_Tuple k \<in> set (alias_tuples original reply translated)"
  by (cases k) (auto simp: Aliases_def)

lemma alias_tuples_Reverse:
  "t \<in> set (alias_tuples original reply translated) \<Longrightarrow>
   Tuple_Reverse t \<in> set (alias_tuples original reply translated)"
  by (auto simp: alias_tuples_def Let_def split: option.splits)

lemma length_alias_tuples: "length (alias_tuples original reply translated) \<le> 8"
  by (auto simp: alias_tuples_def Let_def split: option.splits)

lemma length_Aliases: "length (Aliases scope original reply translated) \<le> 8"
proof -
  have "length (Aliases scope original reply translated)
      \<le> length (filter Tuple_Valid (alias_tuples original reply translated))"
    unfolding Aliases_def by (metis dedup_seen_subset length_map)
  also have "\<dots> \<le> 8"
    by (rule le_trans [OF length_filter_le length_alias_tuples])
  finally show ?thesis .
qed

section \<open>Properties\<close>

text \<open>
  C22: the alias list of a connection has no duplicates and at most eight keys; its keys are
  exactly the valid tuples among the original, the reply, the translated and the policy view
  (the original source with the translated destination), each also reversed, all in the
  connection's scope; and it is closed under reversal, so a packet of either direction finds
  the connection.
\<close>

theorem aliases_of_a_connection:
  "distinct (Aliases scope original reply translated)
   \<and> length (Aliases scope original reply translated) \<le> 8
   \<and> (\<forall>k. k \<in> set (Aliases scope original reply translated) \<longleftrightarrow>
         Key_Scope k = scope \<and> Tuple_Valid (Key_Tuple k)
         \<and> (\<exists>t \<in> {original} \<union> set_option reply \<union> set_option translated
               \<union> (\<lambda>t. original\<lparr>DstIP := DstIP t, DstPort := DstPort t\<rparr>) ` set_option translated.
             Key_Tuple k = t \<or> Key_Tuple k = Tuple_Reverse t))
   \<and> (\<forall>k. Key_Reverse k \<in> set (Aliases scope original reply translated) \<longleftrightarrow>
         k \<in> set (Aliases scope original reply translated))"
proof -
  have "Key_Reverse k \<in> set (Aliases scope original reply translated)"
    if "k \<in> set (Aliases scope original reply translated)" for k
    using that alias_tuples_Reverse by (auto simp: set_Aliases Key_Reverse_def)
  then have "Key_Reverse k \<in> set (Aliases scope original reply translated) \<longleftrightarrow>
      k \<in> set (Aliases scope original reply translated)" for k
    by (metis Key_Reverse_Reverse)
  moreover have "distinct (Aliases scope original reply translated)"
    by (simp add: Aliases_def)
  moreover have "t \<in> set (alias_tuples original reply translated) \<longleftrightarrow>
      (\<exists>u \<in> {original} \<union> set_option reply \<union> set_option translated
           \<union> (\<lambda>t. original\<lparr>DstIP := DstIP t, DstPort := DstPort t\<rparr>) ` set_option translated.
         t = u \<or> t = Tuple_Reverse u)" for t
    by (auto simp: alias_tuples_def Let_def split: option.splits)
  ultimately show ?thesis
    using length_Aliases [of scope original reply translated]
    by (auto simp only: set_Aliases)
qed

lemma join_Cons_Cons: "join sep (x # y # ys) = x @ sep @ join sep (y # ys)"
  by (simp add: join_def)

lemma Split_join:
  "xs \<noteq> [] \<Longrightarrow> (\<And>x. x \<in> set xs \<Longrightarrow> c \<notin> set x) \<Longrightarrow> Split c (join [c] xs) = xs"
proof (induction xs)
  case (Cons x xs)
  show ?case
  proof (cases xs)
    case Nil
    with Cons show ?thesis by (simp add: join_def Split_no_sep)
  next
    case (Cons y ys)
    with Cons.IH Cons.prems show ?thesis by (simp add: join_Cons_Cons Split_sep)
  qed
qed simp

lemma join_inject:
  assumes "join [c] xs = join [c] ys" "xs \<noteq> []" "ys \<noteq> []"
    "\<And>x. x \<in> set xs \<union> set ys \<Longrightarrow> c \<notin> set x"
  shows "xs = ys"
  using assms Split_join [of xs c] Split_join [of ys c] by (metis UnCI)


definition Tuple_fields :: "Tuple \<Rightarrow> string list" where
  "Tuple_fields t =
     [IPFamily_String (Family t), Addr_String (SrcIP t), Addr_String (DstIP t),
      show_dec (uint (SrcPort t)), show_dec (uint (DstPort t)), show_dec (uint (Protocol t)),
      show_dec (uint (ICMPType t)), show_dec (uint (ICMPCode t)), show_dec (uint (ICMPID t)),
      show_dec (BitLen (SrcIP t))]"

lemma Tuple_fields_no_bar:
  assumes "Addr_Zone (SrcIP t) = []" "Addr_Zone (DstIP t) = []" "x \<in> set (Tuple_fields t)"
  shows "CHR ''|'' \<notin> set x"
proof -
  have d: "CHR ''|'' \<notin> set (show_dec n)" if "0 \<le> n" for n
    using show_dec_chars [OF that] by (force simp: isDigit_def)
  have s: "CHR ''|'' \<notin> set (Addr_String a)" if "Addr_Zone a = []" for a
    using Addr_String_chars [of "CHR ''|''" a] that
    by (cases "a = AddrZero") (auto simp: isHex_def isDigit_def Addr_String_def)
  have b: "0 \<le> BitLen (SrcIP t)" by (simp add: BitLen_def split: Addr.splits)
  show ?thesis
    using assms
    by (auto simp: Tuple_fields_def IPFamily_String_def d s b split: if_splits)
qed

lemma Tuple_String_inject:
  assumes "Addr_Zone (SrcIP t) = []" "Addr_Zone (DstIP t) = []"
    "Addr_Zone (SrcIP u) = []" "Addr_Zone (DstIP u) = []"
    "Tuple_String t = Tuple_String u"
  shows "Tuple_fields t = Tuple_fields u"
proof (rule join_inject)
  show "join [CHR ''|''] (Tuple_fields t) = join [CHR ''|''] (Tuple_fields u)"
    using assms(5) by (simp add: Tuple_String_def Tuple_fields_def)
  show "CHR ''|'' \<notin> set x" if "x \<in> set (Tuple_fields t) \<union> set (Tuple_fields u)" for x
    using that assms Tuple_fields_no_bar by blast
qed (simp_all add: Tuple_fields_def)

lemma Tuple_String_Reverse_eq:
  assumes "Addr_Zone (SrcIP t) = []" "Addr_Zone (DstIP t) = []"
    "Tuple_String (Tuple_Reverse t) = Tuple_String t"
  shows "Tuple_Reverse t = t"
proof -
  have n: "Tuple_fields (Tuple_Reverse t) ! i = Tuple_fields t ! i" for i
    using assms by (simp add: Tuple_String_inject [of "Tuple_Reverse t" t])
  have e: "Addr_String (DstIP t) = Addr_String (SrcIP t)"
      "show_dec (uint (DstPort t)) = show_dec (uint (SrcPort t))"
      "show_dec (uint (ICMPType (Tuple_Reverse t))) = show_dec (uint (ICMPType t))"
    using n [of 1] n [of 3] n [of 6] by (simp_all add: Tuple_fields_def)
  have f: "DstIP t = SrcIP t" "DstPort t = SrcPort t" "ICMPType (Tuple_Reverse t) = ICMPType t"
    using e by (simp_all add: Addr_String_inj word_uint_eq_iff show_dec_inject)
  show ?thesis
    using f by (intro Tuple.equality) simp_all
qed

text \<open>
  The bidirectional pair of a flow between addresses without a zone is the same whichever of
  its two directions was seen first.
\<close>

lemma pair_independent_of_direction:
  assumes "Addr_Zone (SrcIP (Key_Tuple k)) = ''''" "Addr_Zone (DstIP (Key_Tuple k)) = ''''"
  shows "PairFromTuple (Key_Reverse k) = PairFromTuple k"
proof (cases "Key_String (Key_Reverse k) = Key_String k")
  case True
  then have "Tuple_String (Tuple_Reverse (Key_Tuple k)) = Tuple_String (Key_Tuple k)"
    by (simp add: Key_String_def Key_Reverse_def)
  then have "Key_Reverse k = k"
    using Tuple_String_Reverse_eq [OF assms] by (simp add: Key_Reverse_def)
  then show ?thesis by simp
next
  case False
  then show ?thesis
    by (auto simp: PairFromTuple_def Pair_keys_def)
qed

lemma pair_independent_of_direction_witness:
  "PairFromTuple (Key_Reverse
     \<lparr>Key_Scope = \<lparr>NetworkNamespace = ''init'', ConntrackZone = 0\<rparr>,
      Key_Tuple = TupleZero\<lparr>Family := 4, SrcIP := Addr4 167772161, DstIP := Addr4 167772162,
        SrcPort := 40000, DstPort := 443, Protocol := 6\<rparr>\<rparr>) =
   PairFromTuple
     \<lparr>Key_Scope = \<lparr>NetworkNamespace = ''init'', ConntrackZone = 0\<rparr>,
      Key_Tuple = TupleZero\<lparr>Family := 4, SrcIP := Addr4 167772161, DstIP := Addr4 167772162,
        SrcPort := 40000, DstPort := 443, Protocol := 6\<rparr>\<rparr>"
  by (rule pair_independent_of_direction) (simp_all add: Addr_Zone_def TupleZero_def)

lemma Sscanf_show_dec: "0 \<le> n \<Longrightarrow> n \<le> maxInt64 \<Longrightarrow> Sscanf_d (show_dec n) = Some n"
proof -
  assume n: "0 \<le> n" "n \<le> maxInt64"
  obtain c cs where c: "show_dec n = c # cs" by (cases "show_dec n") auto
  then have "isDigit c" using show_dec_chars [OF n(1), of c] by simp
  then have "Sscanf_d (show_dec n) = ParseInt64 (show_dec n)"
    using digits_show_dec [OF n(1)] isDigit_not_sign [of c]
    by (simp add: Sscanf_d_def c list_all_iff takeWhile_eq_all_conv [THEN iffD2])
  then show ?thesis using n by (simp add: ParseInt64_digits digits_show_dec)
qed

lemma ToLower_digits: "list_all isDigit s \<Longrightarrow> ToLower s = s"
  by (induction s) (auto simp: ToLower_def lower_char_def isDigit_def Let_def)

lemma ParseProtocol_show_dec:
  assumes "p \<noteq> (0::u8)"
  shows "ParseProtocol (show_dec (uint p)) = (p, True)"
proof -
  let ?s = "show_dec (uint p)"
  have d: "list_all isDigit ?s" by (simp add: digits_show_dec)
  have r: "0 < uint p" "uint p \<le> 255"
    using assms uint_lt2p [of p] uint_nonnegative [of p] uint_0_iff [of p]
    by (simp_all add: less_le)
  have n: "TrimSpace ?s = ?s" "ToLower ?s = ?s"
    using d by (simp_all add: TrimSpace_digits ToLower_digits)
  have not: "?s \<noteq> ''tcp''" "?s \<noteq> ''udp''" "?s \<noteq> ''icmp''" "?s \<noteq> ''icmpv6''"
    using d by (auto simp: isDigit_def)
  have eq: "?s = ''6'' \<Longrightarrow> p = 6" "?s = ''17'' \<Longrightarrow> p = 17" "?s = ''1'' \<Longrightarrow> p = 1" "?s = ''58'' \<Longrightarrow> p = 58"
    using digits_val_show_dec [of "uint p"]
    by (auto simp: digits_val_def digit_val_def intro: word_uint_eqI)
  show ?thesis
    using r Sscanf_show_dec [of "uint p"] eq
    by (auto simp: ParseProtocol_def Let_def n not)
qed

text \<open>
  The legacy flow key of a valid IPv4 or IPv6 flow without ICMP fields, between addresses
  without a zone, parses back to the flow.
\<close>

lemma flow_key_roundtrip:
  assumes "Tuple_Valid t" "Family t \<in> {FamilyIPv4, FamilyIPv6}"
    "Addr_Zone (SrcIP t) = ''''" "Addr_Zone (DstIP t) = ''''"
    "ICMPType t = 0" "ICMPCode t = 0" "ICMPID t = 0"
  shows "TupleFromFlowKey (Tuple_FlowKey t namespace) = Inr t"
proof -
  have nz: "SrcIP t \<noteq> AddrZero" "DstIP t \<noteq> AddrZero"
    using assms(1) by (auto simp: Tuple_Valid_def split: if_splits)
  have a: "ParseAddr (TrimSpace (Addr_String (SrcIP t))) = Some (SrcIP t)"
      "ParseAddr (TrimSpace (Addr_String (DstIP t))) = Some (DstIP t)"
    using assms(3,4) nz by (simp_all add: TrimSpace_Addr_String ParseAddr_String)
  have f: "Is4 (SrcIP t) = Is4 (DstIP t)" "(if Is4 (SrcIP t) then FamilyIPv4 else FamilyIPv6) = Family t"
    using assms(1,2) by (auto simp: Tuple_Valid_def split: if_splits)
  have p: "ParseProtocol (fk_Protocol (Tuple_FlowKey t namespace)) = (Protocol t, True)"
    using assms(1) ParseProtocol_show_dec [of "Protocol t"]
    by (auto simp: Tuple_FlowKey_def ParseProtocol_def Tuple_Valid_def TrimSpace_def isSpace_def
        ToLower_def lower_char_def split: if_splits)
  have r: "uint (SrcPort t) \<le> 65535" "uint (DstPort t) \<le> 65535"
    using uint_lt2p [of "SrcPort t"] uint_lt2p [of "DstPort t"] by simp_all
  show ?thesis
    using p r assms(5-) f
    by (simp add: TupleFromFlowKey_def Tuple_FlowKey_def a)
qed

lemma flow_key_roundtrip_witness:
  "TupleFromFlowKey (Tuple_FlowKey (TupleZero\<lparr>Family := 4, SrcIP := Addr4 167772161,
       DstIP := Addr4 167772162, SrcPort := 40000, DstPort := 443, Protocol := 6\<rparr>) ''init'') =
   Inr (TupleZero\<lparr>Family := 4, SrcIP := Addr4 167772161,
       DstIP := Addr4 167772162, SrcPort := 40000, DstPort := 443, Protocol := 6\<rparr>)"
  by (rule flow_key_roundtrip) (simp_all add: TupleZero_def Tuple_Valid_def Is4_def BitLen_def Addr_Zone_def)

text \<open>
  \<open>ParseProtocol\<close> also accepts a protocol number that is followed by other text, because
  \<open>Sscanf\<close> leaves what it does not need unread: the name is not rejected.
\<close>

lemma parse_protocol_ignores_trailing_text:
  "ParseProtocol ''6foo'' = (6, True) \<and> ParseProtocol ''132 sctp'' = (132, True)
   \<and> ParseProtocol ''foo'' = (0, False)"
  by (intro conjI; code_simp)

end
