(* ===== verification/Domain.thy ===== *)
theory Domain
imports Ngfw_Prelude
begin

text \<open>
  The configuration data of the gateway (\<open>internal/domain/types.go\<close>, \<open>inspection_config.go\<close>,
  \<open>request_gate_config.go\<close>): interfaces, routes, policies, profiles and limits with their defaults.
  A string-valued Go type stays a string, because the values are read from JSON and compared as
  they are; a pointer that may be nil is an option; \<open>int\<close> fields are integers.
\<close>

section \<open>String-valued types\<close>

type_synonym Decision = string

abbreviation DecisionAllow :: Decision where "DecisionAllow \<equiv> ''ALLOW''"
abbreviation DecisionDrop :: Decision where "DecisionDrop \<equiv> ''DROP''"
abbreviation DecisionReject :: Decision where "DecisionReject \<equiv> ''REJECT''"
abbreviation DecisionRateLimit :: Decision where "DecisionRateLimit \<equiv> ''RATE_LIMIT''"
abbreviation DecisionReset :: Decision where "DecisionReset \<equiv> ''RESET_SESSION''"
abbreviation DecisionTempBlock :: Decision where "DecisionTempBlock \<equiv> ''TEMP_BLOCK''"

definition Decision_Valid :: "Decision \<Rightarrow> bool" where
  "Decision_Valid d \<longleftrightarrow>
     d \<in> set [DecisionAllow, DecisionDrop, DecisionReject, DecisionRateLimit, DecisionReset,
              DecisionTempBlock]"

type_synonym Severity = string

abbreviation SeverityUnknown :: Severity where "SeverityUnknown \<equiv> ''UNKNOWN''"
abbreviation SeverityInfo :: Severity where "SeverityInfo \<equiv> ''INFO''"
abbreviation SeverityLow :: Severity where "SeverityLow \<equiv> ''LOW''"
abbreviation SeverityMedium :: Severity where "SeverityMedium \<equiv> ''MEDIUM''"
abbreviation SeverityHigh :: Severity where "SeverityHigh \<equiv> ''HIGH''"
abbreviation SeverityCritical :: Severity where "SeverityCritical \<equiv> ''CRITICAL''"

definition Weight :: "Severity \<Rightarrow> int" where
  "Weight s =
     (if s = SeverityInfo then 0 else if s = SeverityLow then 10 else if s = SeverityMedium then 20
      else if s = SeverityHigh then 30 else if s = SeverityCritical then 40 else 0)"

type_synonym TLSMode = string

abbreviation TLSBypass :: TLSMode where "TLSBypass \<equiv> ''BYPASS''"
abbreviation TLSMetadata :: TLSMode where "TLSMetadata \<equiv> ''METADATA_ONLY''"
abbreviation TLSDecrypt :: TLSMode where "TLSDecrypt \<equiv> ''DECRYPT''"

definition TLSMode_Valid :: "TLSMode \<Rightarrow> bool" where
  "TLSMode_Valid m \<longleftrightarrow> m = TLSBypass \<or> m = TLSMetadata \<or> m = TLSDecrypt"

type_synonym InterfaceMode = string

abbreviation InterfaceL3 :: InterfaceMode where "InterfaceL3 \<equiv> ''L3''"
abbreviation InterfaceVLANParent :: InterfaceMode where "InterfaceVLANParent \<equiv> ''VLAN_PARENT''"
abbreviation InterfaceVLANSub :: InterfaceMode where "InterfaceVLANSub \<equiv> ''VLAN_SUBINTERFACE''"
abbreviation InterfaceManagement :: InterfaceMode where "InterfaceManagement \<equiv> ''MANAGEMENT''"

definition InterfaceMode_Valid :: "InterfaceMode \<Rightarrow> bool" where
  "InterfaceMode_Valid m \<longleftrightarrow>
     m \<in> set [InterfaceL3, InterfaceVLANParent, InterfaceVLANSub, InterfaceManagement]"

type_synonym InspectionMode = string

abbreviation InspectionModeOff :: InspectionMode where "InspectionModeOff \<equiv> ''OFF''"
abbreviation InspectionModeIDS :: InspectionMode where "InspectionModeIDS \<equiv> ''IDS''"
abbreviation InspectionModeIPS :: InspectionMode where "InspectionModeIPS \<equiv> ''IPS''"

type_synonym GateFailMode = string

abbreviation GateFailOpen :: GateFailMode where "GateFailOpen \<equiv> ''OPEN''"
abbreviation GateFailClose :: GateFailMode where "GateFailClose \<equiv> ''CLOSE''"

section \<open>Configuration records\<close>

record Interface =
  if_ID :: string
  if_Name :: string
  if_SystemName :: string
  if_MACAddress :: string
  if_ZoneID :: string
  if_Mode :: InterfaceMode
  if_ParentInterfaceID :: string
  if_VLANID :: int
  if_IPv4Addresses :: "string list"
  if_IPv6Addresses :: "string list"
  if_MTU :: int
  if_AdminState :: bool
  if_LinkState :: string
  if_RxPackets :: u64
  if_TxPackets :: u64
  if_RxBytes :: u64
  if_TxBytes :: u64

record Zone =
  zone_ID :: string
  zone_Name :: string
  zone_Description :: string

record Route =
  rt_ID :: string
  rt_DestinationCIDR :: string
  rt_Gateway :: string
  rt_InterfaceID :: string
  rt_Metric :: int
  rt_Enabled :: bool
  rt_Description :: string

record NATRule =
  nat_ID :: string
  nat_Name :: string
  nat_Type :: string
  nat_SourceZone :: string
  nat_DestinationZone :: string
  nat_SourceNetwork :: string
  nat_DestinationNetwork :: string
  nat_Protocol :: string
  nat_OriginalPort :: int
  nat_TranslatedAddress :: string
  nat_TranslatedPort :: int
  nat_Enabled :: bool
  nat_Priority :: int

record SecurityPolicy =
  pol_ID :: string
  pol_Name :: string
  pol_Priority :: int
  pol_SourceZones :: "string list"
  pol_DestinationZones :: "string list"
  pol_SourceAddresses :: "string list"
  pol_DestinationAddresses :: "string list"
  pol_Services :: "string list"
  pol_Applications :: "string list"
  pol_ApplicationMatchMode :: string
  pol_SecurityProfileID :: string
  pol_MinimumRisk :: "int option"
  pol_MaximumRisk :: "int option"
  pol_Action :: Decision
  pol_Scope :: string
  pol_LogStart :: bool
  pol_LogEnd :: bool
  pol_Enabled :: bool

record InspectionProfile =
  ip_Mode :: InspectionMode
  ip_FailMode :: string
  ip_RulesetID :: string

record RequestGateProfile =
  rgp_Enabled :: bool
  rgp_FailMode :: GateFailMode
  rgp_OversizeAction :: string
  rgp_UnsupportedEncodingAction :: string
  rgp_BlockQUIC :: bool

record SecurityProfile =
  prof_ID :: string
  prof_Name :: string
  prof_IDSIPSEnabled :: bool
  prof_DPIEnabled :: bool
  prof_DNSSecurityEnabled :: bool
  prof_URLFilteringEnabled :: bool
  prof_ThreatIntelEnabled :: bool
  prof_BehaviorEnabled :: bool
  prof_MLDetectionEnabled :: bool
  prof_TLSMode :: TLSMode
  prof_MinimumBlockRisk :: int
  prof_LoggingLevel :: string
  prof_InspectionRequired :: bool
  prof_InspectionFailureAction :: Decision
  prof_Inspection :: "InspectionProfile option"
  prof_RequestGate :: "RequestGateProfile option"

record TLSExclusion =
  tx_ID :: string
  tx_Name :: string
  tx_Domains :: "string list"
  tx_DestinationCIDRs :: "string list"
  tx_Ports :: "int list"
  tx_Enabled :: bool
  tx_Reason :: string

record InspectionLimits =
  lim_EVELineBytes :: int
  lim_NormalizedEventBytes :: int
  lim_ObservationQueueItems :: int
  lim_ObservationQueueBytes :: int
  lim_SecurityEvents :: int
  lim_SecurityEventBytes :: int
  lim_CorrelationPending :: int
  lim_CorrelationWaitMillis :: int
  lim_RecentSessions :: int
  lim_RecentSessionTTLSeconds :: int
  lim_AppDetectionTimeoutMillis :: int

record InspectionConfig =
  ic_Enabled :: bool
  ic_IncludeManagement :: bool
  ic_Limits :: InspectionLimits

record RequestGateConfig =
  rg_Enabled :: bool
  rg_ListenHTTPPort :: int
  rg_ListenHTTPSPort :: int
  rg_RulesetID :: string
  rg_WorkerCount :: int
  rg_QueueItems :: int
  rg_QueueBytes :: int
  rg_MaxConcurrentRequests :: int
  rg_MaxPerClientRequests :: int
  rg_MaxHTTP2Streams :: int
  rg_MaxHeaderBytes :: int
  rg_MaxHeaderCount :: int
  rg_MaxURLBytes :: int
  rg_MaxRawBodyBytes :: int
  rg_MaxDecompressedBodyBytes :: int
  rg_MaxDecompressionRatio :: int
  rg_RequestTimeoutMillis :: int
  rg_ClientHelloBytes :: int
  rg_ClientHelloTimeoutMillis :: int
  rg_LeafCacheEntries :: int
  rg_LeafCacheTTLSeconds :: int

record Config =
  cfg_Interfaces :: "Interface list"
  cfg_Zones :: "Zone list"
  cfg_Routes :: "Route list"
  cfg_NATRules :: "NATRule list"
  cfg_Policies :: "SecurityPolicy list"
  cfg_Profiles :: "SecurityProfile list"
  cfg_MaxSessions :: int
  cfg_MaxEventsQueue :: int
  cfg_MaxHTTPBodyInspection :: int
  cfg_MaxHTTPHeaderSize :: int
  cfg_MaxURLLength :: int
  cfg_MaxMLInputLength :: int
  cfg_MLTimeoutMillis :: int
  cfg_RequestInspectionTimeoutMillis :: int
  cfg_DefaultDeny :: bool
  cfg_Inspection :: "InspectionConfig option"
  cfg_RequestGate :: "RequestGateConfig option"
  cfg_TLSExclusions :: "TLSExclusion list"

section \<open>Defaults and activation\<close>

definition DefaultInspectionLimits :: InspectionLimits where
  "DefaultInspectionLimits =
     \<lparr>lim_EVELineBytes = 1048576, lim_NormalizedEventBytes = 8192, lim_ObservationQueueItems = 4096,
      lim_ObservationQueueBytes = 8388608, lim_SecurityEvents = 5000, lim_SecurityEventBytes = 16777216,
      lim_CorrelationPending = 2048, lim_CorrelationWaitMillis = 2000, lim_RecentSessions = 5000,
      lim_RecentSessionTTLSeconds = 60, lim_AppDetectionTimeoutMillis = 5000\<rparr>"

text \<open>\<open>dflt\<close> is the statement \<open>if l.F == 0 { l.F = d.F }\<close> of the two \<open>WithDefaults\<close>.\<close>

definition dflt :: "int \<Rightarrow> int \<Rightarrow> int" where
  "dflt x d = (if x = 0 then d else x)"

definition InspectionLimits_WithDefaults :: "InspectionLimits \<Rightarrow> InspectionLimits" where
  "InspectionLimits_WithDefaults l =
     (let d = DefaultInspectionLimits in
      \<lparr>lim_EVELineBytes = dflt (lim_EVELineBytes l) (lim_EVELineBytes d),
       lim_NormalizedEventBytes = dflt (lim_NormalizedEventBytes l) (lim_NormalizedEventBytes d),
       lim_ObservationQueueItems = dflt (lim_ObservationQueueItems l) (lim_ObservationQueueItems d),
       lim_ObservationQueueBytes = dflt (lim_ObservationQueueBytes l) (lim_ObservationQueueBytes d),
       lim_SecurityEvents = dflt (lim_SecurityEvents l) (lim_SecurityEvents d),
       lim_SecurityEventBytes = dflt (lim_SecurityEventBytes l) (lim_SecurityEventBytes d),
       lim_CorrelationPending = dflt (lim_CorrelationPending l) (lim_CorrelationPending d),
       lim_CorrelationWaitMillis = dflt (lim_CorrelationWaitMillis l) (lim_CorrelationWaitMillis d),
       lim_RecentSessions = dflt (lim_RecentSessions l) (lim_RecentSessions d),
       lim_RecentSessionTTLSeconds = dflt (lim_RecentSessionTTLSeconds l) (lim_RecentSessionTTLSeconds d),
       lim_AppDetectionTimeoutMillis = dflt (lim_AppDetectionTimeoutMillis l) (lim_AppDetectionTimeoutMillis d)\<rparr>)"

definition EffectiveInspectionConfig :: "Config \<Rightarrow> InspectionConfig" where
  "EffectiveInspectionConfig c =
     (case cfg_Inspection c of
        None \<Rightarrow> \<lparr>ic_Enabled = False, ic_IncludeManagement = False, ic_Limits = DefaultInspectionLimits\<rparr>
      | Some i \<Rightarrow> i\<lparr>ic_Limits := InspectionLimits_WithDefaults (ic_Limits i)\<rparr>)"

definition UsesM3 :: "Config \<Rightarrow> bool" where
  "UsesM3 c = (case cfg_Inspection c of None \<Rightarrow> False | Some i \<Rightarrow> ic_Enabled i)"

definition DefaultRequestGateConfig :: RequestGateConfig where
  "DefaultRequestGateConfig =
     \<lparr>rg_Enabled = False, rg_ListenHTTPPort = 18080, rg_ListenHTTPSPort = 18443,
      rg_RulesetID = ''m4-builtin-v1'', rg_WorkerCount = 2, rg_QueueItems = 256, rg_QueueBytes = 4194304,
      rg_MaxConcurrentRequests = 128, rg_MaxPerClientRequests = 32, rg_MaxHTTP2Streams = 64,
      rg_MaxHeaderBytes = 32768, rg_MaxHeaderCount = 64, rg_MaxURLBytes = 8192,
      rg_MaxRawBodyBytes = 65536, rg_MaxDecompressedBodyBytes = 262144, rg_MaxDecompressionRatio = 20,
      rg_RequestTimeoutMillis = 2000, rg_ClientHelloBytes = 65536, rg_ClientHelloTimeoutMillis = 2000,
      rg_LeafCacheEntries = 1024, rg_LeafCacheTTLSeconds = 86400\<rparr>"

definition RequestGateConfig_WithDefaults :: "RequestGateConfig \<Rightarrow> RequestGateConfig" where
  "RequestGateConfig_WithDefaults g =
     (let d = DefaultRequestGateConfig in
      \<lparr>rg_Enabled = rg_Enabled g,
       rg_ListenHTTPPort = dflt (rg_ListenHTTPPort g) (rg_ListenHTTPPort d),
       rg_ListenHTTPSPort = dflt (rg_ListenHTTPSPort g) (rg_ListenHTTPSPort d),
       rg_RulesetID = (if rg_RulesetID g = '''' then rg_RulesetID d else rg_RulesetID g),
       rg_WorkerCount = dflt (rg_WorkerCount g) (rg_WorkerCount d),
       rg_QueueItems = dflt (rg_QueueItems g) (rg_QueueItems d),
       rg_QueueBytes = dflt (rg_QueueBytes g) (rg_QueueBytes d),
       rg_MaxConcurrentRequests = dflt (rg_MaxConcurrentRequests g) (rg_MaxConcurrentRequests d),
       rg_MaxPerClientRequests = dflt (rg_MaxPerClientRequests g) (rg_MaxPerClientRequests d),
       rg_MaxHTTP2Streams = dflt (rg_MaxHTTP2Streams g) (rg_MaxHTTP2Streams d),
       rg_MaxHeaderBytes = dflt (rg_MaxHeaderBytes g) (rg_MaxHeaderBytes d),
       rg_MaxHeaderCount = dflt (rg_MaxHeaderCount g) (rg_MaxHeaderCount d),
       rg_MaxURLBytes = dflt (rg_MaxURLBytes g) (rg_MaxURLBytes d),
       rg_MaxRawBodyBytes = dflt (rg_MaxRawBodyBytes g) (rg_MaxRawBodyBytes d),
       rg_MaxDecompressedBodyBytes = dflt (rg_MaxDecompressedBodyBytes g) (rg_MaxDecompressedBodyBytes d),
       rg_MaxDecompressionRatio = dflt (rg_MaxDecompressionRatio g) (rg_MaxDecompressionRatio d),
       rg_RequestTimeoutMillis = dflt (rg_RequestTimeoutMillis g) (rg_RequestTimeoutMillis d),
       rg_ClientHelloBytes = dflt (rg_ClientHelloBytes g) (rg_ClientHelloBytes d),
       rg_ClientHelloTimeoutMillis = dflt (rg_ClientHelloTimeoutMillis g) (rg_ClientHelloTimeoutMillis d),
       rg_LeafCacheEntries = dflt (rg_LeafCacheEntries g) (rg_LeafCacheEntries d),
       rg_LeafCacheTTLSeconds = dflt (rg_LeafCacheTTLSeconds g) (rg_LeafCacheTTLSeconds d)\<rparr>)"

definition EffectiveRequestGateConfig :: "Config \<Rightarrow> RequestGateConfig" where
  "EffectiveRequestGateConfig c =
     (case cfg_RequestGate c of
        None \<Rightarrow> DefaultRequestGateConfig
      | Some g \<Rightarrow> RequestGateConfig_WithDefaults g)"

definition UsesM4 :: "Config \<Rightarrow> bool" where
  "UsesM4 c = (case cfg_RequestGate c of None \<Rightarrow> False | Some g \<Rightarrow> rg_Enabled g)"

definition SortPolicies :: "SecurityPolicy list \<Rightarrow> SecurityPolicy list" where
  "SortPolicies policies = sort_key pol_Priority policies"

definition is_alnum :: "char \<Rightarrow> bool" where
  "is_alnum c =
     (let n = byte_of c in (48 \<le> n \<and> n \<le> 57) \<or> (65 \<le> n \<and> n \<le> 90) \<or> (97 \<le> n \<and> n \<le> 122))"

definition ValidateIdentifier :: "string \<Rightarrow> bool" where
  "ValidateIdentifier name =
     (case name of
        [] \<Rightarrow> False
      | c # cs \<Rightarrow>
          is_alnum c \<and> length cs \<le> 63
          \<and> list_all (\<lambda>d. is_alnum d \<or> d = CHR ''_'' \<or> d = CHR ''.'' \<or> d = CHR ''-'') cs)"

definition ValidatePort :: "int \<Rightarrow> bool \<Rightarrow> bool" where
  "ValidatePort port optional =
     (if optional \<and> port = 0 then True else \<not> (port < 1 \<or> port > 65535))"

end
