(* ===== verification/Session_Types.thy ===== *)
theory Session_Types
imports Flow Domain
begin

text \<open>
  The data of a tracked session (\<open>internal/domain/session_m2.go\<close>, \<open>inspection.go\<close>,
  \<open>inspection_intent.go\<close>, the evidence types of \<open>request_gate.go\<close>) and of a conntrack record
  (\<open>internal/conntrack/source.go\<close>). Values are immutable here, so the \<open>Clone\<close> methods are the
  identity; pointers that may be nil are options; instants are integers with 0 for the zero time.
\<close>

section \<open>String-valued states\<close>

type_synonym SessionState = string

abbreviation SessionNew :: SessionState where "SessionNew \<equiv> ''NEW''"
abbreviation SessionEstablished :: SessionState where "SessionEstablished \<equiv> ''ESTABLISHED''"
abbreviation SessionClosing :: SessionState where "SessionClosing \<equiv> ''CLOSING''"
abbreviation SessionClosed :: SessionState where "SessionClosed \<equiv> ''CLOSED''"

type_synonym CacheState = string

abbreviation CacheNotEvaluated :: CacheState where "CacheNotEvaluated \<equiv> ''NOT_EVALUATED''"
abbreviation CacheCached :: CacheState where "CacheCached \<equiv> ''CACHED''"
abbreviation CacheInvalidated :: CacheState where "CacheInvalidated \<equiv> ''INVALIDATED''"

type_synonym TrackingStatus = string

abbreviation TrackingComplete :: TrackingStatus where "TrackingComplete \<equiv> ''COMPLETE''"
abbreviation TrackingPartial :: TrackingStatus where "TrackingPartial \<equiv> ''PARTIAL''"
abbreviation TrackingStale :: TrackingStatus where "TrackingStale \<equiv> ''STALE''"
abbreviation TrackingAmbiguous :: TrackingStatus where "TrackingAmbiguous \<equiv> ''AMBIGUOUS''"

type_synonym IdentityConfidence = string

abbreviation IdentityComplete :: IdentityConfidence where "IdentityComplete \<equiv> ''COMPLETE''"
abbreviation IdentityPartial :: IdentityConfidence where "IdentityPartial \<equiv> ''PARTIAL''"
abbreviation IdentityAmbiguous :: IdentityConfidence where "IdentityAmbiguous \<equiv> ''AMBIGUOUS''"

type_synonym ApplicationSource = string

abbreviation ApplicationSourceUnknown :: ApplicationSource where
  "ApplicationSourceUnknown \<equiv> ''UNKNOWN''"
abbreviation ApplicationSourceSuricataAppProto :: ApplicationSource where
  "ApplicationSourceSuricataAppProto \<equiv> ''SURICATA_APP_PROTO''"
abbreviation ApplicationSourceDPIParser :: ApplicationSource where
  "ApplicationSourceDPIParser \<equiv> ''DPI_PARSER''"
abbreviation ApplicationSourceTLSMetadata :: ApplicationSource where
  "ApplicationSourceTLSMetadata \<equiv> ''TLS_METADATA''"
abbreviation ApplicationSourcePortHeuristic :: ApplicationSource where
  "ApplicationSourcePortHeuristic \<equiv> ''PORT_HEURISTIC''"

definition ApplicationSource_Valid :: "ApplicationSource \<Rightarrow> bool" where
  "ApplicationSource_Valid s \<longleftrightarrow>
     s \<in> set [ApplicationSourceUnknown, ApplicationSourceSuricataAppProto, ApplicationSourceDPIParser,
              ApplicationSourceTLSMetadata, ApplicationSourcePortHeuristic]"

type_synonym ApplicationConfidence = string

abbreviation ApplicationConfidenceUnknown :: ApplicationConfidence where
  "ApplicationConfidenceUnknown \<equiv> ''UNKNOWN''"
abbreviation ApplicationConfidenceLow :: ApplicationConfidence where
  "ApplicationConfidenceLow \<equiv> ''LOW''"
abbreviation ApplicationConfidenceMedium :: ApplicationConfidence where
  "ApplicationConfidenceMedium \<equiv> ''MEDIUM''"
abbreviation ApplicationConfidenceHigh :: ApplicationConfidence where
  "ApplicationConfidenceHigh \<equiv> ''HIGH''"
abbreviation ApplicationConfidenceVerified :: ApplicationConfidence where
  "ApplicationConfidenceVerified \<equiv> ''VERIFIED''"

definition ApplicationConfidence_Valid :: "ApplicationConfidence \<Rightarrow> bool" where
  "ApplicationConfidence_Valid c \<longleftrightarrow>
     c \<in> set [ApplicationConfidenceUnknown, ApplicationConfidenceLow, ApplicationConfidenceMedium,
              ApplicationConfidenceHigh, ApplicationConfidenceVerified]"

definition InspectionMode_Valid :: "InspectionMode \<Rightarrow> bool" where
  "InspectionMode_Valid m \<longleftrightarrow> m = InspectionModeOff \<or> m = InspectionModeIDS \<or> m = InspectionModeIPS"

type_synonym InspectionState = string

abbreviation InspectionStateNotRequested :: InspectionState where
  "InspectionStateNotRequested \<equiv> ''NOT_REQUESTED''"
abbreviation InspectionStateQueued :: InspectionState where "InspectionStateQueued \<equiv> ''QUEUED''"
abbreviation InspectionStateInspecting :: InspectionState where
  "InspectionStateInspecting \<equiv> ''INSPECTING''"
abbreviation InspectionStateDegraded :: InspectionState where "InspectionStateDegraded \<equiv> ''DEGRADED''"
abbreviation InspectionStateError :: InspectionState where "InspectionStateError \<equiv> ''ERROR''"
abbreviation InspectionStateComplete :: InspectionState where "InspectionStateComplete \<equiv> ''COMPLETE''"

definition InspectionState_Valid :: "InspectionState \<Rightarrow> bool" where
  "InspectionState_Valid s \<longleftrightarrow>
     s \<in> set [InspectionStateNotRequested, InspectionStateQueued, InspectionStateInspecting,
              InspectionStateDegraded, InspectionStateError, InspectionStateComplete]"

type_synonym CoverageState = string

abbreviation CoverageNone :: CoverageState where "CoverageNone \<equiv> ''NONE''"
abbreviation CoverageObserved :: CoverageState where "CoverageObserved \<equiv> ''OBSERVED''"
abbreviation CoveragePartial :: CoverageState where "CoveragePartial \<equiv> ''PARTIAL''"
abbreviation CoverageUnavailable :: CoverageState where "CoverageUnavailable \<equiv> ''UNAVAILABLE''"

definition CoverageState_Valid :: "CoverageState \<Rightarrow> bool" where
  "CoverageState_Valid s \<longleftrightarrow>
     s = CoverageNone \<or> s = CoverageObserved \<or> s = CoveragePartial \<or> s = CoverageUnavailable"

type_synonym AppPolicyState = string

abbreviation AppPolicyNotApplicable :: AppPolicyState where "AppPolicyNotApplicable \<equiv> ''NOT_APPLICABLE''"
abbreviation AppPolicyPending :: AppPolicyState where "AppPolicyPending \<equiv> ''PENDING''"
abbreviation AppPolicyMatched :: AppPolicyState where "AppPolicyMatched \<equiv> ''MATCHED''"
abbreviation AppPolicyMismatch :: AppPolicyState where "AppPolicyMismatch \<equiv> ''MISMATCH''"
abbreviation AppPolicyUnknownAllowed :: AppPolicyState where
  "AppPolicyUnknownAllowed \<equiv> ''UNKNOWN_ALLOWED''"

definition AppPolicyState_Valid :: "AppPolicyState \<Rightarrow> bool" where
  "AppPolicyState_Valid s \<longleftrightarrow>
     s \<in> set [AppPolicyNotApplicable, AppPolicyPending, AppPolicyMatched, AppPolicyMismatch,
              AppPolicyUnknownAllowed]"

type_synonym CorrelationState = string

abbreviation CorrelationCorrelated :: CorrelationState where "CorrelationCorrelated \<equiv> ''CORRELATED''"
abbreviation CorrelationUncorrelated :: CorrelationState where
  "CorrelationUncorrelated \<equiv> ''UNCORRELATED''"
abbreviation CorrelationAmbiguous :: CorrelationState where "CorrelationAmbiguous \<equiv> ''AMBIGUOUS''"

definition CorrelationState_Valid :: "CorrelationState \<Rightarrow> bool" where
  "CorrelationState_Valid s \<longleftrightarrow>
     s = CorrelationCorrelated \<or> s = CorrelationUncorrelated \<or> s = CorrelationAmbiguous"

type_synonym EnforcementMechanism = string

abbreviation EnforcementNone :: EnforcementMechanism where "EnforcementNone \<equiv> ''NONE''"
abbreviation EnforcementSuricataNFQueue :: EnforcementMechanism where
  "EnforcementSuricataNFQueue \<equiv> ''SURICATA_NFQUEUE''"
abbreviation EnforcementNFTSessionGuard :: EnforcementMechanism where
  "EnforcementNFTSessionGuard \<equiv> ''NFT_SESSION_GUARD''"

definition EnforcementMechanism_Valid :: "EnforcementMechanism \<Rightarrow> bool" where
  "EnforcementMechanism_Valid m \<longleftrightarrow>
     m = EnforcementNone \<or> m = EnforcementSuricataNFQueue \<or> m = EnforcementNFTSessionGuard"

type_synonym EnforcementScope = string

abbreviation EnforcementScopePacket :: EnforcementScope where "EnforcementScopePacket \<equiv> ''PACKET''"
abbreviation EnforcementScopeSession :: EnforcementScope where "EnforcementScopeSession \<equiv> ''SESSION''"

definition EnforcementScope_Valid :: "EnforcementScope \<Rightarrow> bool" where
  "EnforcementScope_Valid s \<longleftrightarrow> s = EnforcementScopePacket \<or> s = EnforcementScopeSession"

type_synonym EnforcementStatus = string

abbreviation EnforcementNotRequested :: EnforcementStatus where
  "EnforcementNotRequested \<equiv> ''NOT_REQUESTED''"
abbreviation EnforcementPending :: EnforcementStatus where "EnforcementPending \<equiv> ''PENDING''"
abbreviation EnforcementReported :: EnforcementStatus where "EnforcementReported \<equiv> ''REPORTED''"
abbreviation EnforcementApplied :: EnforcementStatus where "EnforcementApplied \<equiv> ''APPLIED''"
abbreviation EnforcementFailed :: EnforcementStatus where "EnforcementFailed \<equiv> ''FAILED''"
abbreviation EnforcementUnavailable :: EnforcementStatus where
  "EnforcementUnavailable \<equiv> ''UNAVAILABLE''"

definition EnforcementStatus_Valid :: "EnforcementStatus \<Rightarrow> bool" where
  "EnforcementStatus_Valid s \<longleftrightarrow>
     s \<in> set [EnforcementNotRequested, EnforcementPending, EnforcementReported, EnforcementApplied,
              EnforcementFailed, EnforcementUnavailable]"

type_synonym LatestVerdict = string

abbreviation VerdictUnknown :: LatestVerdict where "VerdictUnknown \<equiv> ''UNKNOWN''"
abbreviation VerdictAlert :: LatestVerdict where "VerdictAlert \<equiv> ''ALERT''"
abbreviation VerdictDrop :: LatestVerdict where "VerdictDrop \<equiv> ''DROP''"
abbreviation VerdictError :: LatestVerdict where "VerdictError \<equiv> ''ERROR''"

definition LatestVerdict_Valid :: "LatestVerdict \<Rightarrow> bool" where
  "LatestVerdict_Valid v \<longleftrightarrow> v = VerdictUnknown \<or> v = VerdictAlert \<or> v = VerdictDrop \<or> v = VerdictError"

section \<open>Identity and translation\<close>

record NATInfo =
  nat_info_OriginalTuple :: "Tuple option"
  nat_info_ReplyTuple :: "Tuple option"
  nat_info_TranslatedTuple :: "Tuple option"
  PreNATSource :: string
  PreNATDestination :: string
  PostNATSource :: string
  PostNATDestination :: string
  SNAT :: bool
  DNAT :: bool
  SourceTranslationMethod :: string
  MatchedRuleID :: string
  EvidenceGeneration :: u64

definition NATInfoZero :: NATInfo where
  "NATInfoZero =
     \<lparr>nat_info_OriginalTuple = None, nat_info_ReplyTuple = None, nat_info_TranslatedTuple = None,
      PreNATSource = '''', PreNATDestination = '''', PostNATSource = '''', PostNATDestination = '''',
      SNAT = False, DNAT = False, SourceTranslationMethod = '''', MatchedRuleID = '''',
      EvidenceGeneration = 0\<rparr>"

record ConntrackIdentity =
  ci_BootID :: string
  ci_NetworkNS :: string
  ci_Zone :: u16
  ci_Family :: IPFamily
  ci_ID :: u32
  ci_KernelStart :: u64
  ci_Original :: Tuple

record SessionQuality =
  q_TrackingStatus :: TrackingStatus
  q_IdentityConfidence :: IdentityConfidence
  q_MissingFields :: "string list"
  q_Reason :: string
  q_LastResyncID :: u64

section \<open>Inspection\<close>

record ApplicationIdentity =
  app_Name :: string
  app_RawName :: string
  app_Source :: ApplicationSource
  app_Confidence :: ApplicationConfidence
  app_FirstSeen :: "gotime option"
  app_LastSeen :: "gotime option"
  app_Revision :: u64
  app_Conflicted :: bool
  app_EvidenceID :: string

definition UnknownApplication :: ApplicationIdentity where
  "UnknownApplication =
     \<lparr>app_Name = ''UNKNOWN'', app_RawName = '''', app_Source = ApplicationSourceUnknown,
      app_Confidence = ApplicationConfidenceUnknown, app_FirstSeen = None, app_LastSeen = None,
      app_Revision = 0, app_Conflicted = False, app_EvidenceID = ''''\<rparr>"

definition NormalizeZero :: "ApplicationIdentity \<Rightarrow> ApplicationIdentity" where
  "NormalizeZero a =
     (let a = (if app_Name a = '''' then a\<lparr>app_Name := ''UNKNOWN''\<rparr> else a);
          a = (if app_Source a = '''' then a\<lparr>app_Source := ApplicationSourceUnknown\<rparr> else a) in
      if app_Confidence a = '''' then a\<lparr>app_Confidence := ApplicationConfidenceUnknown\<rparr> else a)"

record EnforcementResult =
  enf_Mechanism :: EnforcementMechanism
  enf_Scope :: EnforcementScope
  enf_RequestedAction :: Decision
  enf_Status :: EnforcementStatus
  enf_Reason :: string
  enf_ObservedAt :: "gotime option"
  enf_OperationID :: string

record SessionInspection =
  si_Generation :: u64
  si_Revision :: u64
  si_ProfileID :: string
  si_Mode :: InspectionMode
  si_State :: InspectionState
  si_Reason :: string
  si_Coverage :: CoverageState
  si_Application :: ApplicationIdentity
  si_AppPolicyState :: AppPolicyState
  si_AppDeadline :: "gotime option"
  si_ThreatCount :: u64
  si_LastEventID :: string
  si_MaxSeverity :: Severity
  si_LatestVerdict :: LatestVerdict
  si_Enforcement :: EnforcementResult
  si_Sources :: "string list"
  si_FirstObservedAt :: "gotime option"
  si_LastObservedAt :: "gotime option"
  si_MissingEvidence :: "string list"

definition DefaultSessionInspection :: SessionInspection where
  "DefaultSessionInspection =
     \<lparr>si_Generation = 0, si_Revision = 0, si_ProfileID = '''', si_Mode = InspectionModeOff,
      si_State = InspectionStateNotRequested, si_Reason = '''', si_Coverage = CoverageNone,
      si_Application = UnknownApplication, si_AppPolicyState = AppPolicyNotApplicable,
      si_AppDeadline = None, si_ThreatCount = 0, si_LastEventID = '''', si_MaxSeverity = SeverityUnknown,
      si_LatestVerdict = VerdictUnknown,
      si_Enforcement = \<lparr>enf_Mechanism = EnforcementNone, enf_Scope = EnforcementScopePacket,
        enf_RequestedAction = '''', enf_Status = EnforcementNotRequested, enf_Reason = '''',
        enf_ObservedAt = None, enf_OperationID = ''''\<rparr>,
      si_Sources = [], si_FirstObservedAt = None, si_LastObservedAt = None, si_MissingEvidence = []\<rparr>"

section \<open>Request evidence\<close>

type_synonym RequestVerdict = string
type_synonym RequestCoverage = string

abbreviation RequestAllow :: RequestVerdict where "RequestAllow \<equiv> ''ALLOW''"
abbreviation RequestBlock :: RequestVerdict where "RequestBlock \<equiv> ''BLOCK''"
abbreviation RequestUnavailable :: RequestVerdict where "RequestUnavailable \<equiv> ''UNAVAILABLE''"

definition RequestVerdict_Valid :: "RequestVerdict \<Rightarrow> bool" where
  "RequestVerdict_Valid v \<longleftrightarrow> v = RequestAllow \<or> v = RequestBlock \<or> v = RequestUnavailable"

abbreviation CoverageComplete :: RequestCoverage where "CoverageComplete \<equiv> ''COMPLETE''"
abbreviation RequestCoveragePartial :: RequestCoverage where "RequestCoveragePartial \<equiv> ''PARTIAL''"
abbreviation RequestCoverageUnavailable :: RequestCoverage where
  "RequestCoverageUnavailable \<equiv> ''UNAVAILABLE''"
abbreviation CoverageNotRequested :: RequestCoverage where "CoverageNotRequested \<equiv> ''NOT_REQUESTED''"

definition RequestCoverage_Valid :: "RequestCoverage \<Rightarrow> bool" where
  "RequestCoverage_Valid c \<longleftrightarrow>
     c = CoverageComplete \<or> c = RequestCoveragePartial \<or> c = RequestCoverageUnavailable
     \<or> c = CoverageNotRequested"

record RequestContext =
  rc_RequestID :: string
  rc_ConnectionID :: string
  rc_SessionID :: string
  rc_RequestOrdinal :: u64
  rc_StreamID :: "u32 option"
  rc_HTTPVersion :: string
  rc_Method :: string
  rc_Scheme :: string
  rc_Host :: string
  rc_Path :: string
  rc_QueryPresent :: bool
  rc_ContentType :: string
  rc_ContentEncoding :: string
  rc_HeaderBytes :: int
  rc_BodyBytes :: int
  rc_DecodedBodyBytes :: int
  rc_BodySHA256 :: string
  rc_Truncated :: bool

record RequestAlert =
  ra_Detector :: string
  ra_SignatureID :: string
  ra_Category :: string
  ra_Message :: string
  ra_Action :: string
  ra_Severity :: string
  ra_Timestamp :: string

record RequestInspectionResult =
  ri_RequestID :: string
  ri_Coverage :: RequestCoverage
  ri_Completed :: bool
  ri_Alerts :: "RequestAlert list"
  ri_ErrorCode :: string
  ri_DurationMS :: int
  ri_RulesetID :: string
  ri_RulesetHash :: string

record RequestDecision =
  rd_DecisionID :: string
  rd_RequestID :: string
  rd_ConfigGeneration :: u64
  rd_SessionID :: string
  rd_PolicyID :: string
  rd_ProfileID :: string
  rd_Verdict :: RequestVerdict
  rd_Coverage :: RequestCoverage
  rd_HTTPStatus :: int
  rd_ReasonCode :: string
  rd_Reason :: string

record RequestForwardResult =
  rf_HTTPStatus :: int
  rf_ReasonCode :: string
  rf_ClientCertificateRequested :: bool
  rf_ObservedAt :: gotime

record RequestGateEvidence =
  rge_EventID :: string
  rge_Sequence :: u64
  rge_ObservedAt :: gotime
  rge_Context :: RequestContext
  rge_PathTruncated :: bool
  rge_Inspection :: RequestInspectionResult
  rge_AlertCount :: int
  rge_AlertsTruncated :: bool
  rge_Decision :: RequestDecision
  rge_Forward :: "RequestForwardResult option"

definition ValidRequestResult :: "string \<Rightarrow> int \<Rightarrow> bool" where
  "ValidRequestResult code status =
     (if code = ''UPSTREAM_RESPONSE_RECEIVED'' \<or> code = ''UPSTREAM_RESPONSE_TRUNCATED''
      then status \<ge> 200 \<and> status \<le> 599
      else if code \<in> set [''TLS_UPSTREAM_MTLS_UNSUPPORTED'', ''TLS_UPSTREAM_VERIFY_FAILED'',
          ''TLS_UPSTREAM_HANDSHAKE_FAILED'', ''TLS_UPSTREAM_CONNECT_FAILED'',
          ''UPSTREAM_CONNECT_FAILED'', ''UPSTREAM_RESPONSE_INVALID'']
      then status = 502
      else if code = ''UPSTREAM_REQUEST_INVALID'' then status = 400
      else False)"

section \<open>The session\<close>

record RuntimeSession =
  rs_SessionID :: string
  rs_Identity :: ConntrackIdentity
  rs_OriginalTuple :: Tuple
  rs_ReplyTuple :: "Tuple option"
  rs_TranslatedTuple :: "Tuple option"
  rs_NAT :: NATInfo
  rs_IPFamily :: IPFamily
  rs_Protocol :: u8
  rs_SourceZone :: string
  rs_DestinationZone :: string
  rs_State :: SessionState
  rs_CreatedAt :: gotime
  rs_LastSeen :: gotime
  rs_LastObservedAt :: gotime
  rs_ExpiresAt :: "gotime option"
  rs_ClosedAt :: "gotime option"
  rs_PacketsOriginal :: u64
  rs_BytesOriginal :: u64
  rs_PacketsReply :: u64
  rs_BytesReply :: u64
  rs_MatchedPolicyID :: string
  rs_PolicyGeneration :: u64
  rs_Decision :: Decision
  rs_DecisionGeneration :: u64
  rs_DecisionReason :: string
  rs_CacheState :: CacheState
  rs_InvalidatedAt :: "gotime option"
  rs_InvalidationReason :: string
  rs_KernelEpoch :: u16
  rs_KernelMark :: u32
  rs_KernelCacheVerified :: bool
  rs_EffectiveDecision :: Decision
  rs_Revoked :: bool
  rs_Revision :: u64
  rs_Quality :: SessionQuality
  rs_Inspection :: "SessionInspection option"
  rs_RequestGate :: "RequestGateEvidence list"

section \<open>Inspection intents\<close>

type_synonym InspectionIntentKind = string

abbreviation IntentInstallAppGuard :: InspectionIntentKind where
  "IntentInstallAppGuard \<equiv> ''INSTALL_APP_GUARD''"
abbreviation IntentRenewAppGuard :: InspectionIntentKind where
  "IntentRenewAppGuard \<equiv> ''RENEW_APP_GUARD''"
abbreviation IntentRemoveAppGuard :: InspectionIntentKind where
  "IntentRemoveAppGuard \<equiv> ''REMOVE_APP_GUARD''"

record InspectionIntent =
  int_Kind :: InspectionIntentKind
  int_OperationID :: string
  int_SessionID :: string
  int_Identity :: ConntrackIdentity
  int_Generation :: u64
  int_ExpectedInspectionRevision :: u64
  int_RequestedAction :: Decision
  int_Owner :: string
  int_Reason :: string

definition MatchesSession :: "InspectionIntent \<Rightarrow> RuntimeSession \<Rightarrow> u64 \<Rightarrow> bool" where
  "MatchesSession i current generation =
     (let a = rs_Identity current; b = int_Identity i in
      if rs_SessionID current \<noteq> int_SessionID i \<or> ci_BootID a \<noteq> ci_BootID b
         \<or> ci_NetworkNS a \<noteq> ci_NetworkNS b \<or> ci_Zone a \<noteq> ci_Zone b \<or> ci_Family a \<noteq> ci_Family b
         \<or> ci_ID a \<noteq> ci_ID b \<or> ci_KernelStart a \<noteq> ci_KernelStart b \<or> ci_Original a \<noteq> ci_Original b
         \<or> generation \<noteq> int_Generation i
      then False
      else
        (case rs_Inspection current of
           None \<Rightarrow> False
         | Some inspection \<Rightarrow>
             if si_Generation inspection \<noteq> int_Generation i
                \<or> si_Revision inspection < int_ExpectedInspectionRevision i
             then False
             else if int_Kind i = IntentInstallAppGuard then
               (let enforcement = si_Enforcement inspection; app = si_Application inspection;
                    strong = (\<not> app_Conflicted app \<and> app_Source app \<noteq> ApplicationSourcePortHeuristic
                      \<and> (app_Confidence app = ApplicationConfidenceHigh
                         \<or> app_Confidence app = ApplicationConfidenceVerified)) in
                si_Mode inspection = InspectionModeIPS \<and> si_AppPolicyState inspection = AppPolicyMismatch
                \<and> strong \<and> int_OperationID i \<noteq> ''''
                \<and> enf_OperationID enforcement = int_OperationID i
                \<and> enf_Mechanism enforcement = EnforcementNFTSessionGuard
                \<and> enf_RequestedAction enforcement = DecisionDrop
                \<and> enf_Status enforcement = EnforcementPending)
             else si_Revision inspection = int_ExpectedInspectionRevision i))"

section \<open>Conntrack records\<close>

record Presence =
  pres_OriginalTuple :: bool
  pres_ReplyTuple :: bool
  pres_Counters :: bool
  pres_CountersOriginal :: bool
  pres_CountersReply :: bool
  pres_Timeout :: bool
  pres_Timestamp :: bool
  pres_ID :: bool
  pres_Mark :: bool
  pres_Zone :: bool
  pres_ProtoInfo :: bool

record Record =
  rec_Identity :: ConntrackIdentity
  rec_OriginalTuple :: Tuple
  rec_ReplyTuple :: "Tuple option"
  rec_PacketsOriginal :: u64
  rec_BytesOriginal :: u64
  rec_PacketsReply :: u64
  rec_BytesReply :: u64
  rec_Timeout :: duration
  rec_KernelStart :: gotime
  rec_KernelStop :: gotime
  rec_TCPState :: string
  rec_SeenReply :: bool
  rec_Mark :: u32
  rec_Presence :: Presence
  rec_ObservedAt :: gotime
  rec_RawState :: string

end
