(* ===== verification/Runtime_Store.thy ===== *)
theory Runtime_Store
imports Session_Types "HOL-Library.Product_Lexorder"
begin

text \<open>
  The session table (\<open>internal/session/runtime_store.go\<close>, \<open>history.go\<close>, \<open>inspection.go\<close>). Every
  operation but \<open>ExpiredCandidates\<close> holds the store's mutex throughout, so it is one function from the
  store to the store and a result; a pointer into \<open>byID\<close> is updated by storing the new session under its key. The hash, the
  clock and the time format are the fields of \<open>Env\<close>.
\<close>

section \<open>Data\<close>

record Env =
  env_Sum256 :: "u8 list \<Rightarrow> u8 list"
  env_Now :: gotime
  env_FormatRFC3339Nano :: "gotime \<Rightarrow> string"

datatype StoreError =
    ErrRuntimeCapacity | ErrSessionMissing | ErrIdentityMissing | ErrAliasAmbiguous
  | ErrStaleEvent | ErrStaleDecision | ErrStaleInspection | ErrStaleGeneration

record RuntimeLimits =
  rl_MaxSessions :: int
  rl_MaxAliases :: int
  rl_MaxClosed :: int
  rl_ClosedTTL :: duration
  rl_MaxAmbiguity :: int
  rl_MaxEventQueue :: int

definition DefaultRuntimeLimits :: RuntimeLimits where
  "DefaultRuntimeLimits =
     \<lparr>rl_MaxSessions = 50000, rl_MaxAliases = 8, rl_MaxClosed = 5000, rl_ClosedTTL = 60 * second,
      rl_MaxAmbiguity = 4, rl_MaxEventQueue = 10000\<rparr>"

record SessionFilter =
  sf_SourceIP :: string
  sf_DestinationIP :: string
  sf_Protocol :: u8
  sf_SourceZone :: string
  sf_DestinationZone :: string
  sf_State :: SessionState
  sf_Decision :: Decision
  sf_TupleView :: string

record Page =
  pg_Number :: int
  pg_Size :: int
  pg_Cursor :: string

record PageResult =
  pgr_Items :: "RuntimeSession list"
  pgr_Page :: int
  pgr_PageSize :: int
  pgr_Total :: int
  pgr_HasMore :: bool
  pgr_StoreRevision :: u64
  pgr_SnapshotTime :: gotime

record RuntimeStats =
  stat_Active :: u64
  stat_Created :: u64
  stat_Closed :: u64
  stat_Invalidated :: u64
  stat_TrackingDrops :: u64
  stat_CapacityDrops :: u64
  stat_EventDrops :: u64
  stat_Resyncs :: u64
  stat_DumpIncomplete :: u64
  stat_LastDumpBytes :: u64
  stat_LastDumpMillis :: u64
  stat_GetChecks :: u64
  stat_GetUnavailable :: u64
  stat_ExpiryBacklog :: u64
  stat_ExpiryOldestSeconds :: u64
  stat_HistoryEvictions :: u64
  stat_HistoryExpired :: u64

record tombstone =
  tb_ID :: string
  tb_Identity :: ConntrackIdentity
  tb_At :: gotime

record conntrackKey =
  ck_BootID :: string
  ck_NetworkNS :: string
  ck_Zone :: u16
  ck_Family :: IPFamily
  ck_ID :: u32

record RuntimeStore =
  st_byID :: "(string, RuntimeSession) fmap"
  st_byIdentity :: "(ConntrackIdentity, string) fmap"
  st_byConntrack :: "(conntrackKey, string) fmap"
  st_byTuple :: "(Key, string fset) fmap"
  st_aliasesBySession :: "(string, Key list) fmap"
  st_identitiesBySession :: "(string, ConntrackIdentity list) fmap"
  st_conntracksBySession :: "(string, conntrackKey list) fmap"
  st_closed :: "RuntimeSession list"
  st_tombstones :: "tombstone list"
  st_expiryRetryAfter :: "(string, gotime) fmap"
  st_limits :: RuntimeLimits
  st_baseHistoryMax :: int
  st_baseHistoryTTL :: duration
  st_revision :: u64
  st_stats :: RuntimeStats

definition RuntimeStatsZero :: RuntimeStats where
  "RuntimeStatsZero =
     \<lparr>stat_Active = 0, stat_Created = 0, stat_Closed = 0, stat_Invalidated = 0, stat_TrackingDrops = 0,
      stat_CapacityDrops = 0, stat_EventDrops = 0, stat_Resyncs = 0, stat_DumpIncomplete = 0,
      stat_LastDumpBytes = 0, stat_LastDumpMillis = 0, stat_GetChecks = 0, stat_GetUnavailable = 0,
      stat_ExpiryBacklog = 0, stat_ExpiryOldestSeconds = 0, stat_HistoryEvictions = 0,
      stat_HistoryExpired = 0\<rparr>"

definition withDefault :: "int \<Rightarrow> int \<Rightarrow> int" where
  "withDefault x d = (if x \<le> 0 then d else x)"

definition effectiveLimits :: "RuntimeLimits \<Rightarrow> RuntimeLimits" where
  "effectiveLimits limits =
     (let d = DefaultRuntimeLimits in
      \<lparr>rl_MaxSessions = withDefault (rl_MaxSessions limits) (rl_MaxSessions d),
       rl_MaxAliases = withDefault (rl_MaxAliases limits) (rl_MaxAliases d),
       rl_MaxClosed = withDefault (rl_MaxClosed limits) (rl_MaxClosed d),
       rl_ClosedTTL = withDefault (rl_ClosedTTL limits) (rl_ClosedTTL d),
       rl_MaxAmbiguity = withDefault (rl_MaxAmbiguity limits) (rl_MaxAmbiguity d),
       rl_MaxEventQueue = withDefault (rl_MaxEventQueue limits) (rl_MaxEventQueue d)\<rparr>)"

definition NewRuntimeStore :: "RuntimeLimits \<Rightarrow> RuntimeStore" where
  "NewRuntimeStore limits =
     (let limits = effectiveLimits limits in
      \<lparr>st_byID = fmempty, st_byIdentity = fmempty, st_byConntrack = fmempty, st_byTuple = fmempty,
       st_aliasesBySession = fmempty, st_identitiesBySession = fmempty, st_conntracksBySession = fmempty,
       st_closed = [], st_tombstones = [], st_expiryRetryAfter = fmempty, st_limits = limits,
       st_baseHistoryMax = rl_MaxClosed limits, st_baseHistoryTTL = rl_ClosedTTL limits,
       st_revision = 0, st_stats = RuntimeStatsZero\<rparr>)"

section \<open>Indexes\<close>

text \<open>Indexing a Go map of strings or of slices gives the zero value for an absent key.\<close>

definition get_str :: "('k, string) fmap \<Rightarrow> 'k \<Rightarrow> string" where
  "get_str m k = (case fmlookup m k of None \<Rightarrow> '''' | Some v \<Rightarrow> v)"

definition get_list :: "('k, 'v list) fmap \<Rightarrow> 'k \<Rightarrow> 'v list" where
  "get_list m k = (case fmlookup m k of None \<Rightarrow> [] | Some vs \<Rightarrow> vs)"

definition get_set :: "('k, 'v fset) fmap \<Rightarrow> 'k \<Rightarrow> 'v fset" where
  "get_set m k = (case fmlookup m k of None \<Rightarrow> {||} | Some vs \<Rightarrow> vs)"

definition sessionID :: "Env \<Rightarrow> ConntrackIdentity \<Rightarrow> string" where
  "sessionID env identity =
     (let b = bytes_of (ci_BootID identity @ [CHR 0x00] @ ci_NetworkNS identity @ [CHR 0x00]
                @ Tuple_String (ci_Original identity))
            @ [ucast (drop_bit 8 (ci_Zone identity)), ucast (ci_Zone identity), ci_Family identity,
               ucast (drop_bit 24 (ci_ID identity)), ucast (drop_bit 16 (ci_ID identity)),
               ucast (drop_bit 8 (ci_ID identity)), ucast (ci_ID identity)]
            @ map (\<lambda>shift. ucast (drop_bit shift (ci_KernelStart identity))) [56, 48, 40, 32, 24, 16, 8, 0]
      in ''sess-'' @ EncodeToString (take 16 (env_Sum256 env b)))"

definition tombstoneIdentityMatches :: "ConntrackIdentity \<Rightarrow> ConntrackIdentity \<Rightarrow> bool" where
  "tombstoneIdentityMatches previous current =
     (if ci_BootID previous \<noteq> '''' \<and> ci_BootID current \<noteq> '''' \<and> ci_BootID previous \<noteq> ci_BootID current
      then False
      else if ci_NetworkNS previous \<noteq> '''' \<and> ci_NetworkNS current \<noteq> ''''
         \<and> ci_NetworkNS previous \<noteq> ci_NetworkNS current then False
      else if ci_Zone previous \<noteq> ci_Zone current \<or> ci_Family previous \<noteq> ci_Family current
         \<or> ci_ID previous \<noteq> ci_ID current \<or> ci_Original previous \<noteq> ci_Original current then False
      else ci_KernelStart previous = 0 \<or> ci_KernelStart current = 0
         \<or> ci_KernelStart previous = ci_KernelStart current)"

definition stateFor :: "Record \<Rightarrow> SessionState" where
  "stateFor r =
     (if list_ex (EqualFold (rec_TCPState r))
           [''ESTABLISHED'', ''FIN_WAIT'', ''CLOSE_WAIT'', ''LAST_ACK'', ''TIME_WAIT'', ''CLOSE'']
      then if EqualFold (rec_TCPState r) ''ESTABLISHED'' then SessionEstablished else SessionClosing
      else if rec_SeenReply r then SessionEstablished
      else SessionNew)"

definition makeNAT :: "Tuple \<Rightarrow> Tuple option \<Rightarrow> NATInfo" where
  "makeNAT original reply =
     (let n = NATInfoZero\<lparr>nat_info_OriginalTuple := Some original\<rparr> in
      case reply of
        None \<Rightarrow> n
      | Some r \<Rightarrow>
          let t = Tuple_Reverse r;
              snat = (SrcIP original \<noteq> SrcIP t \<or> SrcPort original \<noteq> SrcPort t) in
          n\<lparr>nat_info_ReplyTuple := Some r, nat_info_TranslatedTuple := Some t,
            PreNATSource := Addr_String (SrcIP original), PreNATDestination := Addr_String (DstIP original),
            PostNATSource := Addr_String (SrcIP t), PostNATDestination := Addr_String (DstIP t),
            SNAT := snat,
            DNAT := (DstIP original \<noteq> DstIP t \<or> DstPort original \<noteq> DstPort t),
            SourceTranslationMethod := (if snat then ''UNKNOWN'' else '''')\<rparr>)"

definition removeMissing :: "string list \<Rightarrow> string \<Rightarrow> string list" where
  "removeMissing xs target = filter (\<lambda>v. v \<noteq> target) xs"

definition hasMissing :: "string list \<Rightarrow> string \<Rightarrow> bool" where
  "hasMissing xs target \<longleftrightarrow> target \<in> set xs"

definition counterPresence :: "Presence \<Rightarrow> bool \<times> bool" where
  "counterPresence p =
     (if pres_CountersOriginal p \<or> pres_CountersReply p
      then (pres_CountersOriginal p, pres_CountersReply p)
      else (pres_Counters p, pres_Counters p))"

definition maxUint64 :: "u64 \<Rightarrow> u64 \<Rightarrow> u64" where
  "maxUint64 a b = (if b > a then b else a)"

definition remove_alias :: "string \<Rightarrow> Key \<Rightarrow> (Key, string fset) fmap \<Rightarrow> (Key, string fset) fmap" where
  "remove_alias i alias m =
     (let ids = get_set m alias |-| {|i|} in
      if ids = {||} then fmdrop alias m else fmupd alias ids m)"

definition removeTupleIndexesLocked :: "RuntimeStore \<Rightarrow> string \<Rightarrow> RuntimeStore" where
  "removeTupleIndexesLocked s i =
     s\<lparr>st_byTuple := fold (remove_alias i) (get_list (st_aliasesBySession s) i) (st_byTuple s),
       st_aliasesBySession := fmdrop i (st_aliasesBySession s)\<rparr>"

definition add_alias :: "string \<Rightarrow> Key \<Rightarrow> (Key, string fset) fmap \<Rightarrow> (Key, string fset) fmap" where
  "add_alias i alias m = fmupd alias (finsert i (get_set m alias)) m"

definition session_scope :: "RuntimeSession \<Rightarrow> Scope" where
  "session_scope v =
     \<lparr>NetworkNamespace = ci_NetworkNS (rs_Identity v), ConntrackZone = ci_Zone (rs_Identity v)\<rparr>"

definition session_aliases :: "RuntimeSession \<Rightarrow> Key list" where
  "session_aliases v =
     Aliases (session_scope v) (rs_OriginalTuple v) (rs_ReplyTuple v) (rs_TranslatedTuple v)"

definition indexLocked :: "RuntimeStore \<Rightarrow> RuntimeSession \<Rightarrow> RuntimeStore \<times> RuntimeSession" where
  "indexLocked s v =
     (let s = removeTupleIndexesLocked s (rs_SessionID v);
          aliases = session_aliases v;
          over = int (length aliases) > rl_MaxAliases (st_limits s);
          aliases = (if over then take (nat (rl_MaxAliases (st_limits s))) aliases else aliases);
          v = (if over then v\<lparr>rs_Quality := (rs_Quality v)\<lparr>q_TrackingStatus := TrackingPartial,
                                  q_Reason := ''alias limit''\<rparr>\<rparr> else v) in
      (s\<lparr>st_byTuple := fold (add_alias (rs_SessionID v)) aliases (st_byTuple s),
         st_aliasesBySession := fmupd (rs_SessionID v) aliases (st_aliasesBySession s)\<rparr>, v))"

definition reindexLocked :: "RuntimeStore \<Rightarrow> RuntimeSession \<Rightarrow> RuntimeStore \<times> RuntimeSession" where
  "reindexLocked s v =
     (case indexLocked s v of (s, v) \<Rightarrow> (s\<lparr>st_revision := st_revision s + 1\<rparr>, v))"

definition drop_if_owner :: "string \<Rightarrow> 'k \<Rightarrow> ('k, string) fmap \<Rightarrow> ('k, string) fmap" where
  "drop_if_owner i k m = (if fmlookup m k = Some i then fmdrop k m else m)"

definition removeIndexesLocked :: "RuntimeStore \<Rightarrow> string \<Rightarrow> RuntimeStore" where
  "removeIndexesLocked s i =
     (let s = s\<lparr>st_expiryRetryAfter := fmdrop i (st_expiryRetryAfter s)\<rparr>;
          s = removeTupleIndexesLocked s i in
      s\<lparr>st_byIdentity := fold (drop_if_owner i) (get_list (st_identitiesBySession s) i) (st_byIdentity s),
        st_identitiesBySession := fmdrop i (st_identitiesBySession s),
        st_byConntrack := fold (drop_if_owner i) (get_list (st_conntracksBySession s) i) (st_byConntrack s),
        st_conntracksBySession := fmdrop i (st_conntracksBySession s)\<rparr>)"

definition makeConntrackKey :: "ConntrackIdentity \<Rightarrow> conntrackKey option" where
  "makeConntrackKey identity =
     (if ci_ID identity = 0 then None
      else Some \<lparr>ck_BootID = ci_BootID identity, ck_NetworkNS = ci_NetworkNS identity,
                 ck_Zone = ci_Zone identity, ck_Family = ci_Family identity, ck_ID = ci_ID identity\<rparr>)"

text \<open>The loop that drops the oldest remembered keys while there are more than the limit.\<close>

fun trim_oldest :: "int \<Rightarrow> string \<Rightarrow> 'k list \<Rightarrow> ('k, string) fmap \<Rightarrow> 'k list \<times> ('k, string) fmap" where
  "trim_oldest limit i [] m = ([], m)"
| "trim_oldest limit i (k # ks) m =
     (if int (length (k # ks)) > limit then trim_oldest limit i ks (drop_if_owner i k m)
      else (k # ks, m))"

definition remember_key ::
  "int \<Rightarrow> string \<Rightarrow> 'k \<Rightarrow> (string, 'k list) fmap \<Rightarrow> ('k, string) fmap \<Rightarrow>
   (string, 'k list) fmap \<times> ('k, string) fmap" where
  "remember_key limit i k owned m =
     (let m = fmupd k i m in
      if k \<in> set (get_list owned i) then (owned, m)
      else
        (case trim_oldest limit i (get_list owned i @ [k]) m of
           (ks, m) \<Rightarrow> (fmupd i ks owned, m)))"

definition aliasLimit :: "RuntimeStore \<Rightarrow> int" where
  "aliasLimit s =
     (if rl_MaxAliases (st_limits s) \<le> 0 then rl_MaxAliases DefaultRuntimeLimits
      else rl_MaxAliases (st_limits s))"

definition remember_exact :: "RuntimeStore \<Rightarrow> string \<Rightarrow> ConntrackIdentity \<Rightarrow> RuntimeStore" where
  "remember_exact s i identity =
     (if fmlookup (st_byIdentity s) identity = Some i then s
      else (case remember_key (aliasLimit s) i identity (st_identitiesBySession s) (st_byIdentity s) of
              (owned, m) \<Rightarrow> s\<lparr>st_identitiesBySession := owned, st_byIdentity := m\<rparr>))"

definition remember_conntrack :: "RuntimeStore \<Rightarrow> string \<Rightarrow> ConntrackIdentity \<Rightarrow> RuntimeStore" where
  "remember_conntrack s i identity =
     (case makeConntrackKey identity of
        None \<Rightarrow> s
      | Some key \<Rightarrow>
          if fmlookup (st_byConntrack s) key = None \<or> fmlookup (st_byConntrack s) key = Some i
          then (case remember_key (aliasLimit s) i key (st_conntracksBySession s) (st_byConntrack s) of
                  (owned, m) \<Rightarrow> s\<lparr>st_conntracksBySession := owned, st_byConntrack := m\<rparr>)
          else s)"

definition rememberIdentityLocked :: "RuntimeStore \<Rightarrow> string \<Rightarrow> ConntrackIdentity \<Rightarrow> RuntimeStore" where
  "rememberIdentityLocked s i identity =
     (if i = '''' then s else remember_conntrack (remember_exact s i identity) i identity)"

datatype TupleResolution = TupleMissing | TupleAmbiguous | TupleOk string

definition resolveTupleLocked :: "RuntimeStore \<Rightarrow> Key \<Rightarrow> TupleResolution" where
  "resolveTupleLocked s k =
     (let ids = get_set (st_byTuple s) k in
      if ids = {||} then TupleMissing
      else if int (fcard ids) > rl_MaxAmbiguity (st_limits s) then TupleAmbiguous
      else if fcard ids \<noteq> 1 then TupleAmbiguous
      else TupleOk (fthe_elem ids))"

definition identity_key :: "ConntrackIdentity \<Rightarrow> Tuple \<Rightarrow> Key" where
  "identity_key identity t =
     \<lparr>Key_Scope = \<lparr>NetworkNamespace = ci_NetworkNS identity, ConntrackZone = ci_Zone identity\<rparr>,
      Key_Tuple = t\<rparr>"

definition known_conflict :: "'a::zero \<Rightarrow> 'a \<Rightarrow> bool" where
  "known_conflict a b \<longleftrightarrow> a \<noteq> 0 \<and> b \<noteq> 0 \<and> a \<noteq> b"

definition name_conflict :: "string \<Rightarrow> string \<Rightarrow> bool" where
  "name_conflict a b \<longleftrightarrow> a \<noteq> '''' \<and> b \<noteq> '''' \<and> a \<noteq> b"

text \<open>
  \<open>resolveIdentityLocked\<close> tries the exact identity, then the conntrack identifier, then the tuple.
  Each of the last two either returns from the function (Some) or falls through (None).
\<close>

definition resolve_by_conntrack :: "RuntimeStore \<Rightarrow> ConntrackIdentity \<Rightarrow> string option" where
  "resolve_by_conntrack s identity =
     (case makeConntrackKey identity of
        None \<Rightarrow> None
      | Some key \<Rightarrow>
          let i = get_str (st_byConntrack s) key in
          if i = '''' then None
          else
            (case fmlookup (st_byID s) i of
               None \<Rightarrow> None
             | Some current \<Rightarrow>
                 if Tuple_Valid (ci_Original identity) \<and> rs_OriginalTuple current \<noteq> ci_Original identity
                 then Some ''''
                 else if known_conflict (ci_KernelStart identity) (ci_KernelStart (rs_Identity current))
                 then Some ''''
                 else Some i))"

definition resolve_by_tuple :: "RuntimeStore \<Rightarrow> ConntrackIdentity \<Rightarrow> string option" where
  "resolve_by_tuple s identity =
     (if \<not> Tuple_Valid (ci_Original identity) then None
      else
        (case resolveTupleLocked s (identity_key identity (ci_Original identity)) of
           TupleOk i \<Rightarrow>
             (case fmlookup (st_byID s) i of
                None \<Rightarrow> None
              | Some current \<Rightarrow>
                  let c = rs_Identity current in
                  if name_conflict (ci_BootID identity) (ci_BootID c) then Some ''''
                  else if name_conflict (ci_NetworkNS identity) (ci_NetworkNS c) then Some ''''
                  else if known_conflict (ci_ID identity) (ci_ID c) then Some ''''
                  else if known_conflict (ci_KernelStart identity) (ci_KernelStart c) then Some ''''
                  else Some i)
         | _ \<Rightarrow> None))"

definition resolveIdentityLocked :: "RuntimeStore \<Rightarrow> ConntrackIdentity \<Rightarrow> string" where
  "resolveIdentityLocked s identity =
     (let i = get_str (st_byIdentity s) identity in
      if i \<noteq> '''' then i
      else
        (case resolve_by_conntrack s identity of
           Some r \<Rightarrow> r
         | None \<Rightarrow> (case resolve_by_tuple s identity of Some r \<Rightarrow> r | None \<Rightarrow> '''')))"

section \<open>Merging a record into a live session\<close>

definition set_missing :: "string list \<Rightarrow> RuntimeSession \<Rightarrow> RuntimeSession" where
  "set_missing xs v = v\<lparr>rs_Quality := (rs_Quality v)\<lparr>q_MissingFields := xs\<rparr>\<rparr>"

definition drop_missing :: "string \<Rightarrow> RuntimeSession \<Rightarrow> RuntimeSession" where
  "drop_missing target v = set_missing (removeMissing (q_MissingFields (rs_Quality v)) target) v"

definition merge_kernel_start :: "Record \<Rightarrow> RuntimeSession \<times> bool \<Rightarrow> RuntimeSession \<times> bool" where
  "merge_kernel_start r vc =
     (case vc of (v, changed) \<Rightarrow>
        if ci_KernelStart (rs_Identity v) = 0 \<and> ci_KernelStart (rec_Identity r) \<noteq> 0
           \<and> pres_Timestamp (rec_Presence r)
        then (drop_missing ''kernel_start''
               (v\<lparr>rs_Identity := (rs_Identity v)\<lparr>ci_KernelStart := ci_KernelStart (rec_Identity r)\<rparr>,
                  rs_Quality := (rs_Quality v)\<lparr>q_IdentityConfidence := IdentityComplete\<rparr>\<rparr>), True)
        else (v, changed))"

definition confirm_identity :: "RuntimeSession \<Rightarrow> RuntimeSession" where
  "confirm_identity v =
     (if q_IdentityConfidence (rs_Quality v) = IdentityPartial \<and> q_MissingFields (rs_Quality v) = []
      then v\<lparr>rs_Quality := (rs_Quality v)\<lparr>q_IdentityConfidence := IdentityComplete\<rparr>\<rparr>
      else v)"

definition merge_conntrack_id :: "Record \<Rightarrow> RuntimeSession \<times> bool \<Rightarrow> RuntimeSession \<times> bool" where
  "merge_conntrack_id r vc =
     (case vc of (v, changed) \<Rightarrow>
        if ci_ID (rs_Identity v) = 0 \<and> ci_ID (rec_Identity r) \<noteq> 0 \<and> pres_ID (rec_Presence r)
        then (confirm_identity (drop_missing ''conntrack_id''
               (v\<lparr>rs_Identity := (rs_Identity v)\<lparr>ci_ID := ci_ID (rec_Identity r)\<rparr>\<rparr>)), True)
        else (v, changed))"

definition with_reply :: "Tuple \<Rightarrow> RuntimeSession \<Rightarrow> RuntimeSession" where
  "with_reply reply v =
     v\<lparr>rs_ReplyTuple := Some reply, rs_NAT := makeNAT (rs_OriginalTuple v) (Some reply),
       rs_TranslatedTuple := nat_info_TranslatedTuple (makeNAT (rs_OriginalTuple v) (Some reply))\<rparr>"

definition merge_reply ::
  "Record \<Rightarrow> RuntimeStore \<times> RuntimeSession \<times> bool \<Rightarrow> RuntimeStore \<times> RuntimeSession \<times> bool" where
  "merge_reply r svc =
     (case svc of (s, v, changed) \<Rightarrow>
        (case (pres_ReplyTuple (rec_Presence r), rec_ReplyTuple r) of
           (True, Some reply) \<Rightarrow>
             (case (if rs_ReplyTuple v \<noteq> Some reply
                    then (case reindexLocked s (with_reply reply v) of (s, v) \<Rightarrow> (s, v, True))
                    else (s, v, changed)) of
                (s, v, changed) \<Rightarrow>
                  (s, if q_MissingFields (rs_Quality v) \<noteq> [] then drop_missing ''reply_tuple'' v else v,
                   changed))
         | _ \<Rightarrow> (s, v, changed)))"

definition merge_original_counters :: "Record \<Rightarrow> gotime \<Rightarrow> RuntimeSession \<times> bool \<Rightarrow> RuntimeSession \<times> bool" where
  "merge_original_counters r now vc =
     (case vc of (v, changed) \<Rightarrow>
        let more = (rec_PacketsOriginal r > rs_PacketsOriginal v \<or> rec_BytesOriginal r > rs_BytesOriginal v) in
        ((drop_missing ''counters_original'' v)
           \<lparr>rs_LastSeen := (if more then now else rs_LastSeen v),
            rs_PacketsOriginal := maxUint64 (rs_PacketsOriginal v) (rec_PacketsOriginal r),
            rs_BytesOriginal := maxUint64 (rs_BytesOriginal v) (rec_BytesOriginal r)\<rparr>,
         changed \<or> more))"

definition merge_reply_counters :: "Record \<Rightarrow> gotime \<Rightarrow> RuntimeSession \<times> bool \<Rightarrow> RuntimeSession \<times> bool" where
  "merge_reply_counters r now vc =
     (case vc of (v, changed) \<Rightarrow>
        let more = (rec_PacketsReply r > rs_PacketsReply v \<or> rec_BytesReply r > rs_BytesReply v) in
        ((drop_missing ''counters_reply'' v)
           \<lparr>rs_LastSeen := (if more then now else rs_LastSeen v),
            rs_PacketsReply := maxUint64 (rs_PacketsReply v) (rec_PacketsReply r),
            rs_BytesReply := maxUint64 (rs_BytesReply v) (rec_BytesReply r)\<rparr>,
         changed \<or> more))"

definition settle_counters :: "RuntimeSession \<Rightarrow> RuntimeSession" where
  "settle_counters v =
     (if \<not> hasMissing (q_MissingFields (rs_Quality v)) ''counters_original''
         \<and> \<not> hasMissing (q_MissingFields (rs_Quality v)) ''counters_reply''
      then drop_missing ''counters'' v else v)"

definition merge_counters :: "Record \<Rightarrow> gotime \<Rightarrow> RuntimeSession \<times> bool \<Rightarrow> RuntimeSession \<times> bool" where
  "merge_counters r now vc =
     (case counterPresence (rec_Presence r) of (originalCounters, replyCounters) \<Rightarrow>
        apfst settle_counters
          ((if replyCounters then merge_reply_counters r now else id)
            ((if originalCounters then merge_original_counters r now else id) vc)))"

definition merge_timeout :: "Record \<Rightarrow> gotime \<Rightarrow> RuntimeSession \<Rightarrow> RuntimeSession" where
  "merge_timeout r now v =
     (if pres_Timeout (rec_Presence r)
      then (drop_missing ''timeout'' v)\<lparr>rs_ExpiresAt := Some (now + rec_Timeout r)\<rparr> else v)"

definition merge_tcp_state :: "Record \<Rightarrow> gotime \<Rightarrow> RuntimeSession \<times> bool \<Rightarrow> RuntimeSession \<times> bool" where
  "merge_tcp_state r now vc =
     (case vc of (v, changed) \<Rightarrow>
        if rec_TCPState r \<noteq> '''' \<and> stateFor r \<noteq> rs_State v
        then (v\<lparr>rs_State := stateFor r, rs_LastSeen := now\<rparr>, True) else (v, changed))"

definition merge_seen_reply :: "Record \<Rightarrow> gotime \<Rightarrow> RuntimeSession \<times> bool \<Rightarrow> RuntimeSession \<times> bool" where
  "merge_seen_reply r now vc =
     (case vc of (v, changed) \<Rightarrow>
        if rec_SeenReply r \<and> rs_State v = SessionNew
        then (v\<lparr>rs_State := SessionEstablished, rs_LastSeen := now\<rparr>, True) else (v, changed))"

definition merge_mark :: "Record \<Rightarrow> RuntimeSession \<times> bool \<Rightarrow> RuntimeSession \<times> bool" where
  "merge_mark r vc =
     (case vc of (v, changed) \<Rightarrow>
        if \<not> pres_Mark (rec_Presence r) then (v, changed)
        else if rs_KernelMark v \<noteq> rec_Mark r
        then (drop_missing ''mark''
               (v\<lparr>rs_KernelEpoch := ucast (drop_bit 20 (rec_Mark r)), rs_KernelMark := rec_Mark r,
                  rs_KernelCacheVerified := False\<rparr>), True)
        else (drop_missing ''mark'' v, changed))"

definition merge_state :: "Record \<Rightarrow> gotime \<Rightarrow> RuntimeSession \<times> bool \<Rightarrow> RuntimeSession \<times> bool" where
  "merge_state r now vc =
     merge_mark r
       (apfst (\<lambda>v. v\<lparr>rs_LastObservedAt := now\<rparr>)
         (merge_seen_reply r now (merge_tcp_state r now (apfst (merge_timeout r now) vc))))"

definition settle_tracking :: "RuntimeSession \<Rightarrow> RuntimeSession" where
  "settle_tracking v =
     (if q_MissingFields (rs_Quality v) = []
      then v\<lparr>rs_Quality := (rs_Quality v)\<lparr>q_TrackingStatus := TrackingComplete\<rparr>\<rparr> else v)"

definition quality_changed :: "SessionQuality \<Rightarrow> SessionQuality \<Rightarrow> bool" where
  "quality_changed old new \<longleftrightarrow>
     length (q_MissingFields new) \<noteq> length (q_MissingFields old)
     \<or> q_TrackingStatus new \<noteq> q_TrackingStatus old
     \<or> q_IdentityConfidence new \<noteq> q_IdentityConfidence old"

definition merge_session ::
  "Record \<Rightarrow> gotime \<Rightarrow> RuntimeStore \<Rightarrow> RuntimeSession \<Rightarrow> RuntimeStore \<times> RuntimeSession \<times> bool" where
  "merge_session r now s existing =
     (case merge_reply r (s, merge_conntrack_id r (merge_kernel_start r (existing, False))) of
        (s, vc) \<Rightarrow>
          (case merge_state r now (merge_counters r now vc) of
             (v, changed) \<Rightarrow>
               (s, settle_tracking v,
                changed \<or> quality_changed (rs_Quality existing) (rs_Quality (settle_tracking v)))))"

definition mergeLocked ::
  "RuntimeStore \<Rightarrow> string \<Rightarrow> RuntimeSession \<Rightarrow> Record \<Rightarrow> gotime \<Rightarrow> RuntimeStore \<times> RuntimeSession \<times> bool" where
  "mergeLocked s i existing r now =
     (case merge_session r now s existing of
        (s, v, changed) \<Rightarrow>
          let s = s\<lparr>st_expiryRetryAfter := fmdrop (rs_SessionID v) (st_expiryRetryAfter s)\<rparr>;
              s = rememberIdentityLocked s (rs_SessionID v) (rec_Identity r);
              v = (if changed then v\<lparr>rs_Revision := rs_Revision v + 1\<rparr> else v);
              s = (if changed then s\<lparr>st_revision := st_revision s + 1\<rparr> else s) in
          (s\<lparr>st_byID := fmupd i v (st_byID s)\<rparr>, v, changed))"

section \<open>Creating a session\<close>

definition created_from_kernel :: "Record \<Rightarrow> bool" where
  "created_from_kernel r \<longleftrightarrow> pres_Timestamp (rec_Presence r) \<and> rec_KernelStart r \<noteq> 0"

definition new_quality :: "Record \<Rightarrow> SessionQuality" where
  "new_quality r =
     (let p = rec_Presence r; (oc, rc) = counterPresence p;
          noStart = \<not> created_from_kernel r;
          noID = (\<not> pres_ID p \<or> ci_ID (rec_Identity r) = 0) in
      \<lparr>q_TrackingStatus = (if \<not> pres_ReplyTuple p \<or> \<not> oc \<or> \<not> rc \<or> \<not> pres_Timeout p \<or> \<not> pres_Mark p
          then TrackingPartial else TrackingComplete),
       q_IdentityConfidence = (if noStart \<or> noID then IdentityPartial else IdentityComplete),
       q_MissingFields =
         (if noStart then [''kernel_start''] else [])
         @ (if noID then [''conntrack_id''] else [])
         @ (if \<not> pres_ReplyTuple p then [''reply_tuple''] else [])
         @ (if \<not> oc \<or> \<not> rc
            then [''counters''] @ (if \<not> oc then [''counters_original''] else [])
                 @ (if \<not> rc then [''counters_reply''] else [])
            else [])
         @ (if \<not> pres_Timeout p then [''timeout''] else [])
         @ (if \<not> pres_Mark p then [''mark''] else []),
       q_Reason = '''', q_LastResyncID = 0\<rparr>)"

definition new_session :: "string \<Rightarrow> Record \<Rightarrow> gotime \<Rightarrow> RuntimeSession" where
  "new_session i r now =
     (let p = rec_Presence r; (oc, rc) = counterPresence p; original = rec_OriginalTuple r;
          reply = (if pres_ReplyTuple p then rec_ReplyTuple r else None);
          nat = makeNAT original reply in
      \<lparr>rs_SessionID = i, rs_Identity = rec_Identity r, rs_OriginalTuple = original,
       rs_ReplyTuple = reply, rs_TranslatedTuple = nat_info_TranslatedTuple nat, rs_NAT = nat,
       rs_IPFamily = Family original, rs_Protocol = Protocol original, rs_SourceZone = '''',
       rs_DestinationZone = '''', rs_State = stateFor r,
       rs_CreatedAt = (if created_from_kernel r then rec_KernelStart r else now),
       rs_LastSeen = now, rs_LastObservedAt = now,
       rs_ExpiresAt = (if pres_Timeout p then Some (now + rec_Timeout r) else None),
       rs_ClosedAt = None,
       rs_PacketsOriginal = (if oc then rec_PacketsOriginal r else 0),
       rs_BytesOriginal = (if oc then rec_BytesOriginal r else 0),
       rs_PacketsReply = (if rc then rec_PacketsReply r else 0),
       rs_BytesReply = (if rc then rec_BytesReply r else 0),
       rs_MatchedPolicyID = '''', rs_PolicyGeneration = 0, rs_Decision = '''', rs_DecisionGeneration = 0,
       rs_DecisionReason = '''', rs_CacheState = CacheNotEvaluated, rs_InvalidatedAt = None,
       rs_InvalidationReason = '''',
       rs_KernelEpoch = (if pres_Mark p then ucast (drop_bit 20 (rec_Mark r)) else 0),
       rs_KernelMark = (if pres_Mark p then rec_Mark r else 0),
       rs_KernelCacheVerified = False, rs_EffectiveDecision = '''', rs_Revoked = False, rs_Revision = 1,
       rs_Quality = new_quality r, rs_Inspection = None, rs_RequestGate = []\<rparr>)"

definition complete_record :: "Record \<Rightarrow> Record" where
  "complete_record r =
     (let r = (if \<not> Tuple_Valid (rec_OriginalTuple r) \<and> Tuple_Valid (ci_Original (rec_Identity r))
               then r\<lparr>rec_OriginalTuple := ci_Original (rec_Identity r)\<rparr> else r) in
      if ci_Original (rec_Identity r) = TupleZero
      then r\<lparr>rec_Identity := (rec_Identity r)\<lparr>ci_Original := rec_OriginalTuple r\<rparr>\<rparr> else r)"

definition fresh_session_id :: "Env \<Rightarrow> RuntimeStore \<Rightarrow> ConntrackIdentity \<Rightarrow> string" where
  "fresh_session_id env s identity =
     (let i = sessionID env identity in
      if i |\<in>| fmdom (st_byID s)
      then i @ ''-'' @ EncodeToString (bytes_of (env_FormatRFC3339Nano env (env_Now env)))
      else i)"

definition create_session ::
  "Env \<Rightarrow> RuntimeStore \<Rightarrow> Record \<Rightarrow> gotime \<Rightarrow>
   RuntimeStore \<times> (StoreError + RuntimeSession \<times> bool \<times> bool)" where
  "create_session env s r now =
     (if int (fmlen (st_byID s)) \<ge> rl_MaxSessions (st_limits s)
      then (s\<lparr>st_stats := (st_stats s)\<lparr>stat_TrackingDrops := stat_TrackingDrops (st_stats s) + 1,
                 stat_CapacityDrops := stat_CapacityDrops (st_stats s) + 1\<rparr>\<rparr>, Inl ErrRuntimeCapacity)
      else
        let i = fresh_session_id env s (rec_Identity r);
            v = new_session i r now;
            s = rememberIdentityLocked (s\<lparr>st_byID := fmupd i v (st_byID s)\<rparr>) i (rec_Identity r);
            (s, v) = indexLocked s v;
            s = s\<lparr>st_byID := fmupd i v (st_byID s)\<rparr>;
            s = s\<lparr>st_stats := (st_stats s)\<lparr>stat_Created := stat_Created (st_stats s) + 1,
                     stat_Active := of_nat (fmlen (st_byID s))\<rparr>,
                  st_revision := st_revision s + 1\<rparr> in
        (s, Inr (v, True, True)))"

definition merge_into ::
  "RuntimeStore \<Rightarrow> string \<Rightarrow> RuntimeSession \<Rightarrow> Record \<Rightarrow> gotime \<Rightarrow>
   RuntimeStore \<times> (StoreError + RuntimeSession \<times> bool \<times> bool)" where
  "merge_into s i existing r now =
     (case mergeLocked (rememberIdentityLocked s i (rec_Identity r)) i existing r now of
        (s, v, changed) \<Rightarrow> (s, Inr (v, False, changed)))"

text \<open>
  \<open>ApplyObserved\<close>: the identity, a live session of the same tuple, or a new session. Both ways to a
  live session are guarded; \<open>live_target\<close> is the session the record is merged into.
\<close>

definition identity_target :: "RuntimeStore \<Rightarrow> ConntrackIdentity \<Rightarrow> (string \<times> RuntimeSession) option" where
  "identity_target s identity =
     (let i = resolveIdentityLocked s identity in
      if i = '''' then None else map_option (Pair i) (fmlookup (st_byID s) i))"

definition tuple_target :: "RuntimeStore \<Rightarrow> Record \<Rightarrow> (string \<times> RuntimeSession) option" where
  "tuple_target s r =
     (case resolveTupleLocked s (identity_key (rec_Identity r) (rec_OriginalTuple r)) of
        TupleOk i \<Rightarrow>
          (case fmlookup (st_byID s) i of
             None \<Rightarrow> None
           | Some existing \<Rightarrow>
               if (ci_ID (rec_Identity r) = 0 \<or> ci_ID (rs_Identity existing) = 0
                   \<or> ci_ID (rec_Identity r) = ci_ID (rs_Identity existing))
                  \<and> (ci_KernelStart (rec_Identity r) = 0 \<or> ci_KernelStart (rs_Identity existing) = 0
                     \<or> ci_KernelStart (rec_Identity r) = ci_KernelStart (rs_Identity existing))
               then Some (i, existing) else None)
      | _ \<Rightarrow> None)"

definition ApplyObserved ::
  "Env \<Rightarrow> RuntimeStore \<Rightarrow> Record \<Rightarrow> gotime \<Rightarrow>
   RuntimeStore \<times> (StoreError + RuntimeSession \<times> bool \<times> bool)" where
  "ApplyObserved env s record now =
     (let r = complete_record record in
      if \<not> Tuple_Valid (rec_OriginalTuple r) then (s, Inl ErrIdentityMissing)
      else
        let now = (if now = 0 then env_Now env else now) in
        (case identity_target s (rec_Identity r) of
           Some (i, existing) \<Rightarrow> merge_into s i existing r now
         | None \<Rightarrow>
             if list_ex (\<lambda>t. tombstoneIdentityMatches (tb_Identity t) (rec_Identity r)) (st_tombstones s)
             then (s, Inl ErrStaleEvent)
             else
               (case tuple_target s r of
                  Some (i, existing) \<Rightarrow> merge_into s i existing r now
                | None \<Rightarrow> create_session env s r now)))"

definition Apply ::
  "Env \<Rightarrow> RuntimeStore \<Rightarrow> Record \<Rightarrow> gotime \<Rightarrow> RuntimeStore \<times> (StoreError + RuntimeSession \<times> bool)" where
  "Apply env s record now =
     (case ApplyObserved env s record now of
        (s, Inl e) \<Rightarrow> (s, Inl e)
      | (s, Inr (v, created, _)) \<Rightarrow> (s, Inr (v, created)))"

section \<open>Lookups\<close>

definition HasActiveKernelKey :: "RuntimeStore \<Rightarrow> ConntrackIdentity \<Rightarrow> bool" where
  "HasActiveKernelKey s identity =
     fBex (fmran (st_byID s)) (\<lambda>current. let candidate = rs_Identity current in
       ci_NetworkNS candidate = ci_NetworkNS identity \<and> ci_Zone candidate = ci_Zone identity
       \<and> ci_Family candidate = ci_Family identity \<and> ci_ID candidate = ci_ID identity
       \<and> ci_Original candidate = ci_Original identity)"

definition HasActiveRevokedConntrackID :: "RuntimeStore \<Rightarrow> u32 \<Rightarrow> bool" where
  "HasActiveRevokedConntrackID s i =
     (if i = 0 then False
      else fBex (fmran (st_byID s)) (\<lambda>current. ci_ID (rs_Identity current) = i \<and> rs_Revoked current))"

definition Resolve :: "RuntimeStore \<Rightarrow> Key \<Rightarrow> StoreError + RuntimeSession" where
  "Resolve s tuple =
     (case resolveTupleLocked s tuple of
        TupleAmbiguous \<Rightarrow> Inl ErrAliasAmbiguous
      | TupleMissing \<Rightarrow> Inl ErrSessionMissing
      | TupleOk i \<Rightarrow>
          (case fmlookup (st_byID s) i of None \<Rightarrow> Inl ErrSessionMissing | Some v \<Rightarrow> Inr v))"

definition ResolveIdentity :: "RuntimeStore \<Rightarrow> ConntrackIdentity \<Rightarrow> StoreError + RuntimeSession" where
  "ResolveIdentity s identity =
     (if \<not> Tuple_Valid (ci_Original identity) \<or> ci_ID identity = 0 \<and> ci_KernelStart identity = 0
      then Inl ErrIdentityMissing
      else
        (case fmlookup (st_byID s) (resolveIdentityLocked s identity) of
           None \<Rightarrow> Inl ErrSessionMissing
         | Some v \<Rightarrow>
             if ci_ID identity \<noteq> 0 \<and> ci_ID (rs_Identity v) \<noteq> ci_ID identity
             then Inl ErrSessionMissing else Inr v))"

definition Get :: "RuntimeStore \<Rightarrow> string \<Rightarrow> RuntimeSession option" where
  "Get s i = fmlookup (st_byID s) i"

section \<open>Closing sessions and the closed history\<close>

definition trimClosedLocked :: "RuntimeStore \<Rightarrow> RuntimeStore" where
  "trimClosedLocked s =
     (let excess = int (length (st_closed s)) - rl_MaxClosed (st_limits s);
          s = (if excess > 0
               then s\<lparr>st_closed := drop (nat excess) (st_closed s),
                      st_stats := (st_stats s)\<lparr>stat_HistoryEvictions :=
                        stat_HistoryEvictions (st_stats s) + word_of_int excess\<rparr>\<rparr>
               else s);
          excess = int (length (st_tombstones s)) - rl_MaxClosed (st_limits s) in
      if excess > 0 then s\<lparr>st_tombstones := drop (nat excess) (st_tombstones s)\<rparr> else s)"

definition appendClosedLocked :: "RuntimeStore \<Rightarrow> RuntimeSession \<Rightarrow> tombstone \<Rightarrow> RuntimeStore" where
  "appendClosedLocked s v tomb =
     trimClosedLocked (s\<lparr>st_closed := st_closed s @ [v], st_tombstones := st_tombstones s @ [tomb]\<rparr>)"

definition pruneClosedLocked :: "RuntimeStore \<Rightarrow> gotime \<Rightarrow> RuntimeStore" where
  "pruneClosedLocked s now =
     (let cutoff = now - rl_ClosedTTL (st_limits s);
          kept = filter (\<lambda>v. case rs_ClosedAt v of None \<Rightarrow> False | Some t \<Rightarrow> t > cutoff) (st_closed s);
          tombs = filter (\<lambda>t. tb_At t > cutoff) (st_tombstones s) in
      s\<lparr>st_stats := (st_stats s)\<lparr>stat_HistoryExpired := stat_HistoryExpired (st_stats s)
             + of_nat (length (st_closed s) - length kept)\<rparr>,
        st_closed := kept, st_tombstones := tombs\<rparr>)"

definition PruneClosed :: "RuntimeStore \<Rightarrow> gotime \<Rightarrow> RuntimeStore" where
  "PruneClosed s now = pruneClosedLocked s now"

definition SetInspectionHistoryLimits :: "Env \<Rightarrow> RuntimeStore \<Rightarrow> int \<Rightarrow> duration \<Rightarrow> RuntimeStore" where
  "SetInspectionHistoryLimits env s maxItems ttl =
     (let maxItems = (if maxItems \<le> 0 then st_baseHistoryMax s else maxItems);
          ttl = (if ttl \<le> 0 then st_baseHistoryTTL s else ttl) in
      trimClosedLocked (pruneClosedLocked
        (s\<lparr>st_limits := (st_limits s)\<lparr>rl_MaxClosed := maxItems, rl_ClosedTTL := ttl\<rparr>\<rparr>) (env_Now env)))"

text \<open>
  The tail shared by \<open>closeLocked\<close>, \<open>Delete\<close> and \<open>ReconcileMissing\<close>: record the closed session and
  its tombstone, drop its indexes and the session itself.
\<close>

definition retire :: "RuntimeStore \<Rightarrow> string \<Rightarrow> RuntimeSession \<Rightarrow> gotime \<Rightarrow> RuntimeStore" where
  "retire s i v now =
     (let s = appendClosedLocked s v \<lparr>tb_ID = i, tb_Identity = rs_Identity v, tb_At = now\<rparr>;
          s = removeIndexesLocked s i in
      s\<lparr>st_byID := fmdrop i (st_byID s)\<rparr>)"

definition count_closed :: "RuntimeStore \<Rightarrow> nat \<Rightarrow> RuntimeStore" where
  "count_closed s n =
     s\<lparr>st_stats := (st_stats s)\<lparr>stat_Closed := stat_Closed (st_stats s) + of_nat n,
                                 stat_Active := of_nat (fmlen (st_byID s))\<rparr>,
       st_revision := st_revision s + 1\<rparr>"

definition set_reason :: "string \<Rightarrow> RuntimeSession \<Rightarrow> RuntimeSession" where
  "set_reason reason v = v\<lparr>rs_Quality := (rs_Quality v)\<lparr>q_Reason := reason\<rparr>\<rparr>"

definition closeLocked ::
  "RuntimeStore \<Rightarrow> string \<Rightarrow> RuntimeSession \<Rightarrow> string \<Rightarrow> gotime \<Rightarrow> RuntimeStore \<times> RuntimeSession" where
  "closeLocked s i v reason now =
     (let v = v\<lparr>rs_State := SessionClosed, rs_ClosedAt := Some now, rs_Revision := rs_Revision v + 1\<rparr>;
          v = (if reason \<noteq> '''' then set_reason reason v else v) in
      (count_closed (retire s i v now) 1, v))"

definition close_allowed :: "ConntrackIdentity \<Rightarrow> RuntimeSession \<Rightarrow> bool" where
  "close_allowed identity v \<longleftrightarrow>
     \<not> known_conflict (ci_KernelStart identity) (ci_KernelStart (rs_Identity v))
     \<and> \<not> known_conflict (ci_ID identity) (ci_ID (rs_Identity v))
     \<and> \<not> name_conflict (ci_BootID identity) (ci_BootID (rs_Identity v))
     \<and> \<not> name_conflict (ci_NetworkNS identity) (ci_NetworkNS (rs_Identity v))
     \<and> \<not> (Tuple_Valid (ci_Original identity) \<and> rs_OriginalTuple v \<noteq> ci_Original identity)"

text \<open>The session a DESTROY names: by identity, else, for an identity without an ID, by tuple.\<close>

definition close_target :: "RuntimeStore \<Rightarrow> ConntrackIdentity \<Rightarrow> string" where
  "close_target s identity =
     (let i = resolveIdentityLocked s identity in
      if i \<noteq> '''' then i
      else if ci_ID identity \<noteq> 0 then ''''
      else if Tuple_Valid (ci_Original identity)
         \<and> list_ex (\<lambda>t. tombstoneIdentityMatches (tb_Identity t) identity) (st_tombstones s) then ''''
      else
        (case resolveTupleLocked s (identity_key identity (ci_Original identity)) of
           TupleOk i \<Rightarrow> i | _ \<Rightarrow> ''''))"

definition Close ::
  "Env \<Rightarrow> RuntimeStore \<Rightarrow> ConntrackIdentity \<Rightarrow> string \<Rightarrow> gotime \<Rightarrow> RuntimeStore \<times> RuntimeSession option" where
  "Close env s identity reason now =
     (let i = close_target s identity in
      if i = '''' then (s, None)
      else
        (case fmlookup (st_byID s) i of
           None \<Rightarrow> (s\<lparr>st_byIdentity := fmdrop identity (st_byIdentity s)\<rparr>, None)
         | Some v \<Rightarrow>
             if \<not> close_allowed identity v then (s, None)
             else
               (case closeLocked s i v reason (if now = 0 then env_Now env else now) of
                  (s, closed) \<Rightarrow> (s, Some closed))))"

definition Delete :: "Env \<Rightarrow> RuntimeStore \<Rightarrow> string \<Rightarrow> string \<Rightarrow> gotime \<Rightarrow> RuntimeStore \<times> StoreError option" where
  "Delete env s i reason now =
     (case fmlookup (st_byID s) i of
        None \<Rightarrow> (s, Some ErrSessionMissing)
      | Some v \<Rightarrow>
          let closedAt = (if now = 0 then env_Now env else now);
              v = set_reason reason (v\<lparr>rs_State := SessionClosed, rs_ClosedAt := Some closedAt\<rparr>) in
          (count_closed (retire s i v closedAt) 1, None))"

text \<open>
  \<open>ReconcileMissing\<close> ranges over the session map while it deletes from it; \<open>order\<close> is the order of
  that iteration.
\<close>

definition reconcile_victim :: "string fset \<Rightarrow> gotime \<Rightarrow> string \<Rightarrow> RuntimeSession \<Rightarrow> bool" where
  "reconcile_victim seenIDs before i v \<longleftrightarrow> i |\<notin>| seenIDs \<and> \<not> rs_LastObservedAt v > before"

definition reconcile_close :: "gotime \<Rightarrow> string \<Rightarrow> RuntimeSession \<Rightarrow> RuntimeSession" where
  "reconcile_close now reason v =
     (let v = v\<lparr>rs_State := SessionClosed, rs_ClosedAt := Some now, rs_CacheState := CacheInvalidated,
            rs_KernelCacheVerified := False\<rparr>;
          v = (if reason \<noteq> '''' then set_reason reason v else v) in
      v\<lparr>rs_Revision := rs_Revision v + 1\<rparr>)"

fun reconcile_loop ::
  "string fset \<Rightarrow> gotime \<Rightarrow> gotime \<Rightarrow> string \<Rightarrow> string list \<Rightarrow> RuntimeStore \<Rightarrow>
   RuntimeStore \<times> RuntimeSession list" where
  "reconcile_loop seenIDs before now reason [] s = (s, [])"
| "reconcile_loop seenIDs before now reason (i # order) s =
     (case fmlookup (st_byID s) i of
        None \<Rightarrow> reconcile_loop seenIDs before now reason order s
      | Some v \<Rightarrow>
          if \<not> reconcile_victim seenIDs before i v
          then reconcile_loop seenIDs before now reason order s
          else
            (case reconcile_loop seenIDs before now reason order
                    (retire s i (reconcile_close now reason v) now) of
               (s, removed) \<Rightarrow> (s, reconcile_close now reason v # removed)))"

definition seen_ids :: "RuntimeStore \<Rightarrow> ConntrackIdentity list \<Rightarrow> string fset" where
  "seen_ids s seen = fset_of_list (filter (\<lambda>i. i \<noteq> '''') (map (resolveIdentityLocked s) seen))"

definition ReconcileMissing ::
  "Env \<Rightarrow> string list \<Rightarrow> RuntimeStore \<Rightarrow> ConntrackIdentity list \<Rightarrow> gotime \<Rightarrow> gotime \<Rightarrow> string \<Rightarrow>
   RuntimeStore \<times> RuntimeSession list" where
  "ReconcileMissing env order s seen before now reason =
     (let before = (if before = 0 then env_Now env else before);
          now = (if now = 0 then env_Now env else now) in
      case reconcile_loop (seen_ids s seen) before now reason order s of
        (s, removed) \<Rightarrow> (if removed \<noteq> [] then count_closed s (length removed) else s, removed))"

section \<open>Decisions\<close>

definition guardApplied :: "RuntimeSession \<Rightarrow> bool" where
  "guardApplied v =
     (case rs_Inspection v of
        None \<Rightarrow> False
      | Some i \<Rightarrow> enf_Mechanism (si_Enforcement i) = EnforcementNFTSessionGuard
          \<and> enf_Status (si_Enforcement i) = EnforcementApplied
          \<and> enf_RequestedAction (si_Enforcement i) = DecisionDrop)"

definition put_session :: "RuntimeStore \<Rightarrow> string \<Rightarrow> RuntimeSession \<Rightarrow> RuntimeStore" where
  "put_session s i v = s\<lparr>st_byID := fmupd i v (st_byID s), st_revision := st_revision s + 1\<rparr>"

definition count_invalidated :: "RuntimeStore \<Rightarrow> RuntimeStore" where
  "count_invalidated s =
     s\<lparr>st_stats := (st_stats s)\<lparr>stat_Invalidated := stat_Invalidated (st_stats s) + 1\<rparr>\<rparr>"

definition invalidated :: "u64 \<Rightarrow> string \<Rightarrow> gotime \<Rightarrow> RuntimeSession \<Rightarrow> RuntimeSession" where
  "invalidated generation reason now v =
     (let held = rs_Revoked v \<or> guardApplied v;
          v = v\<lparr>rs_CacheState := CacheInvalidated, rs_KernelCacheVerified := False, rs_MatchedPolicyID := '''',
                rs_Decision := (if held then DecisionDrop else ''''),
                rs_EffectiveDecision := (if held then DecisionDrop else ''''),
                rs_DecisionReason := (if held then rs_DecisionReason v else ''''),
                rs_InvalidatedAt := Some now, rs_InvalidationReason := reason,
                rs_PolicyGeneration := generation\<rparr> in
      v\<lparr>rs_DecisionGeneration := rs_DecisionGeneration v + 1, rs_Revision := rs_Revision v + 1\<rparr>)"

definition Invalidate ::
  "RuntimeStore \<Rightarrow> string \<Rightarrow> u64 \<Rightarrow> string \<Rightarrow> gotime \<Rightarrow> RuntimeStore \<times> (StoreError + RuntimeSession)" where
  "Invalidate s i generation reason now =
     (case fmlookup (st_byID s) i of
        None \<Rightarrow> (s, Inl ErrSessionMissing)
      | Some v \<Rightarrow>
          let v = invalidated generation reason now v in
          (count_invalidated (put_session s i v), Inr v))"

definition decided :: "u64 \<Rightarrow> Decision \<Rightarrow> string \<Rightarrow> string \<Rightarrow> RuntimeSession \<Rightarrow> RuntimeSession" where
  "decided generation action policyID reason v =
     v\<lparr>rs_MatchedPolicyID := policyID, rs_PolicyGeneration := generation,
       rs_DecisionGeneration := rs_DecisionGeneration v + 1, rs_Decision := action,
       rs_EffectiveDecision := (if rs_Revoked v \<or> guardApplied v then DecisionDrop else action),
       rs_DecisionReason := reason, rs_CacheState := CacheCached, rs_InvalidatedAt := None,
       rs_InvalidationReason := '''', rs_Revision := rs_Revision v + 1\<rparr>"

definition setDecision ::
  "RuntimeStore \<Rightarrow> string \<Rightarrow> u64 \<Rightarrow> u64 \<Rightarrow> Decision \<Rightarrow> string \<Rightarrow> string \<Rightarrow>
   RuntimeStore \<times> (StoreError + RuntimeSession)" where
  "setDecision s i expectedRevision generation action policyID reason =
     (case fmlookup (st_byID s) i of
        None \<Rightarrow> (s, Inl ErrSessionMissing)
      | Some v \<Rightarrow>
          if expectedRevision \<noteq> 0 \<and> rs_Revision v \<noteq> expectedRevision \<or> rs_Revoked v
             \<or> rs_PolicyGeneration v > generation
          then (s, Inl ErrStaleDecision)
          else
            let v = decided generation action policyID reason v in
            (put_session s i v, Inr v))"

definition SetDecision ::
  "RuntimeStore \<Rightarrow> string \<Rightarrow> u64 \<Rightarrow> Decision \<Rightarrow> string \<Rightarrow> string \<Rightarrow>
   RuntimeStore \<times> (StoreError + RuntimeSession)" where
  "SetDecision s i generation action policyID reason = setDecision s i 0 generation action policyID reason"

definition SetDecisionIfCurrent ::
  "RuntimeStore \<Rightarrow> string \<Rightarrow> u64 \<Rightarrow> u64 \<Rightarrow> Decision \<Rightarrow> string \<Rightarrow> string \<Rightarrow>
   RuntimeStore \<times> (StoreError + RuntimeSession)" where
  "SetDecisionIfCurrent s i expectedRevision generation action policyID reason =
     setDecision s i expectedRevision generation action policyID reason"

definition unavailable :: "u64 \<Rightarrow> string \<Rightarrow> RuntimeSession \<Rightarrow> RuntimeSession" where
  "unavailable generation reason v =
     v\<lparr>rs_MatchedPolicyID := '''', rs_PolicyGeneration := generation,
       rs_DecisionGeneration := rs_DecisionGeneration v + 1, rs_Decision := '''',
       rs_EffectiveDecision := '''', rs_DecisionReason := reason, rs_CacheState := CacheNotEvaluated,
       rs_KernelCacheVerified := False, rs_InvalidatedAt := None, rs_InvalidationReason := '''',
       rs_Revision := rs_Revision v + 1\<rparr>"

definition MarkEvaluationUnavailable ::
  "RuntimeStore \<Rightarrow> string \<Rightarrow> u64 \<Rightarrow> string \<Rightarrow> RuntimeStore \<times> (StoreError + RuntimeSession)" where
  "MarkEvaluationUnavailable s i generation reason =
     (case fmlookup (st_byID s) i of
        None \<Rightarrow> (s, Inl ErrSessionMissing)
      | Some v \<Rightarrow>
          if rs_CacheState v = CacheNotEvaluated \<and> rs_PolicyGeneration v = generation
             \<and> rs_Decision v = '''' \<and> rs_EffectiveDecision v = '''' \<and> rs_DecisionReason v = reason
          then (s, Inr v)
          else let v = unavailable generation reason v in (put_session s i v, Inr v))"

definition revoked :: "u64 \<Rightarrow> string \<Rightarrow> gotime \<Rightarrow> RuntimeSession \<Rightarrow> RuntimeSession" where
  "revoked generation reason clock v =
     v\<lparr>rs_Revoked := True, rs_CacheState := CacheInvalidated, rs_KernelCacheVerified := False,
       rs_PolicyGeneration := generation, rs_InvalidationReason := reason, rs_InvalidatedAt := Some clock,
       rs_Decision := DecisionDrop, rs_EffectiveDecision := DecisionDrop, rs_DecisionReason := reason,
       rs_DecisionGeneration := rs_DecisionGeneration v + 1, rs_Revision := rs_Revision v + 1\<rparr>"

definition MarkRevoked ::
  "Env \<Rightarrow> RuntimeStore \<Rightarrow> string \<Rightarrow> u64 \<Rightarrow> string \<Rightarrow> RuntimeStore \<times> (StoreError + RuntimeSession)" where
  "MarkRevoked env s i generation reason =
     (case fmlookup (st_byID s) i of
        None \<Rightarrow> (s, Inl ErrSessionMissing)
      | Some v \<Rightarrow>
          let v = revoked generation reason (env_Now env) v in
          (count_invalidated (put_session s i v), Inr v))"

definition SetZones ::
  "RuntimeStore \<Rightarrow> string \<Rightarrow> string \<Rightarrow> string \<Rightarrow> RuntimeStore \<times> (StoreError + RuntimeSession)" where
  "SetZones s i source destination =
     (case fmlookup (st_byID s) i of
        None \<Rightarrow> (s, Inl ErrSessionMissing)
      | Some v \<Rightarrow>
          if rs_SourceZone v = source \<and> rs_DestinationZone v = destination then (s, Inr v)
          else
            let v = v\<lparr>rs_SourceZone := source, rs_DestinationZone := destination,
                      rs_Revision := rs_Revision v + 1\<rparr> in
            (put_session s i v, Inr v))"

section \<open>Inspection results\<close>

definition updateInspectionLocked ::
  "RuntimeStore \<Rightarrow> string \<Rightarrow> RuntimeSession \<Rightarrow> SessionInspection \<Rightarrow> u64 \<Rightarrow> RuntimeStore \<times> RuntimeSession" where
  "updateInspectionLocked s i current next revision =
     (let next = next\<lparr>si_Revision := revision\<rparr>;
          v = current\<lparr>rs_Inspection := Some next\<rparr>;
          v = v\<lparr>rs_EffectiveDecision :=
                 (if rs_Revoked v then DecisionDrop else if guardApplied v then DecisionDrop
                  else rs_Decision v),
                rs_Revision := rs_Revision v + 1\<rparr> in
      (put_session s i v, v))"

definition UpdateInspection ::
  "RuntimeStore \<Rightarrow> string \<Rightarrow> ConntrackIdentity \<Rightarrow> u64 \<Rightarrow> u64 \<Rightarrow> SessionInspection \<Rightarrow>
   RuntimeStore \<times> (StoreError + RuntimeSession)" where
  "UpdateInspection s i identity expectedGeneration expectedInspectionRevision next =
     (case fmlookup (st_byID s) i of
        None \<Rightarrow> (s, Inl ErrSessionMissing)
      | Some current \<Rightarrow>
          if \<not> tombstoneIdentityMatches (rs_Identity current) identity
             \<or> known_conflict (ci_ID identity) (ci_ID (rs_Identity current))
          then (s, Inl ErrStaleInspection)
          else if rs_PolicyGeneration current > expectedGeneration
             \<or> (case rs_Inspection current of None \<Rightarrow> False | Some x \<Rightarrow> si_Generation x > expectedGeneration)
             \<or> si_Generation next \<noteq> expectedGeneration
          then (s, Inl ErrStaleGeneration)
          else
            let revision = (case rs_Inspection current of None \<Rightarrow> 0 | Some x \<Rightarrow> si_Revision x) in
            if revision \<noteq> expectedInspectionRevision \<or> revision = - 1
            then (s, Inl ErrStaleInspection)
            else
              (case updateInspectionLocked s i current next (expectedInspectionRevision + 1) of
                 (s, v) \<Rightarrow> (s, Inr v)))"

definition CompleteInspectionIntent ::
  "RuntimeStore \<Rightarrow> InspectionIntent \<Rightarrow> EnforcementResult \<Rightarrow> RuntimeStore \<times> (StoreError + RuntimeSession)" where
  "CompleteInspectionIntent s intent result =
     (case fmlookup (st_byID s) (int_SessionID intent) of
        None \<Rightarrow> (s, Inl ErrSessionMissing)
      | Some current \<Rightarrow>
          (case rs_Inspection current of
             None \<Rightarrow> (s, Inl ErrStaleInspection)
           | Some inspection \<Rightarrow>
               if \<not> MatchesSession intent current (int_Generation intent) \<or> si_Revision inspection = - 1
               then (s, Inl ErrStaleInspection)
               else
                 (case updateInspectionLocked s (int_SessionID intent) current
                         (inspection\<lparr>si_Enforcement := result\<rparr>) (si_Revision inspection + 1) of
                    (s, v) \<Rightarrow> (s, Inr v))))"

section \<open>Listing and paging\<close>

text \<open>
  The map is ranged over in an unspecified order and the result is sorted by creation time and
  identifier. The model ranges in the order of the keys; identifiers are distinct, so every order
  sorts to the same list.
\<close>

definition sessions_in :: "RuntimeStore \<Rightarrow> string list \<Rightarrow> RuntimeSession list" where
  "sessions_in s order = List.map_filter (fmlookup (st_byID s)) order"

definition session_order :: "RuntimeSession \<Rightarrow> gotime \<times> string" where
  "session_order v = (rs_CreatedAt v, rs_SessionID v)"

definition List_in :: "string list \<Rightarrow> RuntimeStore \<Rightarrow> RuntimeSession list" where
  "List_in order s = sort_key session_order (sessions_in s order)"

definition List_sessions :: "RuntimeStore \<Rightarrow> RuntimeSession list" where
  "List_sessions s = List_in (sorted_list_of_fset (fmdom (st_byID s))) s"

definition matchesTuple :: "SessionFilter \<Rightarrow> Tuple \<Rightarrow> bool" where
  "matchesTuple f t \<longleftrightarrow>
     \<not> (sf_SourceIP f \<noteq> '''' \<and> \<not> EqualFold (Addr_String (SrcIP t)) (sf_SourceIP f))
     \<and> \<not> (sf_DestinationIP f \<noteq> '''' \<and> \<not> EqualFold (Addr_String (DstIP t)) (sf_DestinationIP f))
     \<and> \<not> (sf_Protocol f \<noteq> 0 \<and> Protocol t \<noteq> sf_Protocol f)"

definition matches :: "RuntimeSession \<Rightarrow> SessionFilter \<Rightarrow> bool" where
  "matches v f \<longleftrightarrow>
     (let original = matchesTuple f (rs_OriginalTuple v);
          translated = (case rs_TranslatedTuple v of None \<Rightarrow> False | Some t \<Rightarrow> matchesTuple f t) in
      if sf_TupleView f = ''translated'' then translated
      else if sf_TupleView f = ''any'' then original \<or> translated
      else original)
     \<and> \<not> (sf_SourceZone f \<noteq> '''' \<and> \<not> EqualFold (rs_SourceZone v) (sf_SourceZone f))
     \<and> \<not> (sf_DestinationZone f \<noteq> '''' \<and> \<not> EqualFold (rs_DestinationZone v) (sf_DestinationZone f))
     \<and> \<not> (sf_State f \<noteq> '''' \<and> rs_State v \<noteq> sf_State f)
     \<and> \<not> (sf_Decision f \<noteq> '''' \<and> rs_EffectiveDecision v \<noteq> sf_Decision f \<and> rs_Decision v \<noteq> sf_Decision f)"

definition page_size :: "Page \<Rightarrow> int" where
  "page_size page =
     (let size = (if pg_Size page \<le> 0 then 100 else pg_Size page) in if size > 500 then 500 else size)"

definition page_number :: "Page \<Rightarrow> int" where
  "page_number page = (if pg_Number page \<le> 0 then 1 else pg_Number page)"

text \<open>
  The product of page number and size wraps at 64 bits. A negative start makes the slice
  expression panic, which is the result None.
\<close>

definition Query_in :: "Env \<Rightarrow> string list \<Rightarrow> RuntimeStore \<Rightarrow> SessionFilter \<Rightarrow> Page \<Rightarrow> PageResult option" where
  "Query_in env order s f page =
     (let filtered = sort_key session_order (filter (\<lambda>v. matches v f) (sessions_in s order));
          total = int (length filtered);
          size = page_size page;
          number = page_number page;
          start = wrapInt64 ((number - 1) * size);
          start = (if start > total then total else start);
          stop = wrapInt64 (start + size);
          stop = (if stop > total then total else stop) in
      if start < 0 \<or> stop < start then None
      else Some \<lparr>pgr_Items = take (nat (stop - start)) (drop (nat start) filtered), pgr_Page = number,
       pgr_PageSize = size, pgr_Total = total, pgr_HasMore = (stop < total),
       pgr_StoreRevision = st_revision s, pgr_SnapshotTime = env_Now env\<rparr>)"

definition Query :: "Env \<Rightarrow> RuntimeStore \<Rightarrow> SessionFilter \<Rightarrow> Page \<Rightarrow> PageResult option" where
  "Query env s f page = Query_in env (sorted_list_of_fset (fmdom (st_byID s))) s f page"

section \<open>Expiry\<close>

text \<open>
  \<open>ExpiredCandidates\<close> takes the read lock twice, so the second part may see a later store: the
  two parts are separate functions and the second takes its own store.
\<close>

definition expired_by :: "gotime \<Rightarrow> RuntimeSession \<Rightarrow> bool" where
  "expired_by now v = (case rs_ExpiresAt v of None \<Rightarrow> False | Some t \<Rightarrow> \<not> t > now)"

definition retry_blocked :: "RuntimeStore \<Rightarrow> gotime \<Rightarrow> string \<Rightarrow> bool" where
  "retry_blocked s now i = (case fmlookup (st_expiryRetryAfter s) i of None \<Rightarrow> 0 > now | Some t \<Rightarrow> t > now)"

definition expiry_scan :: "RuntimeStore \<Rightarrow> gotime \<Rightarrow> string list \<Rightarrow> (gotime \<times> string) list \<times> nat \<times> duration" where
  "expiry_scan s now order =
     (let expired = filter (\<lambda>(i, v). expired_by now v)
            (List.map_filter (\<lambda>i. map_option (Pair i) (fmlookup (st_byID s) i)) order);
          deadline = (\<lambda>v. case rs_ExpiresAt v of None \<Rightarrow> 0 | Some t \<Rightarrow> t) in
      (sort_key id (map (\<lambda>(i, v). (deadline v, i)) (filter (\<lambda>(i, v). \<not> retry_blocked s now i) expired)),
       length expired,
       fold (\<lambda>(i, v) oldest. max oldest (time_sub now (deadline v))) expired 0))"

definition still_due :: "RuntimeStore \<Rightarrow> gotime \<Rightarrow> gotime \<times> string \<Rightarrow> RuntimeSession option" where
  "still_due s now entry =
     (case fmlookup (st_byID s) (snd entry) of
        None \<Rightarrow> None
      | Some v \<Rightarrow>
          if rs_ExpiresAt v = Some (fst entry) \<and> expired_by now v \<and> \<not> retry_blocked s now (snd entry)
          then Some v else None)"

definition ExpiredCandidates_in ::
  "string list \<Rightarrow> RuntimeStore \<Rightarrow> RuntimeStore \<Rightarrow> gotime \<Rightarrow> int \<Rightarrow> RuntimeSession list \<times> nat \<times> duration" where
  "ExpiredCandidates_in order s s' now budget =
     (let budget = (if budget \<le> 0 then 512 else budget) in
      case expiry_scan s now order of
        (due, totalDue, oldest) \<Rightarrow>
          (take (nat budget) (List.map_filter (still_due s' now) due), totalDue, oldest))"

definition ExpiredCandidates :: "RuntimeStore \<Rightarrow> gotime \<Rightarrow> int \<Rightarrow> RuntimeSession list \<times> nat \<times> duration" where
  "ExpiredCandidates s now budget =
     ExpiredCandidates_in (sorted_list_of_fset (fmdom (st_byID s))) s s now budget"

definition expiryCandidateLocked :: "RuntimeStore \<Rightarrow> RuntimeSession \<Rightarrow> gotime \<Rightarrow> RuntimeSession option" where
  "expiryCandidateLocked s candidate now =
     (case fmlookup (st_byID s) (rs_SessionID candidate) of
        None \<Rightarrow> None
      | Some current \<Rightarrow>
          if rs_Identity current \<noteq> rs_Identity candidate \<or> rs_Revision current \<noteq> rs_Revision candidate
             \<or> rs_LastObservedAt current \<noteq> rs_LastObservedAt candidate
             \<or> rs_ExpiresAt current = None \<or> rs_ExpiresAt candidate = None
             \<or> rs_ExpiresAt current \<noteq> rs_ExpiresAt candidate \<or> \<not> expired_by now current
          then None else Some current)"

definition ExpiryCandidateCurrent :: "RuntimeStore \<Rightarrow> RuntimeSession \<Rightarrow> gotime \<Rightarrow> bool" where
  "ExpiryCandidateCurrent s candidate now \<longleftrightarrow> expiryCandidateLocked s candidate now \<noteq> None"

definition CloseVerifiedExpired ::
  "RuntimeStore \<Rightarrow> RuntimeSession \<Rightarrow> gotime \<Rightarrow> RuntimeStore \<times> RuntimeSession option" where
  "CloseVerifiedExpired s candidate now =
     (case expiryCandidateLocked s candidate now of
        None \<Rightarrow> (s, None)
      | Some current \<Rightarrow>
          (case closeLocked s (rs_SessionID candidate) current ''verified conntrack expiry'' now of
             (s, closed) \<Rightarrow> (s, Some closed)))"

definition DeferExpired :: "RuntimeStore \<Rightarrow> RuntimeSession \<Rightarrow> gotime \<Rightarrow> string \<Rightarrow> RuntimeStore \<times> bool" where
  "DeferExpired s candidate now reason =
     (case expiryCandidateLocked s candidate now of
        None \<Rightarrow> (s, False)
      | Some current \<Rightarrow>
          let s = s\<lparr>st_expiryRetryAfter :=
                fmupd (rs_SessionID current) (now + 30 * second) (st_expiryRetryAfter s)\<rparr> in
          (if q_TrackingStatus (rs_Quality current) \<noteq> TrackingStale
              \<or> q_Reason (rs_Quality current) \<noteq> reason
           then put_session s (rs_SessionID candidate)
                  (current\<lparr>rs_Quality := (rs_Quality current)\<lparr>q_TrackingStatus := TrackingStale,
                               q_Reason := reason\<rparr>,
                           rs_Revision := rs_Revision current + 1\<rparr>)
           else s, True))"

section \<open>Candidates of an observation\<close>

definition sessionOverlaps :: "RuntimeSession \<Rightarrow> gotime \<Rightarrow> bool" where
  "sessionOverlaps v observedAt =
     (if observedAt = 0 then True
      else if rs_CreatedAt v \<noteq> 0 \<and> observedAt < rs_CreatedAt v - 2 * second then False
      else (case rs_ClosedAt v of None \<Rightarrow> True | Some t \<Rightarrow> \<not> observedAt > t + 2 * second))"

definition sessionHasAlias :: "RuntimeSession \<Rightarrow> Key \<Rightarrow> bool" where
  "sessionHasAlias v wanted \<longleftrightarrow> wanted \<in> set (session_aliases v)"

definition candidate_limit :: "int \<Rightarrow> nat" where
  "candidate_limit limit = nat (if limit \<le> 0 \<or> limit > 8 then 8 else limit)"

text \<open>The loop that collects at most \<open>limit\<close> items and reports that another one was left.\<close>

definition take_limited :: "nat \<Rightarrow> 'a list \<Rightarrow> 'a list \<times> bool" where
  "take_limited limit xs = (take limit xs, length xs > limit)"

definition active_candidates :: "RuntimeStore \<Rightarrow> gotime \<Rightarrow> string list \<Rightarrow> RuntimeSession list" where
  "active_candidates s observedAt order =
     filter (\<lambda>v. sessionOverlaps v observedAt) (sessions_in s order)"

fun closed_candidates :: "Key \<Rightarrow> gotime \<Rightarrow> string list \<Rightarrow> RuntimeSession list \<Rightarrow> RuntimeSession list" where
  "closed_candidates key observedAt seen [] = []"
| "closed_candidates key observedAt seen (v # vs) =
     (if rs_SessionID v \<in> set seen \<or> \<not> sessionOverlaps v observedAt \<or> \<not> sessionHasAlias v key
      then closed_candidates key observedAt seen vs
      else v # closed_candidates key observedAt (rs_SessionID v # seen) vs)"

text \<open>
  \<open>order\<close> is the order in which the identifiers under the tuple are visited. The identifiers marked
  as seen in the source are the keys of the map; they equal the sessions' own identifiers.
\<close>

definition ResolveCandidates ::
  "string list \<Rightarrow> RuntimeStore \<Rightarrow> Key \<Rightarrow> gotime \<Rightarrow> int \<Rightarrow> RuntimeSession list \<times> bool" where
  "ResolveCandidates order s key observedAt limit =
     (let active = active_candidates s observedAt order;
          seen = filter (\<lambda>i. case fmlookup (st_byID s) i of None \<Rightarrow> False
                             | Some v \<Rightarrow> sessionOverlaps v observedAt) order in
      take_limited (candidate_limit limit)
        (active @ closed_candidates key observedAt seen (rev (st_closed s))))"

definition ResolveRecent :: "RuntimeStore \<Rightarrow> Key \<Rightarrow> gotime \<Rightarrow> int \<Rightarrow> RuntimeSession list \<times> bool" where
  "ResolveRecent s key observedAt limit =
     take_limited (candidate_limit limit)
       (filter (\<lambda>v. sessionOverlaps v observedAt \<and> sessionHasAlias v key) (rev (st_closed s)))"

section \<open>Counters\<close>

definition Stats :: "RuntimeStore \<Rightarrow> RuntimeStats" where
  "Stats s = (st_stats s)\<lparr>stat_Active := of_nat (fmlen (st_byID s))\<rparr>"

definition Revision :: "RuntimeStore \<Rightarrow> u64" where
  "Revision s = st_revision s"

definition Capacity :: "RuntimeStore \<Rightarrow> int" where
  "Capacity s = rl_MaxSessions (st_limits s)"

end
