(* ===== verification/Store_Invariant.thy ===== *)
theory Store_Invariant
imports Runtime_Store
begin

text \<open>
  The invariant of the session table and its preservation by every operation: the indexes by tuple,
  identity and conntrack key agree with the live sessions, and every bound holds.
\<close>

section \<open>The tuple index\<close>

lemma get_set_simps [simp]:
  "get_set fmempty k = {||}"
  "get_set (fmupd a x m) k = (if k = a then x else get_set m k)"
  "get_set (fmdrop a m) k = (if k = a then {||} else get_set m k)"
  by (simp_all add: get_set_def)

lemma get_list_simps [simp]:
  "get_list fmempty k = []"
  "get_list (fmupd a xs m) k = (if k = a then xs else get_list m k)"
  "get_list (fmdrop a m) k = (if k = a then [] else get_list m k)"
  by (simp_all add: get_list_def)

lemma get_list_Some: "fmlookup m k = Some xs \<Longrightarrow> get_list m k = xs"
  by (simp add: get_list_def)

lemma get_list_notin: "k |\<notin>| fmdom m \<Longrightarrow> get_list m k = []"
  by (simp add: get_list_def fmdom_notD)

definition tuple_inv :: "(Key, string fset) fmap \<Rightarrow> (string, Key list) fmap \<Rightarrow> bool" where
  "tuple_inv byTuple aliases \<longleftrightarrow>
     (\<forall>k i. i |\<in>| get_set byTuple k \<longleftrightarrow> k \<in> set (get_list aliases i))
     \<and> (\<forall>k. fmlookup byTuple k \<noteq> Some {||})"

lemma get_set_remove_alias:
  "get_set (remove_alias i a m) k = (if k = a then get_set m k |-| {|i|} else get_set m k)"
  by (auto simp: remove_alias_def Let_def)

lemma get_set_fold_remove_alias:
  "get_set (fold (remove_alias i) as m) k =
     (if k \<in> set as then get_set m k |-| {|i|} else get_set m k)"
  by (induction as arbitrary: m) (auto simp: get_set_remove_alias)

lemma remove_alias_nonempty:
  "\<forall>k. fmlookup m k \<noteq> Some {||} \<Longrightarrow> \<forall>k. fmlookup (remove_alias i a m) k \<noteq> Some {||}"
  by (auto simp: remove_alias_def Let_def)

lemma fold_remove_alias_nonempty:
  "\<forall>k. fmlookup m k \<noteq> Some {||} \<Longrightarrow> \<forall>k. fmlookup (fold (remove_alias i) as m) k \<noteq> Some {||}"
  by (induction as arbitrary: m) (auto dest: remove_alias_nonempty)

lemma get_set_fold_add_alias:
  "get_set (fold (add_alias i) as m) k = (if k \<in> set as then finsert i (get_set m k) else get_set m k)"
  by (induction as arbitrary: m) (auto simp: add_alias_def)

lemma fold_add_alias_nonempty:
  "\<forall>k. fmlookup m k \<noteq> Some {||} \<Longrightarrow> \<forall>k. fmlookup (fold (add_alias i) as m) k \<noteq> Some {||}"
  by (induction as arbitrary: m) (auto simp: add_alias_def)

lemma tuple_inv_remove:
  assumes "tuple_inv byTuple aliases"
  shows "tuple_inv (fold (remove_alias i) (get_list aliases i) byTuple) (fmdrop i aliases)"
  using assms fold_remove_alias_nonempty [of byTuple]
  by (auto simp: tuple_inv_def get_set_fold_remove_alias)

lemma tuple_inv_add:
  assumes "tuple_inv byTuple aliases" "i |\<notin>| fmdom aliases"
  shows "tuple_inv (fold (add_alias i) as byTuple) (fmupd i as aliases)"
  using assms fold_add_alias_nonempty [of byTuple]
  by (auto simp: tuple_inv_def get_set_fold_add_alias get_list_notin)

section \<open>The owner indexes\<close>

text \<open>
  \<open>byIdentity\<close> and \<open>byConntrack\<close> map a key to the session that owns it; the session's own list,
  of bounded length, contains every key it owns.
\<close>

definition owner_inv :: "int \<Rightarrow> string fset \<Rightarrow> (string, 'k list) fmap \<Rightarrow> ('k, string) fmap \<Rightarrow> bool" where
  "owner_inv limit D owned m \<longleftrightarrow>
     (\<forall>k i. fmlookup m k = Some i \<longrightarrow> i |\<in>| D \<and> k \<in> set (get_list owned i))
     \<and> fmdom owned |\<subseteq>| D
     \<and> (\<forall>i. distinct (get_list owned i) \<and> int (length (get_list owned i)) \<le> limit)"

lemma drop_if_owner_lookup:
  "fmlookup (drop_if_owner i k m) x = (if x = k \<and> fmlookup m k = Some i then None else fmlookup m x)"
  by (simp add: drop_if_owner_def)

lemma fold_drop_if_owner_lookup:
  "fmlookup (fold (drop_if_owner i) ks m) x =
     (if x \<in> set ks \<and> fmlookup m x = Some i then None else fmlookup m x)"
  by (induction ks arbitrary: m) (auto simp: drop_if_owner_lookup)

lemma owner_inv_remove:
  assumes "owner_inv limit D owned m"
  shows "owner_inv limit (D |-| {|i|}) (fmdrop i owned) (fold (drop_if_owner i) (get_list owned i) m)"
  using assms by (auto simp: owner_inv_def fold_drop_if_owner_lookup split: if_splits)

lemma owner_inv_mono: "owner_inv limit D owned m \<Longrightarrow> D |\<subseteq>| E \<Longrightarrow> owner_inv limit E owned m"
  unfolding owner_inv_def by blast

lemma owner_inv_insert: "owner_inv limit D owned m \<Longrightarrow> owner_inv limit (finsert i D) owned m"
  by (erule owner_inv_mono) auto

lemma trim_oldest_id: "int (length ks) \<le> limit \<Longrightarrow> trim_oldest limit i ks m = (ks, m)"
  by (cases ks) simp_all

lemma trim_oldest_one:
  assumes "int (length ks) \<le> limit" "1 \<le> limit"
  shows "trim_oldest limit i (ks @ [k]) m =
    (if int (length ks) < limit then (ks @ [k], m)
     else (tl ks @ [k], drop_if_owner i (hd ks) m))"
proof (cases ks)
  case (Cons x xs)
  with assms show ?thesis by (auto simp: trim_oldest_id)
qed (use assms in simp)

lemma owner_inv_remember_key:
  assumes inv: "owner_inv limit D owned m" and i: "i |\<in>| D" and lim: "1 \<le> limit"
    and res: "remember_key limit i k owned m = (owned', m')"
  shows "owner_inv limit D owned' m'" "fmlookup m' k = Some i"
    "fmlookup m' x = Some j \<Longrightarrow> x = k \<and> j = i \<or> fmlookup m x = Some j"
proof -
  have len: "int (length (get_list owned i)) \<le> limit" "distinct (get_list owned i)"
    using inv by (simp_all add: owner_inv_def)
  have "owner_inv limit D owned' m' \<and> fmlookup m' k = Some i
      \<and> (fmlookup m' x = Some j \<longrightarrow> x = k \<and> j = i \<or> fmlookup m x = Some j)"
  proof (cases "k \<in> set (get_list owned i)")
    case True
    then show ?thesis
      using res inv i by (auto simp: remember_key_def owner_inv_def split: if_splits)
  next
    case False
    show ?thesis
    proof (cases "int (length (get_list owned i)) < limit")
      case True
      then show ?thesis
        using res inv i False len lim
        by (auto simp: remember_key_def trim_oldest_one owner_inv_def split: if_splits)
    next
      case full: False
      then obtain y ys where ys: "get_list owned i = y # ys" using lim len by (cases "get_list owned i") auto
      then have "trim_oldest limit i (get_list owned i @ [k]) (fmupd k i m) =
          (ys @ [k], drop_if_owner i y (fmupd k i m))"
        using full trim_oldest_one [OF len(1) lim] by simp
      then have o: "owned' = fmupd i (ys @ [k]) owned" and m: "m' = drop_if_owner i y (fmupd k i m)"
        using res False by (auto simp: remember_key_def)
      have "y \<noteq> k" using False ys by auto
      have own: "x = y \<or> x \<in> set ys" if "fmlookup m x = Some i" for x
        using inv that ys by (fastforce simp: owner_inv_def)
      have "owner_inv limit D owned' m'"
        using inv i False len lim full \<open>y \<noteq> k\<close>
        unfolding o m owner_inv_def drop_if_owner_lookup
        by (auto simp: ys dest: own split: if_splits)
      then show ?thesis
        using \<open>y \<noteq> k\<close> by (auto simp: m drop_if_owner_lookup split: if_splits)
    qed
  qed
  then show "owner_inv limit D owned' m'" "fmlookup m' k = Some i"
    "fmlookup m' x = Some j \<Longrightarrow> x = k \<and> j = i \<or> fmlookup m x = Some j"
    by blast+
qed

section \<open>The invariant\<close>

definition live_state :: "SessionState \<Rightarrow> bool" where
  "live_state st \<longleftrightarrow> st \<in> {SessionNew, SessionEstablished, SessionClosing}"

definition live_ok :: "int \<Rightarrow> (string, Key list) fmap \<Rightarrow> string \<Rightarrow> RuntimeSession \<Rightarrow> bool" where
  "live_ok limit aliases i v \<longleftrightarrow>
     i \<noteq> '''' \<and> rs_SessionID v = i \<and> live_state (rs_State v) \<and> rs_ClosedAt v = None
     \<and> fmlookup aliases i = Some (take (nat limit) (session_aliases v))"

definition limits_ok :: "RuntimeLimits \<Rightarrow> bool" where
  "limits_ok l \<longleftrightarrow> 1 \<le> rl_MaxSessions l \<and> 1 \<le> rl_MaxAliases l \<and> 1 \<le> rl_MaxClosed l
     \<and> 1 \<le> rl_MaxAmbiguity l"

definition closed_ok :: "RuntimeSession \<Rightarrow> bool" where
  "closed_ok v \<longleftrightarrow> rs_State v = SessionClosed \<and> rs_ClosedAt v \<noteq> None"

definition index_inv :: "RuntimeStore \<Rightarrow> bool" where
  "index_inv s \<longleftrightarrow>
     limits_ok (st_limits s)
     \<and> (\<forall>i v. fmlookup (st_byID s) i = Some v \<longrightarrow>
          live_ok (rl_MaxAliases (st_limits s)) (st_aliasesBySession s) i v)
     \<and> fmdom (st_aliasesBySession s) = fmdom (st_byID s)
     \<and> tuple_inv (st_byTuple s) (st_aliasesBySession s)
     \<and> owner_inv (rl_MaxAliases (st_limits s)) (fmdom (st_byID s)) (st_identitiesBySession s) (st_byIdentity s)
     \<and> owner_inv (rl_MaxAliases (st_limits s)) (fmdom (st_byID s)) (st_conntracksBySession s) (st_byConntrack s)
     \<and> fmdom (st_expiryRetryAfter s) |\<subseteq>| fmdom (st_byID s)
     \<and> int (fmlen (st_byID s)) \<le> rl_MaxSessions (st_limits s)"

definition history_inv :: "RuntimeStore \<Rightarrow> bool" where
  "history_inv s \<longleftrightarrow>
     1 \<le> rl_MaxClosed (st_limits s) \<and> 1 \<le> st_baseHistoryMax s
     \<and> int (length (st_closed s)) \<le> rl_MaxClosed (st_limits s)
     \<and> int (length (st_tombstones s)) \<le> rl_MaxClosed (st_limits s)
     \<and> list_all closed_ok (st_closed s)"

definition store_inv :: "RuntimeStore \<Rightarrow> bool" where
  "store_inv s \<longleftrightarrow> index_inv s \<and> history_inv s"


lemma store_inv_new: "store_inv (NewRuntimeStore limits)"
  by (auto simp: store_inv_def index_inv_def history_inv_def NewRuntimeStore_def effectiveLimits_def
      limits_ok_def withDefault_def DefaultRuntimeLimits_def Let_def tuple_inv_def owner_inv_def
      fcard_fempty)

lemma index_inv_irrelevant [simp]:
  "index_inv (s\<lparr>st_stats := x\<rparr>) = index_inv s" "index_inv (s\<lparr>st_revision := n\<rparr>) = index_inv s"
  "index_inv (s\<lparr>st_closed := c\<rparr>) = index_inv s" "index_inv (s\<lparr>st_tombstones := t\<rparr>) = index_inv s"
  by (simp_all add: index_inv_def)

lemma history_inv_irrelevant [simp]:
  "history_inv (s\<lparr>st_stats := x\<rparr>) = history_inv s" "history_inv (s\<lparr>st_revision := n\<rparr>) = history_inv s"
  "history_inv (s\<lparr>st_byID := m\<rparr>) = history_inv s" "history_inv (s\<lparr>st_byIdentity := mi\<rparr>) = history_inv s"
  "history_inv (s\<lparr>st_byConntrack := mc\<rparr>) = history_inv s" "history_inv (s\<lparr>st_byTuple := mt\<rparr>) = history_inv s"
  "history_inv (s\<lparr>st_aliasesBySession := ma\<rparr>) = history_inv s"
  "history_inv (s\<lparr>st_identitiesBySession := mib\<rparr>) = history_inv s"
  "history_inv (s\<lparr>st_conntracksBySession := mcb\<rparr>) = history_inv s"
  "history_inv (s\<lparr>st_expiryRetryAfter := me\<rparr>) = history_inv s"
  by (simp_all add: history_inv_def)

lemma index_inv_lookup:
  "index_inv s \<Longrightarrow> fmlookup (st_byID s) i = Some v \<Longrightarrow>
   live_ok (rl_MaxAliases (st_limits s)) (st_aliasesBySession s) i v"
  by (auto simp: index_inv_def)

lemma index_inv_id: "index_inv s \<Longrightarrow> fmlookup (st_byID s) i = Some v \<Longrightarrow> rs_SessionID v = i \<and> i \<noteq> ''''"
  using index_inv_lookup by (fastforce simp: live_ok_def)

section \<open>Updates of one live session\<close>

text \<open>The fields that determine a session's identifier and aliases.\<close>

definition index_core :: "RuntimeSession \<Rightarrow> string \<times> string \<times> u16 \<times> Tuple \<times> Tuple option \<times> Tuple option" where
  "index_core v =
     (rs_SessionID v, ci_NetworkNS (rs_Identity v), ci_Zone (rs_Identity v), rs_OriginalTuple v,
      rs_ReplyTuple v, rs_TranslatedTuple v)"

lemma index_core_aliases: "index_core v = index_core w \<Longrightarrow> session_aliases v = session_aliases w"
  by (simp add: index_core_def session_aliases_def session_scope_def)

lemma fmlen_upd: "i |\<in>| fmdom m \<Longrightarrow> fmlen (fmupd i v m) = fmlen m"
  by (simp add: finsert_absorb)

lemma index_inv_update:
  assumes "index_inv s" "fmlookup (st_byID s) i = Some v" "index_core w = index_core v"
    "live_state (rs_State w)" "rs_ClosedAt w = None"
  shows "index_inv (s\<lparr>st_byID := fmupd i w (st_byID s)\<rparr>)"
proof -
  have d: "i |\<in>| fmdom (st_byID s)" using assms(2) by (rule fmdomI)
  have "live_ok (rl_MaxAliases (st_limits s)) (st_aliasesBySession s) i w"
    using index_inv_lookup [OF assms(1,2)] assms(3-5) index_core_aliases [OF assms(3)]
    by (auto simp: live_ok_def index_core_def)
  then show ?thesis
    using assms(1) d unfolding index_inv_def
    by (simp add: finsert_absorb fmlen_upd split: if_splits)
qed

lemma index_inv_put_session:
  assumes "index_inv s" "fmlookup (st_byID s) i = Some v" "index_core w = index_core v"
    "live_state (rs_State w)" "rs_ClosedAt w = None"
  shows "index_inv (put_session s i w)"
  using index_inv_update [OF assms] by (simp add: put_session_def)

section \<open>Remembering an identity\<close>

lemma aliasLimit_ok: "index_inv s \<Longrightarrow> aliasLimit s = rl_MaxAliases (st_limits s)"
  by (simp add: index_inv_def limits_ok_def aliasLimit_def)

lemma remember_exact_fields [simp]:
  "st_byID (remember_exact s i x) = st_byID s"
  "st_byTuple (remember_exact s i x) = st_byTuple s"
  "st_aliasesBySession (remember_exact s i x) = st_aliasesBySession s"
  "st_closed (remember_exact s i x) = st_closed s"
  "st_tombstones (remember_exact s i x) = st_tombstones s"
  "st_expiryRetryAfter (remember_exact s i x) = st_expiryRetryAfter s"
  "st_limits (remember_exact s i x) = st_limits s"
  "st_baseHistoryMax (remember_exact s i x) = st_baseHistoryMax s"
  "st_baseHistoryTTL (remember_exact s i x) = st_baseHistoryTTL s"
  "st_revision (remember_exact s i x) = st_revision s"
  "st_stats (remember_exact s i x) = st_stats s"
  by (simp_all add: remember_exact_def split: prod.splits)

lemma remember_conntrack_fields [simp]:
  "st_byID (remember_conntrack s i x) = st_byID s"
  "st_byIdentity (remember_conntrack s i x) = st_byIdentity s"
  "st_byTuple (remember_conntrack s i x) = st_byTuple s"
  "st_aliasesBySession (remember_conntrack s i x) = st_aliasesBySession s"
  "st_closed (remember_conntrack s i x) = st_closed s"
  "st_tombstones (remember_conntrack s i x) = st_tombstones s"
  "st_expiryRetryAfter (remember_conntrack s i x) = st_expiryRetryAfter s"
  "st_limits (remember_conntrack s i x) = st_limits s"
  "st_baseHistoryMax (remember_conntrack s i x) = st_baseHistoryMax s"
  "st_baseHistoryTTL (remember_conntrack s i x) = st_baseHistoryTTL s"
  "st_revision (remember_conntrack s i x) = st_revision s"
  "st_stats (remember_conntrack s i x) = st_stats s"
  by (simp_all add: remember_conntrack_def split: option.splits prod.splits)

lemma rememberIdentity_fields [simp]:
  "st_byID (rememberIdentityLocked s i x) = st_byID s"
  "st_byTuple (rememberIdentityLocked s i x) = st_byTuple s"
  "st_aliasesBySession (rememberIdentityLocked s i x) = st_aliasesBySession s"
  "st_closed (rememberIdentityLocked s i x) = st_closed s"
  "st_tombstones (rememberIdentityLocked s i x) = st_tombstones s"
  "st_expiryRetryAfter (rememberIdentityLocked s i x) = st_expiryRetryAfter s"
  "st_limits (rememberIdentityLocked s i x) = st_limits s"
  "st_baseHistoryMax (rememberIdentityLocked s i x) = st_baseHistoryMax s"
  "st_baseHistoryTTL (rememberIdentityLocked s i x) = st_baseHistoryTTL s"
  "st_revision (rememberIdentityLocked s i x) = st_revision s"
  "st_stats (rememberIdentityLocked s i x) = st_stats s"
  by (simp_all add: rememberIdentityLocked_def)

lemma history_inv_remember [simp]: "history_inv (rememberIdentityLocked s i x) = history_inv s"
  by (simp add: history_inv_def)

definition owners_inv :: "RuntimeStore \<Rightarrow> bool" where
  "owners_inv s \<longleftrightarrow>
     limits_ok (st_limits s)
     \<and> owner_inv (rl_MaxAliases (st_limits s)) (fmdom (st_byID s)) (st_identitiesBySession s) (st_byIdentity s)
     \<and> owner_inv (rl_MaxAliases (st_limits s)) (fmdom (st_byID s)) (st_conntracksBySession s) (st_byConntrack s)"

lemma owners_inv_remember:
  assumes "owners_inv s" "i |\<in>| fmdom (st_byID s)"
  shows "owners_inv (rememberIdentityLocked s i x)"
proof (cases "i = ''''")
  case True
  then show ?thesis using assms(1) by (simp add: rememberIdentityLocked_def)
next
  case False
  define s1 where "s1 = remember_exact s i x"
  have lim: "aliasLimit s = rl_MaxAliases (st_limits s)" "1 \<le> rl_MaxAliases (st_limits s)"
    using assms(1) by (auto simp: owners_inv_def limits_ok_def aliasLimit_def)
  have 1: "owners_inv s1"
    using assms owner_inv_remember_key(1) [where k = x and limit = "aliasLimit s" and i = i]
    by (auto simp: s1_def remember_exact_def owners_inv_def lim split: prod.splits)
  have f: "st_byID s1 = st_byID s" "st_limits s1 = st_limits s" "aliasLimit s1 = aliasLimit s"
    by (simp_all add: s1_def aliasLimit_def)
  have "owners_inv (remember_conntrack s1 i x)"
    using 1 assms(2) owner_inv_remember_key(1) [where limit = "aliasLimit s1" and i = i]
    by (auto simp: owners_inv_def remember_conntrack_def f lim split: option.splits prod.splits)
  then show ?thesis using False by (simp add: rememberIdentityLocked_def s1_def)
qed

lemma index_inv_remember:
  assumes "index_inv s" "i |\<in>| fmdom (st_byID s)"
  shows "index_inv (rememberIdentityLocked s i x)"
  using assms owners_inv_remember [of s i x] by (simp add: index_inv_def owners_inv_def)

section \<open>Indexing a session\<close>

lemma indexLocked_cases:
  assumes "tuple_inv (st_byTuple s) (st_aliasesBySession s)" "1 \<le> rl_MaxAliases (st_limits s)"
  obtains byTuple q where
    "indexLocked s v =
       (s\<lparr>st_byTuple := byTuple,
          st_aliasesBySession := fmupd (rs_SessionID v)
            (take (nat (rl_MaxAliases (st_limits s))) (session_aliases v)) (st_aliasesBySession s)\<rparr>,
        v\<lparr>rs_Quality := q\<rparr>)"
    "tuple_inv byTuple (fmupd (rs_SessionID v)
       (take (nat (rl_MaxAliases (st_limits s))) (session_aliases v)) (st_aliasesBySession s))"
    "q_MissingFields q = q_MissingFields (rs_Quality v)"
proof -
  let ?i = "rs_SessionID v"
  let ?as = "take (nat (rl_MaxAliases (st_limits s))) (session_aliases v)"
  let ?bt = "fold (remove_alias ?i) (get_list (st_aliasesBySession s) ?i) (st_byTuple s)"
  have upd: "fmupd ?i as (fmdrop ?i m) = fmupd ?i as m" for as and m :: "(string, Key list) fmap"
    by (rule fmap_ext) simp
  have as: "(if int (length (session_aliases v)) > rl_MaxAliases (st_limits s)
      then take (nat (rl_MaxAliases (st_limits s))) (session_aliases v) else session_aliases v) = ?as"
    using assms(2) by simp
  have inv: "tuple_inv (fold (add_alias ?i) ?as ?bt) (fmupd ?i ?as (st_aliasesBySession s))"
    using tuple_inv_add [OF tuple_inv_remove [OF assms(1), of ?i], of ?i ?as] by (simp add: upd)
  let ?q = "if int (length (session_aliases v)) > rl_MaxAliases (st_limits s)
    then (rs_Quality v)\<lparr>q_TrackingStatus := TrackingPartial, q_Reason := ''alias limit''\<rparr> else rs_Quality v"
  have "indexLocked s v =
      (s\<lparr>st_byTuple := fold (add_alias ?i) ?as ?bt,
         st_aliasesBySession := fmupd ?i ?as (st_aliasesBySession s)\<rparr>, v\<lparr>rs_Quality := ?q\<rparr>)"
    using as by (auto simp: indexLocked_def removeTupleIndexesLocked_def Let_def upd)
  then show thesis by (rule that [OF _ inv]) simp
qed

section \<open>Merging keeps what the indexes and the decision depend on\<close>

text \<open>
  The fields a merge never writes: what the policy and the inspection decided about the session.
\<close>

definition decision_core where
  "decision_core v =
     (rs_Revoked v, rs_Decision v, rs_EffectiveDecision v, rs_PolicyGeneration v, rs_DecisionGeneration v,
      rs_Inspection v, rs_SourceZone v, rs_DestinationZone v, rs_MatchedPolicyID v, rs_CacheState v,
      rs_ClosedAt v)"

named_theorems merge_core

lemma drop_missing_core [merge_core]:
  "index_core (drop_missing t v) = index_core v" "decision_core (drop_missing t v) = decision_core v"
  "rs_State (drop_missing t v) = rs_State v" "rs_Identity (drop_missing t v) = rs_Identity v"
  "rs_Revision (drop_missing t v) = rs_Revision v"
  by (simp_all add: drop_missing_def set_missing_def index_core_def decision_core_def)

lemma update_core [merge_core]:
  "index_core (v\<lparr>rs_Quality := q\<rparr>) = index_core v" "decision_core (v\<lparr>rs_Quality := q\<rparr>) = decision_core v"
  "index_core (v\<lparr>rs_LastSeen := t\<rparr>) = index_core v" "decision_core (v\<lparr>rs_LastSeen := t\<rparr>) = decision_core v"
  "index_core (v\<lparr>rs_LastObservedAt := t\<rparr>) = index_core v"
  "decision_core (v\<lparr>rs_LastObservedAt := t\<rparr>) = decision_core v"
  "index_core (v\<lparr>rs_ExpiresAt := e\<rparr>) = index_core v" "decision_core (v\<lparr>rs_ExpiresAt := e\<rparr>) = decision_core v"
  "index_core (v\<lparr>rs_PacketsOriginal := n\<rparr>) = index_core v"
  "decision_core (v\<lparr>rs_PacketsOriginal := n\<rparr>) = decision_core v"
  "index_core (v\<lparr>rs_BytesOriginal := n\<rparr>) = index_core v"
  "decision_core (v\<lparr>rs_BytesOriginal := n\<rparr>) = decision_core v"
  "index_core (v\<lparr>rs_PacketsReply := n\<rparr>) = index_core v"
  "decision_core (v\<lparr>rs_PacketsReply := n\<rparr>) = decision_core v"
  "index_core (v\<lparr>rs_BytesReply := n\<rparr>) = index_core v"
  "decision_core (v\<lparr>rs_BytesReply := n\<rparr>) = decision_core v"
  "index_core (v\<lparr>rs_State := st\<rparr>) = index_core v" "decision_core (v\<lparr>rs_State := st\<rparr>) = decision_core v"
  "index_core (v\<lparr>rs_KernelMark := k\<rparr>) = index_core v"
  "decision_core (v\<lparr>rs_KernelMark := k\<rparr>) = decision_core v"
  "index_core (v\<lparr>rs_KernelEpoch := ep\<rparr>) = index_core v"
  "decision_core (v\<lparr>rs_KernelEpoch := ep\<rparr>) = decision_core v"
  "index_core (v\<lparr>rs_KernelCacheVerified := b\<rparr>) = index_core v"
  "decision_core (v\<lparr>rs_KernelCacheVerified := b\<rparr>) = decision_core v"
  "index_core (v\<lparr>rs_Revision := n\<rparr>) = index_core v"
  "decision_core (v\<lparr>rs_Revision := n\<rparr>) = decision_core v"
  "decision_core (v\<lparr>rs_Identity := x\<rparr>) = decision_core v"
  "index_core (v\<lparr>rs_Identity := (rs_Identity v)\<lparr>ci_KernelStart := n\<rparr>\<rparr>) = index_core v"
  "index_core (v\<lparr>rs_Identity := (rs_Identity v)\<lparr>ci_ID := i\<rparr>\<rparr>) = index_core v"
  by (simp_all add: index_core_def decision_core_def)

definition merged_identity :: "Record \<Rightarrow> ConntrackIdentity \<Rightarrow> ConntrackIdentity" where
  "merged_identity r x =
     x\<lparr>ci_KernelStart := (if ci_KernelStart x = 0 \<and> ci_KernelStart (rec_Identity r) \<noteq> 0
                            \<and> pres_Timestamp (rec_Presence r)
                         then ci_KernelStart (rec_Identity r) else ci_KernelStart x),
       ci_ID := (if ci_ID x = 0 \<and> ci_ID (rec_Identity r) \<noteq> 0 \<and> pres_ID (rec_Presence r)
                 then ci_ID (rec_Identity r) else ci_ID x)\<rparr>"

lemma merge_kernel_start_core [merge_core]:
  "index_core (fst (merge_kernel_start r vc)) = index_core (fst vc)"
  "decision_core (fst (merge_kernel_start r vc)) = decision_core (fst vc)"
  "rs_State (fst (merge_kernel_start r vc)) = rs_State (fst vc)"
  "rs_Revision (fst (merge_kernel_start r vc)) = rs_Revision (fst vc)"
  by (cases vc; simp add: merge_kernel_start_def merge_core)+

lemma confirm_identity_core [merge_core]:
  "index_core (confirm_identity v) = index_core v"
  "decision_core (confirm_identity v) = decision_core v"
  "rs_State (confirm_identity v) = rs_State v" "rs_Identity (confirm_identity v) = rs_Identity v"
  "rs_Revision (confirm_identity v) = rs_Revision v"
  by (simp_all add: confirm_identity_def merge_core)

lemma merge_conntrack_id_core [merge_core]:
  "index_core (fst (merge_conntrack_id r vc)) = index_core (fst vc)"
  "decision_core (fst (merge_conntrack_id r vc)) = decision_core (fst vc)"
  "rs_State (fst (merge_conntrack_id r vc)) = rs_State (fst vc)"
  "rs_Revision (fst (merge_conntrack_id r vc)) = rs_Revision (fst vc)"
  by (cases vc; simp add: merge_conntrack_id_def merge_core)+

lemma merged_identity_eq:
  "rs_Identity (fst (merge_conntrack_id r (merge_kernel_start r vc))) = merged_identity r (rs_Identity (fst vc))"
  by (cases vc)
    (simp add: merge_conntrack_id_def merge_kernel_start_def merged_identity_def merge_core)

lemma merge_original_counters_core [merge_core]:
  "index_core (fst (merge_original_counters r now vc)) = index_core (fst vc)"
  "decision_core (fst (merge_original_counters r now vc)) = decision_core (fst vc)"
  "rs_State (fst (merge_original_counters r now vc)) = rs_State (fst vc)"
  "rs_Identity (fst (merge_original_counters r now vc)) = rs_Identity (fst vc)"
  "rs_Revision (fst (merge_original_counters r now vc)) = rs_Revision (fst vc)"
  by (cases vc; simp add: merge_original_counters_def Let_def merge_core)+

lemma merge_reply_counters_core [merge_core]:
  "index_core (fst (merge_reply_counters r now vc)) = index_core (fst vc)"
  "decision_core (fst (merge_reply_counters r now vc)) = decision_core (fst vc)"
  "rs_State (fst (merge_reply_counters r now vc)) = rs_State (fst vc)"
  "rs_Identity (fst (merge_reply_counters r now vc)) = rs_Identity (fst vc)"
  "rs_Revision (fst (merge_reply_counters r now vc)) = rs_Revision (fst vc)"
  by (cases vc; simp add: merge_reply_counters_def Let_def merge_core)+

lemma settle_counters_core [merge_core]:
  "index_core (settle_counters v) = index_core v"
  "decision_core (settle_counters v) = decision_core v"
  "rs_State (settle_counters v) = rs_State v" "rs_Identity (settle_counters v) = rs_Identity v"
  "rs_Revision (settle_counters v) = rs_Revision v"
  by (simp_all add: settle_counters_def merge_core)

lemma merge_counters_core [merge_core]:
  "index_core (fst (merge_counters r now vc)) = index_core (fst vc)"
  "decision_core (fst (merge_counters r now vc)) = decision_core (fst vc)"
  "rs_State (fst (merge_counters r now vc)) = rs_State (fst vc)"
  "rs_Identity (fst (merge_counters r now vc)) = rs_Identity (fst vc)"
  "rs_Revision (fst (merge_counters r now vc)) = rs_Revision (fst vc)"
  by (simp_all add: merge_counters_def merge_core split: prod.splits)

lemma stateFor_live: "live_state (stateFor r)"
  by (simp add: stateFor_def live_state_def)

lemma merge_timeout_core [merge_core]:
  "index_core (merge_timeout r now v) = index_core v"
  "decision_core (merge_timeout r now v) = decision_core v"
  "rs_State (merge_timeout r now v) = rs_State v" "rs_Identity (merge_timeout r now v) = rs_Identity v"
  "rs_Revision (merge_timeout r now v) = rs_Revision v"
  by (simp_all add: merge_timeout_def merge_core)

lemma merge_tcp_state_core [merge_core]:
  "index_core (fst (merge_tcp_state r now vc)) = index_core (fst vc)"
  "decision_core (fst (merge_tcp_state r now vc)) = decision_core (fst vc)"
  "rs_Identity (fst (merge_tcp_state r now vc)) = rs_Identity (fst vc)"
  "rs_Revision (fst (merge_tcp_state r now vc)) = rs_Revision (fst vc)"
  by (cases vc; simp add: merge_tcp_state_def merge_core)+

lemma merge_seen_reply_core [merge_core]:
  "index_core (fst (merge_seen_reply r now vc)) = index_core (fst vc)"
  "decision_core (fst (merge_seen_reply r now vc)) = decision_core (fst vc)"
  "rs_Identity (fst (merge_seen_reply r now vc)) = rs_Identity (fst vc)"
  "rs_Revision (fst (merge_seen_reply r now vc)) = rs_Revision (fst vc)"
  by (cases vc; simp add: merge_seen_reply_def merge_core)+

lemma merge_mark_core [merge_core]:
  "index_core (fst (merge_mark r vc)) = index_core (fst vc)"
  "decision_core (fst (merge_mark r vc)) = decision_core (fst vc)"
  "rs_State (fst (merge_mark r vc)) = rs_State (fst vc)"
  "rs_Identity (fst (merge_mark r vc)) = rs_Identity (fst vc)"
  "rs_Revision (fst (merge_mark r vc)) = rs_Revision (fst vc)"
  by (cases vc; simp add: merge_mark_def merge_core)+

lemma merge_state_core [merge_core]:
  "index_core (fst (merge_state r now vc)) = index_core (fst vc)"
  "decision_core (fst (merge_state r now vc)) = decision_core (fst vc)"
  "rs_Identity (fst (merge_state r now vc)) = rs_Identity (fst vc)"
  "rs_Revision (fst (merge_state r now vc)) = rs_Revision (fst vc)"
  by (simp_all add: merge_state_def merge_core)

lemma merge_state_live:
  "live_state (rs_State (fst vc)) \<Longrightarrow> live_state (rs_State (fst (merge_state r now vc)))"
  using stateFor_live [of r]
  by (cases vc)
    (simp add: merge_state_def merge_core, simp add: merge_seen_reply_def merge_tcp_state_def merge_core,
      simp add: live_state_def)

lemma settle_tracking_core [merge_core]:
  "index_core (settle_tracking v) = index_core v"
  "decision_core (settle_tracking v) = decision_core v"
  "rs_State (settle_tracking v) = rs_State v" "rs_Identity (settle_tracking v) = rs_Identity v"
  "rs_Revision (settle_tracking v) = rs_Revision v"
  by (simp_all add: settle_tracking_def merge_core)

section \<open>Merging keeps the invariant\<close>

text \<open>
  A merge may rewrite the aliases of the session it merges into before the session itself is
  stored: \<open>reindexed s s' w\<close> says that \<open>s'\<close> is \<open>s\<close> with the aliases of \<open>w\<close> indexed.
\<close>

abbreviation bounded_aliases :: "RuntimeStore \<Rightarrow> RuntimeSession \<Rightarrow> Key list" where
  "bounded_aliases s v \<equiv> take (nat (rl_MaxAliases (st_limits s))) (session_aliases v)"

definition reindexed :: "RuntimeStore \<Rightarrow> RuntimeStore \<Rightarrow> RuntimeSession \<Rightarrow> bool" where
  "reindexed s s' w \<longleftrightarrow>
     (\<exists>byTuple n. s' = s\<lparr>st_byTuple := byTuple,
          st_aliasesBySession := fmupd (rs_SessionID w) (bounded_aliases s w) (st_aliasesBySession s),
          st_revision := n\<rparr>
        \<and> tuple_inv byTuple (fmupd (rs_SessionID w) (bounded_aliases s w) (st_aliasesBySession s)))"

lemma fmupd_same: "fmlookup m k = Some x \<Longrightarrow> fmupd k x m = m"
  by (rule fmap_ext) auto

lemma reindexed_refl:
  assumes "tuple_inv (st_byTuple s) (st_aliasesBySession s)"
    "fmlookup (st_aliasesBySession s) (rs_SessionID w) = Some (bounded_aliases s w)"
  shows "reindexed s s w"
  unfolding reindexed_def using assms
  by (intro exI [of _ "st_byTuple s"] exI [of _ "st_revision s"]) (simp add: fmupd_same)

lemma reindexed_core: "index_core v = index_core w \<Longrightarrow> reindexed s s' v = reindexed s s' w"
  using index_core_aliases [of v w] by (simp add: reindexed_def index_core_def)

lemma with_reply_core:
  "decision_core (with_reply t v) = decision_core v" "rs_State (with_reply t v) = rs_State v"
  "rs_Identity (with_reply t v) = rs_Identity v" "rs_Revision (with_reply t v) = rs_Revision v"
  "rs_SessionID (with_reply t v) = rs_SessionID v" "rs_OriginalTuple (with_reply t v) = rs_OriginalTuple v"
  by (simp_all add: with_reply_def decision_core_def)

definition merge_frame :: "RuntimeSession \<Rightarrow> RuntimeSession \<Rightarrow> bool" where
  "merge_frame v w \<longleftrightarrow>
     decision_core w = decision_core v \<and> rs_State w = rs_State v \<and> rs_Identity w = rs_Identity v
     \<and> rs_Revision w = rs_Revision v \<and> rs_SessionID w = rs_SessionID v
     \<and> rs_OriginalTuple w = rs_OriginalTuple v"

lemma index_core_id: "index_core v = index_core w \<Longrightarrow> rs_SessionID v = rs_SessionID w"
  "index_core v = index_core w \<Longrightarrow> rs_OriginalTuple v = rs_OriginalTuple w"
  by (simp_all add: index_core_def)

lemma drop_missing_id [merge_core]:
  "rs_SessionID (drop_missing t v) = rs_SessionID v" "rs_OriginalTuple (drop_missing t v) = rs_OriginalTuple v"
  by (rule index_core_id [OF drop_missing_core(1)])+

lemma reindexLocked_reindexed:
  assumes "tuple_inv (st_byTuple s) (st_aliasesBySession s)" "1 \<le> rl_MaxAliases (st_limits s)"
    "reindexLocked s v = (s', w)"
  shows "reindexed s s' w \<and> merge_frame v w"
proof -
  obtain byTuple q where i: "indexLocked s v =
       (s\<lparr>st_byTuple := byTuple,
          st_aliasesBySession := fmupd (rs_SessionID v) (bounded_aliases s v) (st_aliasesBySession s)\<rparr>,
        v\<lparr>rs_Quality := q\<rparr>)"
    and t: "tuple_inv byTuple (fmupd (rs_SessionID v) (bounded_aliases s v) (st_aliasesBySession s))"
    using assms(1,2) by (rule indexLocked_cases)
  have w: "w = v\<lparr>rs_Quality := q\<rparr>"
    and s: "s' = s\<lparr>st_byTuple := byTuple,
          st_aliasesBySession := fmupd (rs_SessionID v) (bounded_aliases s v) (st_aliasesBySession s),
          st_revision := st_revision s + 1\<rparr>"
    using assms(3) by (auto simp: reindexLocked_def i)
  have "index_core w = index_core v" by (simp add: w merge_core)
  moreover have "reindexed s s' v" unfolding reindexed_def using s t by blast
  ultimately have "reindexed s s' w" by (simp only: reindexed_core [of w v])
  then show ?thesis by (simp add: merge_frame_def w merge_core)
qed

lemma merge_reply_reindexed:
  assumes "tuple_inv (st_byTuple s) (st_aliasesBySession s)" "1 \<le> rl_MaxAliases (st_limits s)"
    "fmlookup (st_aliasesBySession s) (rs_SessionID v) = Some (bounded_aliases s v)"
    and res: "merge_reply r (s, v, c) = (s', w, c')"
  shows "reindexed s s' w \<and> merge_frame v w"
proof -
  have base: "reindexed s s v \<and> merge_frame v v"
    using reindexed_refl [OF assms(1,3)] by (simp add: merge_frame_def)
  have drop: "reindexed s s' (drop_missing t x) \<and> merge_frame v (drop_missing t x)"
    if "reindexed s s' x \<and> merge_frame v x" for x t s'
    using that by (simp add: reindexed_core [OF drop_missing_core(1)] merge_frame_def merge_core)
  have step: "reindexed s s1 x \<and> merge_frame v x" if "reindexLocked s (with_reply t v) = (s1, x)" for s1 x t
    using reindexLocked_reindexed [OF assms(1,2) that] by (simp add: merge_frame_def with_reply_core)
  show ?thesis
    using res base drop [OF base] step drop [OF step]
    by (auto simp: merge_reply_def split: bool.splits option.splits prod.splits if_splits)
qed

lemma remember_exact_commute:
  "remember_exact (s\<lparr>st_byID := m\<rparr>) i x = (remember_exact s i x)\<lparr>st_byID := m\<rparr>"
  "remember_conntrack (s\<lparr>st_byID := m\<rparr>) i x = (remember_conntrack s i x)\<lparr>st_byID := m\<rparr>"
  by (simp_all add: remember_exact_def remember_conntrack_def aliasLimit_def
      split: option.splits prod.splits)

lemma remember_commute [simp]:
  "rememberIdentityLocked (s\<lparr>st_byID := m\<rparr>) i x = (rememberIdentityLocked s i x)\<lparr>st_byID := m\<rparr>"
  by (simp add: rememberIdentityLocked_def remember_exact_commute)

lemma index_inv_reindexed:
  assumes "index_inv s" "fmlookup (st_byID s) i = Some v" "reindexed s s' w" "rs_SessionID w = i"
    "live_state (rs_State w)" "rs_ClosedAt w = None"
  shows "index_inv (s'\<lparr>st_byID := fmupd i w (st_byID s')\<rparr>)"
proof -
  have d: "i |\<in>| fmdom (st_byID s)" using assms(2) by (rule fmdomI)
  obtain byTuple n where s': "s' = s\<lparr>st_byTuple := byTuple,
      st_aliasesBySession := fmupd i (bounded_aliases s w) (st_aliasesBySession s), st_revision := n\<rparr>"
    and t: "tuple_inv byTuple (fmupd i (bounded_aliases s w) (st_aliasesBySession s))"
    using assms(3,4) by (auto simp: reindexed_def)
  have l: "live_ok (rl_MaxAliases (st_limits s)) (fmupd i (bounded_aliases s w) (st_aliasesBySession s)) j x"
    if "fmlookup (fmupd i w (st_byID s)) j = Some x" for j x
    using that index_inv_lookup [OF assms(1)] index_inv_id [OF assms(1,2)] assms(4-6)
    by (auto simp: live_ok_def split: if_splits)
  show ?thesis
    using assms(1) d t l unfolding index_inv_def s'
    by (simp add: finsert_absorb fmlen_upd)
qed

lemma index_inv_drop_retry: "index_inv s \<Longrightarrow> index_inv (s\<lparr>st_expiryRetryAfter := fmdrop i (st_expiryRetryAfter s)\<rparr>)"
  by (auto simp: index_inv_def)

lemma merge_session_ok:
  assumes inv: "index_inv s" and v: "fmlookup (st_byID s) i = Some v"
    and res: "merge_session r now s v = (s', w, c)"
  shows "reindexed s s' w" "decision_core w = decision_core v" "live_state (rs_State w)"
    "rs_Identity w = merged_identity r (rs_Identity v)" "rs_Revision w = rs_Revision v"
    "rs_SessionID w = i" "rs_OriginalTuple w = rs_OriginalTuple v"
proof -
  define vc where "vc = merge_conntrack_id r (merge_kernel_start r (v, False))"
  obtain v1 c1 where vc1: "vc = (v1, c1)" by (cases vc)
  obtain s2 v2 c2 where r2: "merge_reply r (s, v1, c1) = (s2, v2, c2)" by (cases "merge_reply r (s, v1, c1)")
  obtain v3 c3 where r3: "merge_state r now (merge_counters r now (v2, c2)) = (v3, c3)"
    by (cases "merge_state r now (merge_counters r now (v2, c2))")
  have v1: "v1 = fst (merge_conntrack_id r (merge_kernel_start r (v, False)))"
    using vc1 by (simp add: vc_def)
  have core1: "index_core v1 = index_core v" "decision_core v1 = decision_core v"
    "rs_State v1 = rs_State v" "rs_Revision v1 = rs_Revision v"
    "rs_Identity v1 = merged_identity r (rs_Identity v)"
    by (simp_all add: v1 merge_core merged_identity_eq)
  have l: "live_ok (rl_MaxAliases (st_limits s)) (st_aliasesBySession s) i v"
    by (rule index_inv_lookup [OF inv v])
  have a: "fmlookup (st_aliasesBySession s) (rs_SessionID v1) = Some (bounded_aliases s v1)"
    using l index_core_id(1) [OF core1(1)] index_core_aliases [OF core1(1)] by (simp add: live_ok_def)
  have t: "tuple_inv (st_byTuple s) (st_aliasesBySession s)" "1 \<le> rl_MaxAliases (st_limits s)"
    using inv by (simp_all add: index_inv_def limits_ok_def)
  have 2: "reindexed s s2 v2" "merge_frame v1 v2"
    using merge_reply_reindexed [OF t a r2] by simp_all
  have v3: "v3 = fst (merge_state r now (merge_counters r now (v2, c2)))" using r3 by simp
  have w: "s' = s2" "w = settle_tracking v3"
    using res by (simp_all add: merge_session_def vc1 [unfolded vc_def] r2 r3)
  have core: "index_core w = index_core v2" "decision_core w = decision_core v2"
    "rs_Identity w = rs_Identity v2" "rs_Revision w = rs_Revision v2" "rs_State w = rs_State v3"
    by (simp_all add: w v3 merge_core)
  show "reindexed s s' w" using 2 by (simp add: w(1) reindexed_core [OF core(1)])
  show "decision_core w = decision_core v" "rs_Identity w = merged_identity r (rs_Identity v)"
    "rs_Revision w = rs_Revision v"
    using 2(2) core core1 by (simp_all add: merge_frame_def)
  show "rs_SessionID w = i" "rs_OriginalTuple w = rs_OriginalTuple v"
    using 2(2) index_core_id [OF core(1)] index_core_id [OF core1(1)] l
    by (simp_all add: merge_frame_def live_ok_def)
  have "live_state (rs_State v2)"
    using 2(2) core1(3) l by (simp add: merge_frame_def live_ok_def)
  then show "live_state (rs_State w)"
    using merge_state_live [of "merge_counters r now (v2, c2)" r now] by (simp add: core(5) v3 merge_core)
qed

lemma mergeLocked_ok:
  assumes inv: "index_inv s" and v: "fmlookup (st_byID s) i = Some v"
    and res: "mergeLocked s i v r now = (s', w, c)"
  shows "index_inv s'" "history_inv s' = history_inv s" "st_closed s' = st_closed s"
    "st_tombstones s' = st_tombstones s" "st_limits s' = st_limits s"
    "st_byID s' = fmupd i w (st_byID s)" "decision_core w = decision_core v"
    "rs_Identity w = merged_identity r (rs_Identity v)" "rs_OriginalTuple w = rs_OriginalTuple v"
    "rs_Revision w = (if c then rs_Revision v + 1 else rs_Revision v)"
proof -
  obtain s1 w1 where m: "merge_session r now s v = (s1, w1, c)"
    using res by (auto simp: mergeLocked_def Let_def split: prod.splits)
  note ok = merge_session_ok [OF inv v m]
  have w: "w = (if c then w1\<lparr>rs_Revision := rs_Revision w1 + 1\<rparr> else w1)"
    and s': "s' = (let s = rememberIdentityLocked (s1\<lparr>st_expiryRetryAfter := fmdrop i (st_expiryRetryAfter s1)\<rparr>)
            i (rec_Identity r);
          s = (if c then s\<lparr>st_revision := st_revision s + 1\<rparr> else s) in
        s\<lparr>st_byID := fmupd i w (st_byID s)\<rparr>)"
    using res ok(6) by (auto simp: mergeLocked_def m Let_def)
  have core: "index_core w = index_core w1" "decision_core w = decision_core w1" "rs_State w = rs_State w1"
    "rs_Identity w = rs_Identity w1" "rs_Revision w = (if c then rs_Revision w1 + 1 else rs_Revision w1)"
    by (simp_all add: w merge_core)
  have live: "rs_SessionID w = i" "live_state (rs_State w)" "rs_ClosedAt w = None"
    using ok core index_core_id(1) [OF core(1)] index_inv_lookup [OF inv v]
    by (simp_all add: decision_core_def live_ok_def)
  define s2 where "s2 = s1\<lparr>st_byID := fmupd i w (st_byID s1)\<rparr>"
  have i2: "index_inv s2" unfolding s2_def
    using ok(1) core(1) by (intro index_inv_reindexed [OF inv v _ live]) (simp add: reindexed_core [OF core(1)])
  have s1: "st_byID s1 = st_byID s" "history_inv s1 = history_inv s" "st_closed s1 = st_closed s"
     "st_tombstones s1 = st_tombstones s" "st_limits s1 = st_limits s"
    using ok(1) by (auto simp: reindexed_def)
  define s3 where "s3 = rememberIdentityLocked (s2\<lparr>st_expiryRetryAfter := fmdrop i (st_expiryRetryAfter s2)\<rparr>)
     i (rec_Identity r)"
  have i3: "index_inv s3" unfolding s3_def
    using index_inv_drop_retry [OF i2] by (rule index_inv_remember) (simp add: s2_def)
  have s3: "s' = (if c then s3\<lparr>st_revision := st_revision s3 + 1\<rparr> else s3)"
  proof -
    have "s2\<lparr>st_expiryRetryAfter := fmdrop i (st_expiryRetryAfter s2)\<rparr>
      = (s1\<lparr>st_expiryRetryAfter := fmdrop i (st_expiryRetryAfter s1)\<rparr>)\<lparr>st_byID := fmupd i w (st_byID s1)\<rparr>"
      by (simp add: s2_def)
    then show ?thesis by (simp add: s' s3_def Let_def)
  qed
  show "index_inv s'" "history_inv s' = history_inv s" "st_closed s' = st_closed s"
    "st_tombstones s' = st_tombstones s" "st_limits s' = st_limits s"
    "st_byID s' = fmupd i w (st_byID s)"
    using i3 s1 by (simp_all add: s3) (simp_all add: s3_def s2_def)
  show "decision_core w = decision_core v" "rs_Identity w = merged_identity r (rs_Identity v)"
    "rs_OriginalTuple w = rs_OriginalTuple v"
    "rs_Revision w = (if c then rs_Revision v + 1 else rs_Revision v)"
    using ok core index_core_id(2) [OF core(1)] by simp_all
qed

section \<open>Creating a session keeps the invariant\<close>

lemma fmlen_insert: "fmlen (fmupd i v m) \<le> Suc (fmlen m)"
  by (simp add: fcard_finsert_if)

lemma index_inv_insert:
  assumes inv: "index_inv s" and v: "i \<noteq> ''''" "rs_SessionID v = i" "live_state (rs_State v)" "rs_ClosedAt v = None"
    and room: "int (fmlen (st_byID s)) < rl_MaxSessions (st_limits s)"
    and res: "indexLocked (rememberIdentityLocked (s\<lparr>st_byID := fmupd i v (st_byID s)\<rparr>) i x) v = (s2, w)"
  shows "index_inv (s2\<lparr>st_byID := fmupd i w (st_byID s2)\<rparr>)" "index_core w = index_core v"
    "decision_core w = decision_core v" "st_byID s2 = fmupd i v (st_byID s)"
    "history_inv s2 = history_inv s" "st_limits s2 = st_limits s" "st_closed s2 = st_closed s"
    "st_tombstones s2 = st_tombstones s" "rs_Identity w = rs_Identity v" "rs_Revision w = rs_Revision v"
proof -
  define s0 where "s0 = s\<lparr>st_byID := fmupd i v (st_byID s)\<rparr>"
  define s1 where "s1 = rememberIdentityLocked s0 i x"
  have "owners_inv s0"
    using inv by (auto simp: owners_inv_def index_inv_def s0_def intro: owner_inv_insert)
  then have o: "owners_inv s1" unfolding s1_def by (rule owners_inv_remember) (simp add: s0_def)
  have f: "st_byTuple s1 = st_byTuple s" "st_aliasesBySession s1 = st_aliasesBySession s"
    "st_limits s1 = st_limits s" "st_byID s1 = fmupd i v (st_byID s)" "st_expiryRetryAfter s1 = st_expiryRetryAfter s"
    "st_closed s1 = st_closed s" "st_tombstones s1 = st_tombstones s" "history_inv s1 = history_inv s"
    by (simp_all add: s1_def s0_def)
  have t: "tuple_inv (st_byTuple s1) (st_aliasesBySession s1)" "1 \<le> rl_MaxAliases (st_limits s1)"
    using inv by (simp_all add: f index_inv_def limits_ok_def)
  obtain byTuple q where ix: "indexLocked s1 v = (s1\<lparr>st_byTuple := byTuple,
       st_aliasesBySession := fmupd i (bounded_aliases s v) (st_aliasesBySession s)\<rparr>, v\<lparr>rs_Quality := q\<rparr>)"
    and t2: "tuple_inv byTuple (fmupd i (bounded_aliases s v) (st_aliasesBySession s))"
    by (rule indexLocked_cases [OF t, of v]) (simp add: f v)
  have s2: "s2 = s1\<lparr>st_byTuple := byTuple,
       st_aliasesBySession := fmupd i (bounded_aliases s v) (st_aliasesBySession s)\<rparr>"
    and w: "w = v\<lparr>rs_Quality := q\<rparr>"
    using res ix by (simp_all add: s1_def s0_def)
  show c: "index_core w = index_core v" "decision_core w = decision_core v" by (simp_all add: w merge_core)
  show "st_byID s2 = fmupd i v (st_byID s)" "history_inv s2 = history_inv s" "st_limits s2 = st_limits s"
    "st_closed s2 = st_closed s" "st_tombstones s2 = st_tombstones s"
    "rs_Identity w = rs_Identity v" "rs_Revision w = rs_Revision v"
    by (simp_all add: s2 f w)
  have a: "session_aliases w = session_aliases v" by (rule index_core_aliases [OF c(1)])
  have l: "live_ok (rl_MaxAliases (st_limits s)) (fmupd i (bounded_aliases s v) (st_aliasesBySession s)) j y"
    if "fmlookup (fmupd i w (st_byID s)) j = Some y" for j y
    using that index_inv_lookup [OF inv] v a by (auto simp: live_ok_def w split: if_splits)
  have n: "int (fmlen (fmupd i w (st_byID s))) \<le> rl_MaxSessions (st_limits s)"
    using room fmlen_insert [of i w "st_byID s"] by linarith
  show "index_inv (s2\<lparr>st_byID := fmupd i w (st_byID s2)\<rparr>)"
    using inv o l n t2 unfolding index_inv_def owners_inv_def s2 f
    by (auto simp: f)
qed

lemma new_session_live:
  "rs_SessionID (new_session i r now) = i" "live_state (rs_State (new_session i r now))"
  "rs_ClosedAt (new_session i r now) = None" "rs_Revoked (new_session i r now) = False"
  "rs_Identity (new_session i r now) = rec_Identity r" "rs_OriginalTuple (new_session i r now) = rec_OriginalTuple r"
  "rs_Revision (new_session i r now) = 1" "rs_Inspection (new_session i r now) = None"
  by (simp_all add: new_session_def Let_def split_beta stateFor_live)

lemma fresh_session_id_nonempty: "fresh_session_id env s x \<noteq> ''''"
  by (simp add: fresh_session_id_def sessionID_def Let_def)

lemma create_session_cases:
  assumes inv: "index_inv s" and res: "create_session env s r now = (s', result)"
  obtains (full) "result = Inl ErrRuntimeCapacity" "int (fmlen (st_byID s)) \<ge> rl_MaxSessions (st_limits s)"
      "\<exists>x. s' = s\<lparr>st_stats := x\<rparr>"
  | (created) w where "result = Inr (w, True, True)" "index_inv s'" "history_inv s' = history_inv s"
      "st_byID s' = fmupd (fresh_session_id env s (rec_Identity r)) w (st_byID s)"
      "int (fmlen (st_byID s)) < rl_MaxSessions (st_limits s)"
      "index_core w = index_core (new_session (fresh_session_id env s (rec_Identity r)) r now)"
      "decision_core w = decision_core (new_session (fresh_session_id env s (rec_Identity r)) r now)"
      "rs_Identity w = rec_Identity r" "rs_Revision w = 1"
      "st_closed s' = st_closed s" "st_tombstones s' = st_tombstones s" "st_limits s' = st_limits s"
proof (cases "int (fmlen (st_byID s)) \<ge> rl_MaxSessions (st_limits s)")
  case True
  then show thesis using res by (intro full) (auto simp: create_session_def)
next
  case False
  define i where "i = fresh_session_id env s (rec_Identity r)"
  define v where "v = new_session i r now"
  obtain s2 w where ix: "indexLocked (rememberIdentityLocked (s\<lparr>st_byID := fmupd i v (st_byID s)\<rparr>) i (rec_Identity r)) v
      = (s2, w)" by (cases "indexLocked (rememberIdentityLocked (s\<lparr>st_byID := fmupd i v (st_byID s)\<rparr>) i (rec_Identity r)) v")
  have room: "int (fmlen (st_byID s)) < rl_MaxSessions (st_limits s)" using False by simp
  note live = new_session_live [of i r now, folded v_def]
  have "i \<noteq> ''''" by (simp only: i_def fresh_session_id_nonempty not_False_eq_True)
  note ins = index_inv_insert [OF inv this live(1-3) room ix]
  obtain x n where s': "s' = s2\<lparr>st_byID := fmupd i w (st_byID s2), st_stats := x, st_revision := n\<rparr>"
    and r: "result = Inr (w, True, True)"
    using res False ix [unfolded v_def i_def] by (auto simp: create_session_def Let_def i_def v_def)
  show thesis
    by (rule created [OF r]; use ins live room in \<open>simp add: s' i_def v_def\<close>)
qed

end
