(* ===== verification/Store_Operations.thy ===== *)
theory Store_Operations
imports Store_Invariant
begin

text \<open>
  Every operation of the session table keeps the invariant. \<open>store_op\<close> names the operations of the
  exported interface, \<open>run_op\<close> runs one of them, and \<open>reachable\<close> is the set of stores that some
  sequence of operations builds from an empty one.
\<close>

section \<open>Retiring a session\<close>

lemma trimClosed_fields [simp]:
  "st_byID (trimClosedLocked s) = st_byID s" "st_byIdentity (trimClosedLocked s) = st_byIdentity s"
  "st_byConntrack (trimClosedLocked s) = st_byConntrack s" "st_byTuple (trimClosedLocked s) = st_byTuple s"
  "st_aliasesBySession (trimClosedLocked s) = st_aliasesBySession s"
  "st_identitiesBySession (trimClosedLocked s) = st_identitiesBySession s"
  "st_conntracksBySession (trimClosedLocked s) = st_conntracksBySession s"
  "st_expiryRetryAfter (trimClosedLocked s) = st_expiryRetryAfter s"
  "st_limits (trimClosedLocked s) = st_limits s" "st_baseHistoryMax (trimClosedLocked s) = st_baseHistoryMax s"
  "st_baseHistoryTTL (trimClosedLocked s) = st_baseHistoryTTL s"
  "st_revision (trimClosedLocked s) = st_revision s"
  by (simp_all add: trimClosedLocked_def Let_def)

lemma trimClosed_history:
  "st_closed (trimClosedLocked s) = drop (length (st_closed s) - nat (rl_MaxClosed (st_limits s))) (st_closed s)"
  "st_tombstones (trimClosedLocked s) =
     drop (length (st_tombstones s) - nat (rl_MaxClosed (st_limits s))) (st_tombstones s)"
  if "0 \<le> rl_MaxClosed (st_limits s)"
  using that by (auto simp: trimClosedLocked_def Let_def nat_diff_distrib)

lemma index_inv_trimClosed [simp]: "index_inv (trimClosedLocked s) = index_inv s"
  by (simp add: index_inv_def)

lemma removeIndexes_fields [simp]:
  "st_byID (removeIndexesLocked s i) = st_byID s"
  "st_expiryRetryAfter (removeIndexesLocked s i) = fmdrop i (st_expiryRetryAfter s)"
  "st_closed (removeIndexesLocked s i) = st_closed s" "st_tombstones (removeIndexesLocked s i) = st_tombstones s"
  "st_limits (removeIndexesLocked s i) = st_limits s" "st_baseHistoryMax (removeIndexesLocked s i) = st_baseHistoryMax s"
  "st_baseHistoryTTL (removeIndexesLocked s i) = st_baseHistoryTTL s"
  "st_stats (removeIndexesLocked s i) = st_stats s" "st_revision (removeIndexesLocked s i) = st_revision s"
  "st_aliasesBySession (removeIndexesLocked s i) = fmdrop i (st_aliasesBySession s)"
  "st_byTuple (removeIndexesLocked s i) =
     fold (remove_alias i) (get_list (st_aliasesBySession s) i) (st_byTuple s)"
  "st_identitiesBySession (removeIndexesLocked s i) = fmdrop i (st_identitiesBySession s)"
  "st_conntracksBySession (removeIndexesLocked s i) = fmdrop i (st_conntracksBySession s)"
  "st_byIdentity (removeIndexesLocked s i) =
     fold (drop_if_owner i) (get_list (st_identitiesBySession s) i) (st_byIdentity s)"
  "st_byConntrack (removeIndexesLocked s i) =
     fold (drop_if_owner i) (get_list (st_conntracksBySession s) i) (st_byConntrack s)"
  by (simp_all add: removeIndexesLocked_def removeTupleIndexesLocked_def Let_def)

lemma fmlen_drop: "fmlen (fmdrop i m) \<le> fmlen m"
  by (rule fcard_mono) auto

lemma index_inv_remove:
  assumes "index_inv s"
  shows "index_inv ((removeIndexesLocked s i)\<lparr>st_byID := fmdrop i (st_byID s)\<rparr>)"
proof -
  have "int (fmlen (fmdrop i (st_byID s))) \<le> rl_MaxSessions (st_limits s)"
    using assms fmlen_drop [of i "st_byID s"] unfolding index_inv_def by linarith
  then show ?thesis
    using assms tuple_inv_remove [of "st_byTuple s" "st_aliasesBySession s" i]
      owner_inv_remove [of _ "fmdom (st_byID s)" "st_identitiesBySession s" "st_byIdentity s" i]
      owner_inv_remove [of _ "fmdom (st_byID s)" "st_conntracksBySession s" "st_byConntrack s" i]
    unfolding index_inv_def by (auto simp: live_ok_def)
qed

lemma retire_fields [simp]:
  "st_byID (retire s i v now) = fmdrop i (st_byID s)" "st_limits (retire s i v now) = st_limits s"
  by (simp_all add: retire_def appendClosedLocked_def Let_def)

lemma retire_index_inv: "index_inv s \<Longrightarrow> index_inv (retire s i v now)"
proof -
  assume "index_inv s"
  then have "index_inv (appendClosedLocked s v t)" for t by (simp add: appendClosedLocked_def)
  from index_inv_remove [OF this] show ?thesis by (simp add: retire_def Let_def)
qed

lemma retire_history_inv: "history_inv s \<Longrightarrow> closed_ok v \<Longrightarrow> history_inv (retire s i v now)"
  using set_drop_subset
  by (auto simp: history_inv_def retire_def appendClosedLocked_def Let_def trimClosed_history list_all_iff
      dest!: in_set_dropD)

lemma retire_tombstone:
  "history_inv s \<Longrightarrow> \<lparr>tb_ID = i, tb_Identity = rs_Identity v, tb_At = now\<rparr> \<in> set (st_tombstones (retire s i v now))"
  by (auto simp: history_inv_def retire_def appendClosedLocked_def Let_def trimClosed_history)

lemma count_closed_fields [simp]:
  "st_byID (count_closed s n) = st_byID s" "st_tombstones (count_closed s n) = st_tombstones s"
  "st_closed (count_closed s n) = st_closed s"
  "index_inv (count_closed s n) = index_inv s" "history_inv (count_closed s n) = history_inv s"
  "st_limits (count_closed s n) = st_limits s"
  by (simp_all add: count_closed_def)

lemma closeLocked_ok:
  assumes "store_inv s" "closeLocked s i v reason now = (s', w)"
  shows "store_inv s'" "st_byID s' = fmdrop i (st_byID s)" "st_limits s' = st_limits s"
    "rs_Identity w = rs_Identity v" "rs_State w = SessionClosed"
    "\<lparr>tb_ID = i, tb_Identity = rs_Identity v, tb_At = now\<rparr> \<in> set (st_tombstones s')"
proof -
  have w: "rs_Identity w = rs_Identity v" "closed_ok w" and s': "s' = count_closed (retire s i w now) 1"
    using assms(2) by (auto simp: closeLocked_def Let_def set_reason_def closed_ok_def)
  show "store_inv s'" "st_byID s' = fmdrop i (st_byID s)" "st_limits s' = st_limits s"
    "rs_Identity w = rs_Identity v" "rs_State w = SessionClosed"
    using assms(1) w retire_index_inv retire_history_inv by (auto simp: s' store_inv_def closed_ok_def)
  show "\<lparr>tb_ID = i, tb_Identity = rs_Identity v, tb_At = now\<rparr> \<in> set (st_tombstones s')"
    using assms(1) retire_tombstone [of s i w now] w by (simp add: s' store_inv_def)
qed

section \<open>The operations\<close>

lemma put_session_ok:
  assumes "store_inv s" "fmlookup (st_byID s) i = Some v" "index_core w = index_core v"
    "rs_State w = rs_State v" "rs_ClosedAt w = rs_ClosedAt v"
  shows "store_inv (put_session s i w)"
proof -
  have "live_state (rs_State w)" "rs_ClosedAt w = None"
    using index_inv_lookup [of s i v] assms by (simp_all add: store_inv_def live_ok_def)
  then show ?thesis
    using index_inv_put_session [of s i v w] assms by (simp add: store_inv_def put_session_def)
qed

lemma count_invalidated_inv [simp]: "store_inv (count_invalidated s) = store_inv s"
  by (simp add: count_invalidated_def store_inv_def)

lemma changed_core:
  "index_core (invalidated g reason now v) = index_core v" "rs_State (invalidated g reason now v) = rs_State v"
  "rs_ClosedAt (invalidated g reason now v) = rs_ClosedAt v"
  "index_core (decided g a p reason v) = index_core v" "rs_State (decided g a p reason v) = rs_State v"
  "rs_ClosedAt (decided g a p reason v) = rs_ClosedAt v"
  "index_core (unavailable g reason v) = index_core v" "rs_State (unavailable g reason v) = rs_State v"
  "rs_ClosedAt (unavailable g reason v) = rs_ClosedAt v"
  "index_core (revoked g reason now v) = index_core v" "rs_State (revoked g reason now v) = rs_State v"
  "rs_ClosedAt (revoked g reason now v) = rs_ClosedAt v"
  by (simp_all add: invalidated_def decided_def unavailable_def revoked_def Let_def index_core_def)

lemma Invalidate_inv: "store_inv s \<Longrightarrow> store_inv (fst (Invalidate s i g reason now))"
  by (auto simp: Invalidate_def Let_def changed_core split: option.splits intro: put_session_ok)

lemma setDecision_inv: "store_inv s \<Longrightarrow> store_inv (fst (setDecision s i e g a p reason))"
  by (auto simp: setDecision_def Let_def changed_core split: option.splits intro: put_session_ok)

lemma MarkEvaluationUnavailable_inv: "store_inv s \<Longrightarrow> store_inv (fst (MarkEvaluationUnavailable s i g reason))"
  by (auto simp: MarkEvaluationUnavailable_def Let_def changed_core split: option.splits intro: put_session_ok)

lemma MarkRevoked_inv: "store_inv s \<Longrightarrow> store_inv (fst (MarkRevoked env s i g reason))"
  by (auto simp: MarkRevoked_def Let_def changed_core split: option.splits intro: put_session_ok)

lemma SetZones_inv: "store_inv s \<Longrightarrow> store_inv (fst (SetZones s i a b))"
  by (auto simp: SetZones_def Let_def index_core_def split: option.splits intro!: put_session_ok)

lemma updateInspection_inv:
  assumes "updateInspectionLocked s i v nxt n = (s', w)" "store_inv s" "fmlookup (st_byID s) i = Some v"
  shows "store_inv s'"
proof -
  have s': "s' = put_session s i w" and w: "index_core w = index_core v" "rs_State w = rs_State v"
    "rs_ClosedAt w = rs_ClosedAt v"
    using assms(1) by (auto simp: updateInspectionLocked_def Let_def index_core_def)
  show ?thesis unfolding s' by (rule put_session_ok [OF assms(2,3) w])
qed

lemma UpdateInspection_inv: "store_inv s \<Longrightarrow> store_inv (fst (UpdateInspection s i x g n nxt))"
  by (auto simp: UpdateInspection_def Let_def split: option.splits prod.splits dest: updateInspection_inv)

lemma CompleteInspectionIntent_inv: "store_inv s \<Longrightarrow> store_inv (fst (CompleteInspectionIntent s intent res))"
  by (auto simp: CompleteInspectionIntent_def Let_def split: option.splits prod.splits
      dest: updateInspection_inv)

lemma Delete_inv: "store_inv s \<Longrightarrow> store_inv (fst (Delete env s i reason now))"
  by (auto simp: Delete_def Let_def store_inv_def set_reason_def closed_ok_def split: option.splits
      intro!: retire_index_inv retire_history_inv)

lemma owner_inv_drop: "owner_inv limit D owned m \<Longrightarrow> owner_inv limit D owned (fmdrop x m)"
  by (simp add: owner_inv_def)

lemma Close_inv: "store_inv s \<Longrightarrow> store_inv (fst (Close env s x reason now))"
proof -
  assume inv: "store_inv s"
  have "store_inv (s\<lparr>st_byIdentity := fmdrop x (st_byIdentity s)\<rparr>)"
    using inv by (simp add: store_inv_def index_inv_def owner_inv_drop)
  then show ?thesis
    using inv by (auto simp: Close_def Let_def split: option.splits prod.splits dest: closeLocked_ok(1))
qed

lemma CloseVerifiedExpired_inv: "store_inv s \<Longrightarrow> store_inv (fst (CloseVerifiedExpired s c now))"
  using closeLocked_ok(1) by (auto simp: CloseVerifiedExpired_def split: option.splits prod.splits)

lemma expiryCandidate_lookup:
  "expiryCandidateLocked s c now = Some v \<Longrightarrow> fmlookup (st_byID s) (rs_SessionID c) = Some v"
  by (auto simp: expiryCandidateLocked_def split: option.splits if_splits)

lemma DeferExpired_inv: "store_inv s \<Longrightarrow> store_inv (fst (DeferExpired s c now reason))"
proof (cases "expiryCandidateLocked s c now")
  case (Some v)
  assume inv: "store_inv s"
  have v: "fmlookup (st_byID s) (rs_SessionID c) = Some v" by (rule expiryCandidate_lookup [OF Some])
  define s1 where "s1 = s\<lparr>st_expiryRetryAfter :=
     fmupd (rs_SessionID v) (now + 30 * second) (st_expiryRetryAfter s)\<rparr>"
  have "rs_SessionID v |\<in>| fmdom (st_byID s)"
    using index_inv_id [OF _ v] inv fmdomI [OF v] by (simp add: store_inv_def)
  then have i1: "store_inv s1" using inv by (auto simp: store_inv_def s1_def index_inv_def)
  have v1: "fmlookup (st_byID s1) (rs_SessionID c) = Some v" by (simp add: s1_def v)
  show ?thesis
    by (simp only: DeferExpired_def Some option.case Let_def s1_def [symmetric] fst_conv)
      (auto simp: i1 index_core_def intro!: put_session_ok [OF i1 v1])
qed (simp add: DeferExpired_def)

lemma pruneClosed_inv: "store_inv s \<Longrightarrow> store_inv (pruneClosedLocked s now)"
  by (auto simp: store_inv_def pruneClosedLocked_def Let_def index_inv_def history_inv_def list_all_iff
      intro: order_trans [OF of_nat_mono [OF length_filter_le]])

lemma trimClosed_inv:
  assumes "index_inv s" "1 \<le> st_baseHistoryMax s" "list_all closed_ok (st_closed s)"
  shows "store_inv (trimClosedLocked s)"
  using assms by (auto simp: store_inv_def history_inv_def trimClosed_history index_inv_def limits_ok_def
      list_all_iff dest!: in_set_dropD)

lemma SetInspectionHistoryLimits_inv: "store_inv s \<Longrightarrow> store_inv (SetInspectionHistoryLimits env s n ttl)"
  unfolding SetInspectionHistoryLimits_def Let_def
  by (rule trimClosed_inv)
    (auto simp: store_inv_def history_inv_def index_inv_def limits_ok_def pruneClosedLocked_def Let_def
      list_all_iff)

lemma reconcile_loop_inv: "store_inv s \<Longrightarrow> store_inv (fst (reconcile_loop seen before now reason order s))"
proof (induction order arbitrary: s)
  case (Cons i order)
  have "store_inv (retire s i (reconcile_close now reason v) now)" for v
    using Cons.prems
    by (auto simp: store_inv_def reconcile_close_def Let_def set_reason_def closed_ok_def
        intro!: retire_index_inv retire_history_inv)
  then show ?case using Cons by (auto split: option.splits prod.splits) (metis fst_conv)
qed simp

lemma ReconcileMissing_inv: "store_inv s \<Longrightarrow> store_inv (fst (ReconcileMissing env order s seen before now reason))"
proof -
  assume "store_inv s"
  then have "store_inv s'" if "reconcile_loop seenIDs b n reason order s = (s', removed)" for seenIDs b n s' removed
    using reconcile_loop_inv [of s seenIDs b n reason order] that by simp
  then show ?thesis by (simp add: ReconcileMissing_def Let_def store_inv_def split: prod.splits)
qed

section \<open>Applying a record\<close>

lemma index_inv_store: "store_inv s \<Longrightarrow> index_inv s" "store_inv s \<Longrightarrow> history_inv s"
  by (simp_all add: store_inv_def)

lemma merge_into_ok:
  assumes inv: "store_inv s" and v: "fmlookup (st_byID s) i = Some v"
    and res: "merge_into s i v r now = (s', result)"
  obtains w c where "result = Inr (w, False, c)" "store_inv s'" "st_byID s' = fmupd i w (st_byID s)"
    "decision_core w = decision_core v" "rs_Identity w = merged_identity r (rs_Identity v)"
    "rs_OriginalTuple w = rs_OriginalTuple v" "rs_Revision w = (if c then rs_Revision v + 1 else rs_Revision v)"
    "st_tombstones s' = st_tombstones s" "st_closed s' = st_closed s" "st_limits s' = st_limits s"
    "mergeLocked (rememberIdentityLocked s i (rec_Identity r)) i v r now = (s', w, c)"
proof -
  define s1 where "s1 = rememberIdentityLocked s i (rec_Identity r)"
  obtain s2 w c where m: "mergeLocked s1 i v r now = (s2, w, c)" by (cases "mergeLocked s1 i v r now")
  have i1: "index_inv s1"
    unfolding s1_def using index_inv_store(1) [OF inv] fmdomI [OF v] by (rule index_inv_remember)
  have v1: "fmlookup (st_byID s1) i = Some v" by (simp add: s1_def v)
  have r: "s' = s2" "result = Inr (w, False, c)"
    using res m by (simp_all add: merge_into_def s1_def)
  note ok = mergeLocked_ok [OF i1 v1 m]
  show thesis
    by (rule that [OF r(2)]; use ok inv m in \<open>simp add: r(1) s1_def store_inv_def\<close>)
qed

lemma identity_target_live: "identity_target s x = Some (i, v) \<Longrightarrow> fmlookup (st_byID s) i = Some v"
  by (auto simp: identity_target_def Let_def split: if_splits)

lemma tuple_target_live: "tuple_target s r = Some (i, v) \<Longrightarrow> fmlookup (st_byID s) i = Some v"
  by (auto simp: tuple_target_def split: TupleResolution.splits option.splits if_splits)

text \<open>The four ways a record is handled.\<close>

lemma ApplyObserved_cases:
  assumes "ApplyObserved env s record now = (s', result)"
  obtains (incomplete) "result = Inl ErrIdentityMissing" "s' = s"
      "\<not> Tuple_Valid (rec_OriginalTuple (complete_record record))"
  | (stale) "result = Inl ErrStaleEvent" "s' = s" "identity_target s (rec_Identity (complete_record record)) = None"
      "list_ex (\<lambda>t. tombstoneIdentityMatches (tb_Identity t) (rec_Identity (complete_record record))) (st_tombstones s)"
  | (merged) i v t where "fmlookup (st_byID s) i = Some v"
      "identity_target s (rec_Identity (complete_record record)) = Some (i, v)
       \<or> tuple_target s (complete_record record) = Some (i, v)"
      "merge_into s i v (complete_record record) t = (s', result)"
      "t = (if now = 0 then env_Now env else now)"
  | (created) t where "create_session env s (complete_record record) t = (s', result)"
      "identity_target s (rec_Identity (complete_record record)) = None"
      "\<not> list_ex (\<lambda>t. tombstoneIdentityMatches (tb_Identity t) (rec_Identity (complete_record record))) (st_tombstones s)"
      "t = (if now = 0 then env_Now env else now)"
proof -
  define r where "r = complete_record record"
  define t where "t = (if now = 0 then env_Now env else now)"
  note res = assms [unfolded ApplyObserved_def Let_def, folded r_def, folded t_def]
  note cs = incomplete stale merged created
  note cs = cs [folded r_def]
  show thesis
  proof (cases "Tuple_Valid (rec_OriginalTuple r)")
    case False
    then show thesis using cs(1) res by simp
  next
    case valid: True
    show thesis
    proof (cases "identity_target s (rec_Identity r)")
      case (Some iv)
      obtain i v where "iv = (i, v)" by (cases iv)
      then show thesis
        using cs(3) [of i v t] res valid Some identity_target_live [of s "rec_Identity r"] t_def by simp
    next
      case none: None
      show thesis
      proof (cases "list_ex (\<lambda>t. tombstoneIdentityMatches (tb_Identity t) (rec_Identity r)) (st_tombstones s)")
        case True
        then show thesis using cs(2) res valid none by simp
      next
        case fresh: False
        show thesis
        proof (cases "tuple_target s r")
          case None
          then show thesis using cs(4) [of t] res valid none fresh t_def by simp
        next
          case (Some iv)
          obtain i v where "iv = (i, v)" by (cases iv)
          then show thesis
            using cs(3) [of i v t] res valid none fresh Some tuple_target_live [of s r] t_def by simp
        qed
      qed
    qed
  qed
qed

lemma ApplyObserved_inv: "store_inv s \<Longrightarrow> store_inv (fst (ApplyObserved env s record now))"
proof -
  assume inv: "store_inv s"
  obtain s' result where r: "ApplyObserved env s record now = (s', result)"
    by (cases "ApplyObserved env s record now")
  from r have "store_inv s'"
  proof (cases rule: ApplyObserved_cases)
    case (merged i v t)
    then show ?thesis using merge_into_ok [OF inv merged(1,3)] by blast
  next
    case (created t)
    from created(1) show ?thesis
      by (rule create_session_cases [OF index_inv_store(1) [OF inv]])
        (use inv in \<open>auto simp: store_inv_def\<close>)
  qed (use inv in auto)
  then show ?thesis by (simp add: r)
qed

section \<open>Reachable stores\<close>

datatype store_op =
    Op_Apply Record gotime
  | Op_Close ConntrackIdentity string gotime
  | Op_Delete string string gotime
  | Op_Invalidate string u64 string gotime
  | Op_SetDecision string u64 u64 Decision string string
  | Op_MarkEvaluationUnavailable string u64 string
  | Op_MarkRevoked string u64 string
  | Op_SetZones string string string
  | Op_UpdateInspection string ConntrackIdentity u64 u64 SessionInspection
  | Op_CompleteInspectionIntent InspectionIntent EnforcementResult
  | Op_CloseVerifiedExpired RuntimeSession gotime
  | Op_DeferExpired RuntimeSession gotime string
  | Op_PruneClosed gotime
  | Op_SetInspectionHistoryLimits int duration
  | Op_ReconcileMissing "string list" "ConntrackIdentity list" gotime gotime string

fun run_op :: "Env \<Rightarrow> store_op \<Rightarrow> RuntimeStore \<Rightarrow> RuntimeStore" where
  "run_op env (Op_Apply r now) s = fst (ApplyObserved env s r now)"
| "run_op env (Op_Close x reason now) s = fst (Close env s x reason now)"
| "run_op env (Op_Delete i reason now) s = fst (Delete env s i reason now)"
| "run_op env (Op_Invalidate i g reason now) s = fst (Invalidate s i g reason now)"
| "run_op env (Op_SetDecision i e g a p reason) s = fst (setDecision s i e g a p reason)"
| "run_op env (Op_MarkEvaluationUnavailable i g reason) s = fst (MarkEvaluationUnavailable s i g reason)"
| "run_op env (Op_MarkRevoked i g reason) s = fst (MarkRevoked env s i g reason)"
| "run_op env (Op_SetZones i a b) s = fst (SetZones s i a b)"
| "run_op env (Op_UpdateInspection i x g n insp) s = fst (UpdateInspection s i x g n insp)"
| "run_op env (Op_CompleteInspectionIntent intent res) s = fst (CompleteInspectionIntent s intent res)"
| "run_op env (Op_CloseVerifiedExpired c now) s = fst (CloseVerifiedExpired s c now)"
| "run_op env (Op_DeferExpired c now reason) s = fst (DeferExpired s c now reason)"
| "run_op env (Op_PruneClosed now) s = PruneClosed s now"
| "run_op env (Op_SetInspectionHistoryLimits n ttl) s = SetInspectionHistoryLimits env s n ttl"
| "run_op env (Op_ReconcileMissing order seen before now reason) s =
     fst (ReconcileMissing env order s seen before now reason)"

lemma run_op_inv: "store_inv s \<Longrightarrow> store_inv (run_op env op s)"
  by (cases op)
    (simp_all add: ApplyObserved_inv Close_inv Delete_inv Invalidate_inv setDecision_inv
      MarkEvaluationUnavailable_inv MarkRevoked_inv SetZones_inv UpdateInspection_inv
      CompleteInspectionIntent_inv CloseVerifiedExpired_inv DeferExpired_inv PruneClosed_def
      pruneClosed_inv SetInspectionHistoryLimits_inv ReconcileMissing_inv)

inductive reachable :: "RuntimeLimits \<Rightarrow> RuntimeStore \<Rightarrow> bool" for limits where
  reachable_new: "reachable limits (NewRuntimeStore limits)"
| reachable_op: "reachable limits s \<Longrightarrow> reachable limits (run_op env op s)"

lemma reachable_inv: "reachable limits s \<Longrightarrow> store_inv s"
  by (induction rule: reachable.induct) (simp_all add: store_inv_new run_op_inv)

end
