(* ===== verification/Store_Safety.thy ===== *)
theory Store_Safety
imports Store_Operations
begin

text \<open>
  What the session table guarantees to its callers: lookups agree with a search of the live
  sessions, a close removes exactly the session it names, and a revocation stays.
\<close>

section \<open>An example store\<close>

definition example_env :: Env where
  "example_env = \<lparr>env_Sum256 = (\<lambda>b. rev b), env_Now = 1000 * second, env_FormatRFC3339Nano = (\<lambda>t. ''t'')\<rparr>"

definition example_tuple :: Tuple where
  "example_tuple = TupleZero\<lparr>Family := 4, SrcIP := Addr4 167772161, DstIP := Addr4 167772162,
     SrcPort := 40000, DstPort := 443, Protocol := 6\<rparr>"

definition example_identity :: ConntrackIdentity where
  "example_identity = \<lparr>ci_BootID = ''b'', ci_NetworkNS = ''n'', ci_Zone = 0, ci_Family = 4, ci_ID = 7,
     ci_KernelStart = 0, ci_Original = example_tuple\<rparr>"

definition example_presence :: Presence where
  "example_presence = \<lparr>pres_OriginalTuple = True, pres_ReplyTuple = True, pres_Counters = False,
     pres_CountersOriginal = False, pres_CountersReply = False, pres_Timeout = True, pres_Timestamp = False,
     pres_ID = True, pres_Mark = False, pres_Zone = False, pres_ProtoInfo = False\<rparr>"

definition example_record :: Record where
  "example_record = \<lparr>rec_Identity = example_identity, rec_OriginalTuple = example_tuple,
     rec_ReplyTuple = Some (Tuple_Reverse example_tuple), rec_PacketsOriginal = 0, rec_BytesOriginal = 0,
     rec_PacketsReply = 0, rec_BytesReply = 0, rec_Timeout = 30 * second, rec_KernelStart = 0,
     rec_KernelStop = 0, rec_TCPState = ''ESTABLISHED'', rec_SeenReply = True, rec_Mark = 0,
     rec_Presence = example_presence, rec_ObservedAt = 0, rec_RawState = ''''\<rparr>"

definition example_store :: RuntimeStore where
  "example_store = run_op example_env (Op_Apply example_record (1000 * second)) (NewRuntimeStore DefaultRuntimeLimits)"

definition example_id :: string where
  "example_id = sessionID example_env example_identity"


section \<open>Tuple lookup is a search\<close>

lemma tuple_index:
  assumes "store_inv s"
  shows "i |\<in>| get_set (st_byTuple s) k \<longleftrightarrow>
    (\<exists>v. fmlookup (st_byID s) i = Some v \<and> k \<in> set (bounded_aliases s v))"
proof -
  have t: "i |\<in>| get_set (st_byTuple s) k \<longleftrightarrow> k \<in> set (get_list (st_aliasesBySession s) i)"
    and d: "fmdom (st_aliasesBySession s) = fmdom (st_byID s)"
    using assms by (auto simp: store_inv_def index_inv_def tuple_inv_def)
  show ?thesis
  proof (cases "fmlookup (st_byID s) i")
    case None
    then have "get_list (st_aliasesBySession s) i = []"
      using d by (intro get_list_notin) (auto simp: fmdom_notI)
    then show ?thesis using t None by simp
  next
    case (Some v)
    then show ?thesis
      using t index_inv_lookup [OF index_inv_store(1) [OF assms] Some] by (simp add: live_ok_def get_list_Some)
  qed
qed

lemma sessions_in_dom:
  assumes "set order \<subseteq> fset (fmdom (st_byID s))"
  shows "sessions_in s order = map (\<lambda>i. the (fmlookup (st_byID s) i)) order"
  using assms unfolding sessions_in_def
  by (induction order) (auto simp: List.map_filter_simps fmlookup_dom_iff fmlookup_dom'_iff split: option.splits)

definition search_alias :: "RuntimeStore \<Rightarrow> Key \<Rightarrow> RuntimeSession list" where
  "search_alias s k =
     filter (\<lambda>v. k \<in> set (bounded_aliases s v)) (sessions_in s (sorted_list_of_fset (fmdom (st_byID s))))"

lemma search_alias_ids:
  fixes k
  assumes "store_inv s"
  defines "ids \<equiv> filter (\<lambda>i. i |\<in>| get_set (st_byTuple s) k) (sorted_list_of_fset (fmdom (st_byID s)))"
  shows "search_alias s k = map (\<lambda>i. the (fmlookup (st_byID s) i)) ids" "distinct ids"
    "set ids = fset (get_set (st_byTuple s) k)"
proof -
  have "sessions_in s (sorted_list_of_fset (fmdom (st_byID s)))
      = map (\<lambda>i. the (fmlookup (st_byID s) i)) (sorted_list_of_fset (fmdom (st_byID s)))"
    by (rule sessions_in_dom) (simp add: sorted_list_of_fset.rep_eq)
  moreover have "filter (\<lambda>i. k \<in> set (bounded_aliases s (the (fmlookup (st_byID s) i))))
      (sorted_list_of_fset (fmdom (st_byID s))) = ids"
    unfolding ids_def
  proof (rule filter_cong [OF refl])
    fix i
    assume "i \<in> set (sorted_list_of_fset (fmdom (st_byID s)))"
    then show "k \<in> set (bounded_aliases s (the (fmlookup (st_byID s) i))) \<longleftrightarrow> i |\<in>| get_set (st_byTuple s) k"
      using tuple_index [OF assms(1), of i k] by (auto simp: sorted_list_of_fset.rep_eq fmlookup_dom'_iff)
  qed
  ultimately show "search_alias s k = map (\<lambda>i. the (fmlookup (st_byID s) i)) ids"
    by (simp add: search_alias_def filter_map comp_def)
  show "distinct ids" by (simp add: ids_def sorted_list_of_fset.rep_eq)
  show "set ids = fset (get_set (st_byTuple s) k)"
    using tuple_index [OF assms(1), of _ k] by (auto simp: ids_def sorted_list_of_fset.rep_eq intro: fmdomI)
qed

text \<open>
  C26: looking a flow key up in the tuple index of any store that a sequence of operations can build
  gives what a search of all live sessions gives: the session when exactly one session has the key
  among its (bounded) aliases, and the two distinct errors when none or several have.
\<close>

theorem resolve_is_search:
  assumes "reachable limits s"
  shows "Resolve s k =
    (case search_alias s k of [] \<Rightarrow> Inl ErrSessionMissing | [v] \<Rightarrow> Inr v | _ \<Rightarrow> Inl ErrAliasAmbiguous)"
proof -
  have inv: "store_inv s" by (rule reachable_inv [OF assms])
  let ?A = "get_set (st_byTuple s) k"
  obtain ids where ids: "search_alias s k = map (\<lambda>i. the (fmlookup (st_byID s) i)) ids" "distinct ids"
    "set ids = fset ?A" using search_alias_ids [OF inv, of k] by blast
  have A: "?A = fset_of_list ids" using ids(3) by (simp add: fset_of_list.abs_eq fset_inverse flip: fset_inject)
  have card: "fcard ?A = length ids" using distinct_card [OF ids(2)] ids(3) by (simp add: fcard.rep_eq)
  have amb: "1 \<le> rl_MaxAmbiguity (st_limits s)"
    using inv by (simp add: store_inv_def index_inv_def limits_ok_def)
  consider "ids = []" | i where "ids = [i]" | i j js where "ids = i # j # js"
    by (cases ids rule: remdups_adj.cases) auto
  then show ?thesis
  proof cases
    case 1
    then show ?thesis using A ids(1) by (simp add: Resolve_def resolveTupleLocked_def)
  next
    case (2 i)
    then obtain v where "fmlookup (st_byID s) i = Some v"
      using tuple_index [OF inv, of i k] A by auto
    then show ?thesis using 2 A ids(1) card amb by (simp add: Resolve_def resolveTupleLocked_def)
  next
    case (3 i j js)
    then show ?thesis using card ids(1) A by (simp add: Resolve_def resolveTupleLocked_def Let_def)
  qed
qed

lemma reachable_example: "reachable DefaultRuntimeLimits example_store"
  unfolding example_store_def by (rule reachable_op [OF reachable_new])

lemma example_live:
  "map_option rs_Identity (Get example_store example_id) = Some example_identity"
  "example_id \<noteq> ''''"
  by code_simp+

theorem resolve_is_search_witness:
  "Resolve example_store (identity_key example_identity (Tuple_Reverse example_tuple)) =
     (case search_alias example_store (identity_key example_identity (Tuple_Reverse example_tuple)) of
        [] \<Rightarrow> Inl ErrSessionMissing | [v] \<Rightarrow> Inr v | _ \<Rightarrow> Inl ErrAliasAmbiguous)"
  by (rule resolve_is_search [OF reachable_example])

section \<open>Closing\<close>

text \<open>No known part of an identity differs from the session's; 0 and the empty name are unknown.\<close>

definition identity_agrees :: "ConntrackIdentity \<Rightarrow> RuntimeSession \<Rightarrow> bool" where
  "identity_agrees x v \<longleftrightarrow>
     (ci_ID x = 0 \<or> ci_ID (rs_Identity v) = 0 \<or> ci_ID x = ci_ID (rs_Identity v))
     \<and> (ci_KernelStart x = 0 \<or> ci_KernelStart (rs_Identity v) = 0 \<or> ci_KernelStart x = ci_KernelStart (rs_Identity v))
     \<and> (ci_BootID x = '''' \<or> ci_BootID (rs_Identity v) = '''' \<or> ci_BootID x = ci_BootID (rs_Identity v))
     \<and> (ci_NetworkNS x = '''' \<or> ci_NetworkNS (rs_Identity v) = '''' \<or> ci_NetworkNS x = ci_NetworkNS (rs_Identity v))
     \<and> (Tuple_Valid (ci_Original x) \<longrightarrow> ci_Original x = rs_OriginalTuple v)"

text \<open>
  C27: a close that reports a session removed exactly that session. The session was live, no known
  part of the identity that was asked for (conntrack ID, kernel start, boot, network namespace,
  tuple) differs from the session's, and after the close the session is in no table and no index,
  while every other live session is as it was. A close that reports nothing changes no live session.
\<close>

theorem close_removes_exactly_the_named_session:
  assumes "reachable limits s" "Close env s x reason now = (s', result)"
  shows "(case result of
      None \<Rightarrow> st_byID s' = st_byID s
    | Some closed \<Rightarrow>
        (\<exists>i v. Get s i = Some v \<and> identity_agrees x v \<and> rs_Identity closed = rs_Identity v
           \<and> rs_State closed = SessionClosed \<and> st_byID s' = fmdrop i (st_byID s)
           \<and> (\<forall>k. i |\<notin>| get_set (st_byTuple s') k) \<and> i |\<notin>| fmran (st_byIdentity s')
           \<and> i |\<notin>| fmran (st_byConntrack s')))"
proof -
  have inv: "store_inv s" by (rule reachable_inv [OF assms(1)])
  have gone: "(\<forall>k. i |\<notin>| get_set (st_byTuple t) k) \<and> i |\<notin>| fmran (st_byIdentity t) \<and> i |\<notin>| fmran (st_byConntrack t)"
    if "store_inv t" "i |\<notin>| fmdom (st_byID t)" for i t
    using that tuple_index [OF that(1), of i]
    by (auto simp: store_inv_def index_inv_def owner_inv_def fmran'_alt_def fmlookup_ran_iff dest: fmdomI)
  show ?thesis
  proof (cases result)
    case None
    then show ?thesis
      using assms(2) by (auto simp: Close_def Let_def split: if_splits option.splits prod.splits)
  next
    case (Some closed)
    then obtain i v t where v: "fmlookup (st_byID s) i = Some v" "close_allowed x v"
      and c: "closeLocked s i v reason t = (s', closed)"
      using assms(2) by (auto simp: Close_def Let_def split: if_splits option.splits prod.splits)
    note ok = closeLocked_ok [OF inv c]
    have "i |\<notin>| fmdom (st_byID s')" by (simp add: ok(2))
    moreover have "identity_agrees x v"
      using v(2) by (auto simp: close_allowed_def identity_agrees_def known_conflict_def name_conflict_def)
    ultimately show ?thesis
      using v(1) ok gone [OF ok(1)] Some by (auto simp: Get_def)
  qed
qed

definition example_close :: "RuntimeStore \<times> RuntimeSession option" where
  "example_close = Close example_env example_store example_identity ''destroy'' (1001 * second)"

lemma example_close_some: "map_option rs_Identity (snd example_close) = Some example_identity"
  by code_simp

lemma example_close_eq:
  "Close example_env example_store example_identity ''destroy'' (1001 * second) =
     (fst example_close, snd example_close)"
  by (simp add: example_close_def)

theorem close_removes_exactly_the_named_session_witness:
  "snd example_close \<noteq> None
   \<and> (case snd example_close of
      None \<Rightarrow> st_byID (fst example_close) = st_byID example_store
    | Some closed \<Rightarrow>
        (\<exists>i v. Get example_store i = Some v \<and> identity_agrees example_identity v
           \<and> rs_Identity closed = rs_Identity v \<and> rs_State closed = SessionClosed
           \<and> st_byID (fst example_close) = fmdrop i (st_byID example_store)
           \<and> (\<forall>k. i |\<notin>| get_set (st_byTuple (fst example_close)) k)
           \<and> i |\<notin>| fmran (st_byIdentity (fst example_close)) \<and> i |\<notin>| fmran (st_byConntrack (fst example_close))))"
  using example_close_some close_removes_exactly_the_named_session [OF reachable_example example_close_eq]
  by auto

section \<open>Revocation\<close>

lemma reconcile_loop_sub:
  "reconcile_loop seen before now reason order s = (s', removed) \<Longrightarrow>
   fmlookup (st_byID s') i = Some v \<Longrightarrow> fmlookup (st_byID s) i = Some v"
proof (induction order arbitrary: s s' removed)
  case (Cons j order)
  from Cons.prems(1) show ?case
    by (auto split: option.splits if_splits prod.splits dest: Cons.IH [OF _ Cons.prems(2)] split: if_splits)
qed simp

definition keeps_revocation :: "RuntimeSession \<Rightarrow> RuntimeSession \<Rightarrow> bool" where
  "keeps_revocation v w \<longleftrightarrow>
     (rs_Revoked v \<longrightarrow> rs_Revoked w) \<and>
     (rs_Revoked v \<longrightarrow> rs_EffectiveDecision v = DecisionDrop \<longrightarrow> rs_EffectiveDecision w = DecisionDrop)"

lemma keeps_revocation_refl [simp]: "keeps_revocation v v"
  by (simp add: keeps_revocation_def)

lemma put_lookup [simp]:
  "fmlookup (st_byID (put_session s j w)) i = (if i = j then Some w else fmlookup (st_byID s) i)"
  "st_byID (count_invalidated s) = st_byID s"
  by (simp_all add: put_session_def count_invalidated_def)

lemma keeps_revocation_changes:
  "keeps_revocation v (invalidated g reason now v)" "keeps_revocation v (revoked g reason now v)"
  "\<not> rs_Revoked v \<Longrightarrow> keeps_revocation v w"
  by (simp_all add: keeps_revocation_def invalidated_def revoked_def Let_def)

lemma run_op_keeps_revocation:
  assumes inv: "store_inv s" and v: "fmlookup (st_byID s) i = Some v"
    and w: "fmlookup (st_byID (run_op env op s)) i = Some w"
    and nomark: "\<forall>j g reason. op \<noteq> Op_MarkEvaluationUnavailable j g reason"
    and fresh: "\<forall>r now. op = Op_Apply r now \<longrightarrow> fresh_session_id env s (rec_Identity (complete_record r)) \<noteq> i"
  shows "keeps_revocation v w"
proof (cases op)
  case (Op_Apply r now)
  obtain s' result where r: "ApplyObserved env s r now = (s', result)" by (cases "ApplyObserved env s r now")
  have w': "fmlookup (st_byID s') i = Some w" using w by (simp add: Op_Apply r)
  from r show ?thesis
  proof (cases rule: ApplyObserved_cases)
    case (merged j x t)
    obtain x' where x': "st_byID s' = fmupd j x' (st_byID s)" "decision_core x' = decision_core x"
      using merge_into_ok [OF inv merged(1,3)] by metis
    then show ?thesis using v w' merged(1)
      by (auto simp: keeps_revocation_def decision_core_def split: if_splits)
  next
    case (created t)
    from created(1) show ?thesis
      by (rule create_session_cases [OF index_inv_store(1) [OF inv]])
        (use v w' fresh Op_Apply in \<open>auto split: if_splits\<close>)
  qed (use v w' in auto)
next
  case (Op_Close x reason now)
  then show ?thesis using v w closeLocked_ok(2) [OF inv]
    by (auto simp: Close_def Let_def split: if_splits option.splits prod.splits)
next
  case (Op_CloseVerifiedExpired c now)
  then show ?thesis using v w closeLocked_ok(2) [OF inv]
    by (auto simp: CloseVerifiedExpired_def Let_def split: if_splits option.splits prod.splits)
next
  case (Op_ReconcileMissing order seen before now reason)
  then show ?thesis using v w reconcile_loop_sub
    by (fastforce simp: ReconcileMissing_def Let_def split: if_splits prod.splits)
next
  case (Op_DeferExpired c now reason)
  then show ?thesis using v w
    by (auto simp: DeferExpired_def Let_def keeps_revocation_def dest!: expiryCandidate_lookup
        split: if_splits option.splits prod.splits)
next
  case (Op_Delete j reason now)
  then show ?thesis using v w by (auto simp: Delete_def Let_def split: if_splits option.splits)
next
  case (Op_Invalidate j g reason now)
  then show ?thesis using v w
    by (auto simp: Invalidate_def Let_def keeps_revocation_changes split: if_splits option.splits)
next
  case (Op_SetDecision j e g a p reason)
  then show ?thesis using v w
    by (auto simp: setDecision_def Let_def keeps_revocation_changes split: if_splits option.splits)
next
  case (Op_MarkRevoked j g reason)
  then show ?thesis using v w
    by (auto simp: MarkRevoked_def Let_def keeps_revocation_changes split: if_splits option.splits)
next
  case (Op_SetZones j a b)
  then show ?thesis using v w
    by (auto simp: SetZones_def Let_def keeps_revocation_def split: if_splits option.splits)
next
  case (Op_UpdateInspection j x g n insp)
  then show ?thesis using v w
    by (auto simp: UpdateInspection_def updateInspectionLocked_def Let_def keeps_revocation_def
        split: if_splits option.splits)
next
  case (Op_CompleteInspectionIntent intent res)
  then show ?thesis using v w
    by (auto simp: CompleteInspectionIntent_def updateInspectionLocked_def Let_def keeps_revocation_def
        split: if_splits option.splits)
qed (use v w nomark in \<open>auto simp: PruneClosed_def pruneClosedLocked_def SetInspectionHistoryLimits_def Let_def\<close>)

text \<open>
  C13: a revoked session stays revoked, and its effective decision stays DROP, under every
  operation that leaves it in the table, except the one that marks it as not evaluated. The
  identifier of a session that the operation creates must be new.
\<close>

theorem revocation_is_sticky:
  assumes "reachable limits s" "Get s i = Some v" "rs_Revoked v"
    and "\<forall>j g reason. op \<noteq> Op_MarkEvaluationUnavailable j g reason"
    and "\<forall>r now. op = Op_Apply r now \<longrightarrow> fresh_session_id env s (rec_Identity (complete_record r)) \<noteq> i"
    and "Get (run_op env op s) i = Some w"
  shows "rs_Revoked w \<and> (rs_EffectiveDecision v = DecisionDrop \<longrightarrow> rs_EffectiveDecision w = DecisionDrop)"
  using run_op_keeps_revocation [OF reachable_inv [OF assms(1)], of i v env op w] assms(2-6)
  by (simp add: Get_def keeps_revocation_def)

definition example_revoked :: RuntimeStore where
  "example_revoked = run_op example_env (Op_MarkRevoked example_id 1 ''policy'') example_store"

lemma reachable_revoked: "reachable DefaultRuntimeLimits example_revoked"
  unfolding example_revoked_def by (rule reachable_op [OF reachable_example])

lemma example_revoked_live:
  "map_option rs_Revoked (Get example_revoked example_id) = Some True"
  "map_option rs_EffectiveDecision (Get example_revoked example_id) = Some DecisionDrop"
  "Get (run_op example_env (Op_Invalidate example_id 2 ''reload'' (1003 * second)) example_revoked) example_id \<noteq> None"
  by code_simp+

theorem revocation_is_sticky_witness:
  "\<exists>w. Get (run_op example_env (Op_Invalidate example_id 2 ''reload'' (1003 * second)) example_revoked) example_id = Some w
     \<and> rs_Revoked w \<and> rs_EffectiveDecision w = DecisionDrop"
  using example_revoked_live
    revocation_is_sticky [OF reachable_revoked, of example_id _ "Op_Invalidate example_id 2 ''reload'' (1003 * second)" example_env]
  by fastforce

text \<open>
  Marking a live session as not evaluated erases its decision whatever it was, so a revoked
  session no longer shows the DROP that its revocation enforces.
\<close>

lemma unavailable_erases_decision:
  assumes "Get s i = Some v" "rs_EffectiveDecision v = DecisionDrop" "rs_Revoked v"
  shows "\<exists>w. Get (fst (MarkEvaluationUnavailable s i g reason)) i = Some w
    \<and> rs_Revoked w \<and> rs_Decision w = '''' \<and> rs_EffectiveDecision w = ''''"
  using assms by (simp add: Get_def MarkEvaluationUnavailable_def Let_def unavailable_def)

lemma unavailable_erases_decision_witness:
  "\<exists>w. Get (fst (MarkEvaluationUnavailable example_revoked example_id 2 ''local'')) example_id = Some w
     \<and> rs_Revoked w \<and> rs_Decision w = '''' \<and> rs_EffectiveDecision w = ''''"
proof -
  obtain v where "Get example_revoked example_id = Some v" "rs_EffectiveDecision v = DecisionDrop" "rs_Revoked v"
    using example_revoked_live(1,2) by auto
  then show ?thesis by (rule unavailable_erases_decision)
qed

end
