(* ===== verification/Store_Incarnations.thy ===== *)
theory Store_Incarnations
imports Store_Safety
begin

text \<open>
  A kernel connection is known by its conntrack ID and its start time, and either may be missing
  from an event. The table never joins two connections whose known IDs or start times differ, as
  long as the events say which of the two they carry and the identifiers of new sessions are new.
\<close>

section \<open>Identities a session answers to\<close>

definition wf_record :: "Record \<Rightarrow> bool" where
  "wf_record r \<longleftrightarrow>
     (ci_ID (rec_Identity r) \<noteq> 0 \<longrightarrow> pres_ID (rec_Presence r))
     \<and> (ci_KernelStart (rec_Identity r) \<noteq> 0 \<longrightarrow> pres_Timestamp (rec_Presence r))"

definition agrees :: "ConntrackIdentity \<Rightarrow> ConntrackIdentity \<Rightarrow> bool" where
  "agrees x y \<longleftrightarrow>
     (ci_ID x \<noteq> 0 \<longrightarrow> ci_ID x = ci_ID y) \<and> (ci_KernelStart x \<noteq> 0 \<longrightarrow> ci_KernelStart x = ci_KernelStart y)"

definition compatible :: "ConntrackIdentity \<Rightarrow> ConntrackIdentity \<Rightarrow> bool" where
  "compatible x y \<longleftrightarrow>
     \<not> known_conflict (ci_ID x) (ci_ID y) \<and> \<not> known_conflict (ci_KernelStart x) (ci_KernelStart y)"

definition incarnation_inv :: "RuntimeStore \<Rightarrow> bool" where
  "incarnation_inv s \<longleftrightarrow>
     (\<forall>x i v. fmlookup (st_byIdentity s) x = Some i \<longrightarrow> fmlookup (st_byID s) i = Some v \<longrightarrow>
        agrees x (rs_Identity v))
     \<and> (\<forall>k i v. fmlookup (st_byConntrack s) k = Some i \<longrightarrow> fmlookup (st_byID s) i = Some v \<longrightarrow>
        ck_ID k = ci_ID (rs_Identity v) \<and> ck_ID k \<noteq> 0)"

lemma incarnation_identity:
  "incarnation_inv s \<Longrightarrow> fmlookup (st_byIdentity s) x = Some i \<Longrightarrow> fmlookup (st_byID s) i = Some v \<Longrightarrow>
   agrees x (rs_Identity v)"
  unfolding incarnation_inv_def by blast

lemma incarnation_conntrack:
  "incarnation_inv s \<Longrightarrow> fmlookup (st_byConntrack s) k = Some i \<Longrightarrow> fmlookup (st_byID s) i = Some v \<Longrightarrow>
   ck_ID k = ci_ID (rs_Identity v) \<and> ck_ID k \<noteq> 0"
  unfolding incarnation_inv_def by blast

lemma agrees_refl [simp]: "agrees x x"
  by (simp add: agrees_def)

lemma agrees_merged: "agrees x y \<Longrightarrow> agrees x (merged_identity r y)"
  by (auto simp: agrees_def merged_identity_def)

lemma agrees_record:
  "wf_record r \<Longrightarrow> compatible (rec_Identity r) y \<Longrightarrow> agrees (rec_Identity r) (merged_identity r y)"
  by (auto simp: agrees_def compatible_def known_conflict_def merged_identity_def wf_record_def)

lemma merged_ID: "ci_ID y \<noteq> 0 \<Longrightarrow> ci_ID (merged_identity r y) = ci_ID y"
  by (simp add: merged_identity_def)

lemma makeConntrackKey_ID: "makeConntrackKey x = Some k \<Longrightarrow> ck_ID k = ci_ID x \<and> ci_ID x \<noteq> 0"
  by (auto simp: makeConntrackKey_def split: if_splits)

section \<open>The target of a record is compatible with it\<close>

lemma identity_target_compatible:
  assumes "incarnation_inv s" "identity_target s x = Some (i, v)"
  shows "compatible x (rs_Identity v)"
proof -
  have i: "resolveIdentityLocked s x = i" "i \<noteq> ''''" and v: "fmlookup (st_byID s) i = Some v"
    using assms(2) by (auto simp: identity_target_def Let_def split: if_splits)
  show ?thesis
  proof (cases "get_str (st_byIdentity s) x = ''''")
    case False
    then have "fmlookup (st_byIdentity s) x = Some i"
      using i(1) by (auto simp: resolveIdentityLocked_def get_str_def split: option.splits)
    then show ?thesis
      using assms(1) v by (fastforce simp: incarnation_inv_def agrees_def compatible_def known_conflict_def)
  next
    case True
    show ?thesis
    proof (cases "resolve_by_conntrack s x")
      case (Some j)
      then have j: "j = i" using i(1) True by (simp add: resolveIdentityLocked_def)
      obtain k where k: "makeConntrackKey x = Some k" "fmlookup (st_byConntrack s) k = Some i"
        "\<not> known_conflict (ci_KernelStart x) (ci_KernelStart (rs_Identity v))"
        using Some i(2) v unfolding resolve_by_conntrack_def j
        by (auto simp: get_str_def Let_def split: option.splits if_splits)
      then have "ci_ID x = ci_ID (rs_Identity v)"
        using assms(1) v makeConntrackKey_ID [OF k(1)] by (auto simp: incarnation_inv_def)
      then show ?thesis using k(3) by (simp add: compatible_def known_conflict_def)
    next
      case None
      then have "resolve_by_tuple s x = Some i"
        using i True by (simp add: resolveIdentityLocked_def split: option.splits)
      then show ?thesis using i(2) v
        by (auto simp: resolve_by_tuple_def compatible_def Let_def split: if_splits TupleResolution.splits option.splits)
    qed
  qed
qed

lemma tuple_target_compatible: "tuple_target s r = Some (i, v) \<Longrightarrow> compatible (rec_Identity r) (rs_Identity v)"
  by (auto simp: tuple_target_def compatible_def known_conflict_def
      split: TupleResolution.splits option.splits if_splits)

section \<open>What remembering an identity adds\<close>

lemma trim_oldest_sub: "trim_oldest limit i ks m = (ks', m') \<Longrightarrow> fmlookup m' x = Some j \<Longrightarrow> fmlookup m x = Some j"
proof (induction ks arbitrary: m)
  case (Cons k ks)
  from Cons.prems show ?case
    by (auto split: if_splits dest!: Cons.IH simp: drop_if_owner_lookup)
qed simp

lemma remember_key_sub:
  "remember_key limit i k owned m = (owned', m') \<Longrightarrow> fmlookup m' x = Some j \<Longrightarrow>
   x = k \<and> j = i \<or> fmlookup m x = Some j"
  by (auto simp: remember_key_def Let_def split: if_splits prod.splits dest!: trim_oldest_sub)

lemma remember_identity_sub:
  "fmlookup (st_byIdentity (rememberIdentityLocked s i x)) y = Some j \<Longrightarrow>
   y = x \<and> j = i \<or> fmlookup (st_byIdentity s) y = Some j"
  by (auto simp: rememberIdentityLocked_def remember_exact_def split: if_splits prod.splits
      dest!: remember_key_sub)

lemma remember_exact_conntrack [simp]: "st_byConntrack (remember_exact s i x) = st_byConntrack s"
  by (simp add: remember_exact_def split: prod.splits)

lemma remember_conntrack_sub:
  "fmlookup (st_byConntrack (rememberIdentityLocked s i x)) k = Some j \<Longrightarrow>
   makeConntrackKey x = Some k \<and> j = i \<or> fmlookup (st_byConntrack s) k = Some j"
  by (auto simp: rememberIdentityLocked_def remember_conntrack_def split: if_splits prod.splits option.splits
      dest!: remember_key_sub)

lemma mergeLocked_owners:
  assumes "index_inv s" "fmlookup (st_byID s) i = Some v" "mergeLocked s i v r now = (s', w, c)"
  shows "fmlookup (st_byIdentity s') y = Some j \<Longrightarrow> y = rec_Identity r \<and> j = i \<or> fmlookup (st_byIdentity s) y = Some j"
    "fmlookup (st_byConntrack s') k = Some j \<Longrightarrow>
       makeConntrackKey (rec_Identity r) = Some k \<and> j = i \<or> fmlookup (st_byConntrack s) k = Some j"
proof -
  obtain s1 w1 where m: "merge_session r now s v = (s1, w1, c)"
    using assms(3) by (auto simp: mergeLocked_def Let_def split: prod.splits)
  note ok = merge_session_ok [OF assms(1,2) m]
  have s1: "st_byIdentity s1 = st_byIdentity s" "st_byConntrack s1 = st_byConntrack s"
    using ok(1) by (auto simp: reindexed_def)
  let ?t = "rememberIdentityLocked (s1\<lparr>st_expiryRetryAfter := fmdrop i (st_expiryRetryAfter s1)\<rparr>) i (rec_Identity r)"
  have "st_byIdentity s' = st_byIdentity ?t" "st_byConntrack s' = st_byConntrack ?t"
    using assms(3) ok(6) by (auto simp: mergeLocked_def m Let_def)
  then show "fmlookup (st_byIdentity s') y = Some j \<Longrightarrow> y = rec_Identity r \<and> j = i \<or> fmlookup (st_byIdentity s) y = Some j"
    "fmlookup (st_byConntrack s') k = Some j \<Longrightarrow>
       makeConntrackKey (rec_Identity r) = Some k \<and> j = i \<or> fmlookup (st_byConntrack s) k = Some j"
    using remember_identity_sub [of "s1\<lparr>st_expiryRetryAfter := fmdrop i (st_expiryRetryAfter s1)\<rparr>" i "rec_Identity r"]
      remember_conntrack_sub [of "s1\<lparr>st_expiryRetryAfter := fmdrop i (st_expiryRetryAfter s1)\<rparr>" i "rec_Identity r"]
    by (auto simp: s1)
qed

section \<open>Preservation\<close>

text \<open>The operations that do not apply a record add no identity and change none.\<close>

definition no_new_identity :: "RuntimeStore \<Rightarrow> RuntimeStore \<Rightarrow> bool" where
  "no_new_identity s s' \<longleftrightarrow>
     (\<forall>x i. fmlookup (st_byIdentity s') x = Some i \<longrightarrow> fmlookup (st_byIdentity s) x = Some i)
     \<and> (\<forall>k i. fmlookup (st_byConntrack s') k = Some i \<longrightarrow> fmlookup (st_byConntrack s) k = Some i)
     \<and> (\<forall>i w. fmlookup (st_byID s') i = Some w \<longrightarrow>
          (\<exists>v. fmlookup (st_byID s) i = Some v \<and> rs_Identity w = rs_Identity v))"

lemma no_new_identity_inv: "incarnation_inv s \<Longrightarrow> no_new_identity s s' \<Longrightarrow> incarnation_inv s'"
  by (fastforce simp: incarnation_inv_def no_new_identity_def)

lemma no_new_identity_trans: "no_new_identity s t \<Longrightarrow> no_new_identity t u \<Longrightarrow> no_new_identity s u"
  by (fastforce simp: no_new_identity_def)

lemma no_new_identity_refl:
  "st_byIdentity s' = st_byIdentity s \<Longrightarrow> st_byConntrack s' = st_byConntrack s \<Longrightarrow>
   st_byID s' = st_byID s \<Longrightarrow> no_new_identity s s'"
  by (simp add: no_new_identity_def)

lemma no_new_identity_put:
  "fmlookup (st_byID s) i = Some v \<Longrightarrow> rs_Identity w = rs_Identity v \<Longrightarrow>
   no_new_identity s (put_session s i w)"
  by (auto simp: no_new_identity_def put_session_def)

lemma no_new_identity_retire: "no_new_identity s (retire s i v now)"
  by (auto simp: no_new_identity_def retire_def appendClosedLocked_def Let_def fold_drop_if_owner_lookup
      split: if_splits)

lemma no_new_identity_counts [simp]:
  "no_new_identity s (count_invalidated t) = no_new_identity s t"
  "no_new_identity s (count_closed t n) = no_new_identity s t"
  by (simp_all add: no_new_identity_def count_invalidated_def count_closed_def)

lemma no_new_identity_close: "closeLocked s i v reason now = (s', w) \<Longrightarrow> no_new_identity s s'"
  by (auto simp: closeLocked_def Let_def no_new_identity_retire)

lemma changed_identity:
  "rs_Identity (invalidated g reason now v) = rs_Identity v" "rs_Identity (decided g a p reason v) = rs_Identity v"
  "rs_Identity (unavailable g reason v) = rs_Identity v" "rs_Identity (revoked g reason now v) = rs_Identity v"
  by (simp_all add: invalidated_def decided_def unavailable_def revoked_def Let_def)

lemma no_new_identity_reconcile: "no_new_identity s (fst (reconcile_loop seen before now reason order s))"
proof (induction order arbitrary: s)
  case (Cons i order)
  have "no_new_identity s s'" if "reconcile_loop seen before now reason order s = (s', removed)" for s s' removed
    using Cons.IH [of s] that by simp
  moreover have "no_new_identity s s'"
    if "reconcile_loop seen before now reason order (retire s i v now) = (s', removed)" for s' v removed
    using no_new_identity_trans [OF no_new_identity_retire Cons.IH [of "retire s i v now"]] that by simp
  ultimately show ?case using Cons.IH [of s] by (simp split: option.splits prod.splits)
qed (simp add: no_new_identity_refl)

lemma run_op_no_new_identity:
  assumes "\<forall>r now. op \<noteq> Op_Apply r now"
  shows "no_new_identity s (run_op env op s)"
proof -
  have same: "no_new_identity s s" by (simp add: no_new_identity_refl)
  show ?thesis
  proof (cases op)
    case (Op_ReconcileMissing order seen before now reason)
    have "no_new_identity s s'" if "reconcile_loop seenIDs b n reason order s = (s', removed)" for seenIDs b n s' removed
      using no_new_identity_reconcile [of s seenIDs b n reason order] that by simp
    then show ?thesis by (simp add: Op_ReconcileMissing ReconcileMissing_def Let_def split: prod.splits)
  next
    case (Op_Close x reason now)
    have "no_new_identity s (s\<lparr>st_byIdentity := fmdrop x (st_byIdentity s)\<rparr>)" by (auto simp: no_new_identity_def)
    then show ?thesis using same
      by (auto simp: Op_Close Close_def Let_def split: option.splits prod.splits dest: no_new_identity_close)
  next
    case (Op_DeferExpired c now reason)
    have "no_new_identity s (put_session (s\<lparr>st_expiryRetryAfter := m\<rparr>) i w)"
      if "fmlookup (st_byID s) i = Some v" "rs_Identity w = rs_Identity v" for i v w m
      using no_new_identity_put [OF that] by (simp add: no_new_identity_def put_session_def)
    then show ?thesis
      by (auto simp: Op_DeferExpired DeferExpired_def Let_def dest!: expiryCandidate_lookup
          intro: no_new_identity_refl split: option.splits)
  next
    case (Op_SetInspectionHistoryLimits n ttl)
    then show ?thesis
      by (auto simp: SetInspectionHistoryLimits_def pruneClosedLocked_def Let_def intro: no_new_identity_refl)
  next
    case (Op_PruneClosed now)
    then show ?thesis by (auto simp: PruneClosed_def pruneClosedLocked_def Let_def intro: no_new_identity_refl)
  qed (use assms same in \<open>auto simp: Delete_def Invalidate_def setDecision_def MarkEvaluationUnavailable_def
        MarkRevoked_def SetZones_def UpdateInspection_def CompleteInspectionIntent_def updateInspectionLocked_def
        CloseVerifiedExpired_def Let_def changed_identity no_new_identity_retire
        split: option.splits prod.splits intro: no_new_identity_put dest: no_new_identity_close\<close>)
qed

lemma merge_into_incarnation:
  assumes inv: "store_inv s" "incarnation_inv s" and v: "fmlookup (st_byID s) i = Some v"
    and r: "wf_record r" "compatible (rec_Identity r) (rs_Identity v)"
    and res: "merge_into s i v r now = (s', result)"
  shows "incarnation_inv s'"
proof -
  obtain w c where ok: "st_byID s' = fmupd i w (st_byID s)" "rs_Identity w = merged_identity r (rs_Identity v)"
    and m: "mergeLocked (rememberIdentityLocked s i (rec_Identity r)) i v r now = (s', w, c)"
    using merge_into_ok [OF inv(1) v res] by metis
  have i1: "index_inv (rememberIdentityLocked s i (rec_Identity r))"
    using index_inv_store(1) [OF inv(1)] fmdomI [OF v] by (rule index_inv_remember)
  have v1: "fmlookup (st_byID (rememberIdentityLocked s i (rec_Identity r))) i = Some v" by (simp add: v)
  note own = mergeLocked_owners [OF i1 v1 m]
  have own1: "y = rec_Identity r \<and> j = i \<or> fmlookup (st_byIdentity s) y = Some j"
    if "fmlookup (st_byIdentity s') y = Some j" for y j
    using own(1) [OF that] remember_identity_sub [of s i "rec_Identity r" y j] by blast
  have own2: "makeConntrackKey (rec_Identity r) = Some k \<and> j = i \<or> fmlookup (st_byConntrack s) k = Some j"
    if "fmlookup (st_byConntrack s') k = Some j" for k j
    using own(2) [OF that] remember_conntrack_sub [of s i "rec_Identity r" k j] by blast
  have ag: "agrees (rec_Identity r) (rs_Identity w)" using agrees_record [OF r] ok(2) by simp
  have key: "ck_ID k = ci_ID (rs_Identity w)" if "makeConntrackKey (rec_Identity r) = Some k" for k
    using makeConntrackKey_ID [OF that] ag by (auto simp: agrees_def)
  note old = incarnation_conntrack [OF inv(2)]
  show ?thesis
    unfolding incarnation_inv_def
  proof (rule conjI; intro allI impI)
    fix x j u assume "fmlookup (st_byIdentity s') x = Some j" "fmlookup (st_byID s') j = Some u"
    then show "agrees x (rs_Identity u)"
      using own1 [of x j] ag inv(2) v ok agrees_merged
      by (auto simp: incarnation_inv_def split: if_splits)
  next
    fix k j u assume k: "fmlookup (st_byConntrack s') k = Some j" and u: "fmlookup (st_byID s') j = Some u"
    show "ck_ID k = ci_ID (rs_Identity u) \<and> ck_ID k \<noteq> 0"
    proof (cases "makeConntrackKey (rec_Identity r) = Some k \<and> j = i")
      case True
      then have "u = w" using u ok(1) by simp
      then show ?thesis using key [of k] makeConntrackKey_ID [of "rec_Identity r" k] True by metis
    next
      case False
      then have k': "fmlookup (st_byConntrack s) k = Some j" using own2 [OF k] by blast
      show ?thesis
      proof (cases "j = i")
        case True
        then have "u = w" using u ok(1) by simp
        then show ?thesis using old [OF k'] v True ok(2) merged_ID [of "rs_Identity v" r] by metis
      next
        case False
        then show ?thesis using old [OF k'] u ok(1) by auto
      qed
    qed
  qed
qed

lemma indexLocked_owners:
  "st_byIdentity (fst (indexLocked s v)) = st_byIdentity s" "st_byConntrack (fst (indexLocked s v)) = st_byConntrack s"
  by (simp_all add: indexLocked_def removeTupleIndexesLocked_def Let_def)

lemma create_session_owners:
  assumes "create_session env s r now = (s', result)"
  shows "fmlookup (st_byIdentity s') y = Some j \<Longrightarrow>
      y = rec_Identity r \<and> j = fresh_session_id env s (rec_Identity r) \<or> fmlookup (st_byIdentity s) y = Some j"
    "fmlookup (st_byConntrack s') k = Some j \<Longrightarrow>
      makeConntrackKey (rec_Identity r) = Some k \<and> j = fresh_session_id env s (rec_Identity r)
      \<or> fmlookup (st_byConntrack s) k = Some j"
proof -
  let ?i = "fresh_session_id env s (rec_Identity r)"
  let ?t = "rememberIdentityLocked (s\<lparr>st_byID := fmupd ?i (new_session ?i r now) (st_byID s)\<rparr>) ?i (rec_Identity r)"
  have "st_byIdentity s' = st_byIdentity s \<and> st_byConntrack s' = st_byConntrack s
    \<or> st_byIdentity s' = st_byIdentity ?t \<and> st_byConntrack s' = st_byConntrack ?t"
    using assms indexLocked_owners [of ?t "new_session ?i r now"]
    by (auto simp: create_session_def Let_def split: if_splits prod.splits)
  then show "fmlookup (st_byIdentity s') y = Some j \<Longrightarrow>
      y = rec_Identity r \<and> j = ?i \<or> fmlookup (st_byIdentity s) y = Some j"
    "fmlookup (st_byConntrack s') k = Some j \<Longrightarrow>
      makeConntrackKey (rec_Identity r) = Some k \<and> j = ?i \<or> fmlookup (st_byConntrack s) k = Some j"
    using remember_identity_sub [of "s\<lparr>st_byID := fmupd ?i (new_session ?i r now) (st_byID s)\<rparr>" ?i "rec_Identity r" y j]
      remember_conntrack_sub [of "s\<lparr>st_byID := fmupd ?i (new_session ?i r now) (st_byID s)\<rparr>" ?i "rec_Identity r" k j]
    by auto
qed

lemma create_session_incarnation:
  assumes inv: "store_inv s" "incarnation_inv s" and fresh: "fresh_session_id env s (rec_Identity r) |\<notin>| fmdom (st_byID s)"
    and res: "create_session env s r now = (s', result)"
  shows "incarnation_inv s'"
proof (rule create_session_cases [OF index_inv_store(1) [OF inv(1)] res])
  assume "\<exists>x. s' = s\<lparr>st_stats := x\<rparr>"
  then show ?thesis using no_new_identity_inv [OF inv(2) no_new_identity_refl] by auto
next
  fix w
  assume 2: "st_byID s' = fmupd (fresh_session_id env s (rec_Identity r)) w (st_byID s)"
    "rs_Identity w = rec_Identity r"
  let ?i = "fresh_session_id env s (rec_Identity r)"
  have new: "fmlookup (st_byIdentity s) x \<noteq> Some ?i" "fmlookup (st_byConntrack s) k \<noteq> Some ?i" for x k
    using inv(1) fresh by (auto simp: store_inv_def index_inv_def owner_inv_def)
  show ?thesis
    unfolding incarnation_inv_def
  proof (rule conjI; intro allI impI)
    fix x j u assume "fmlookup (st_byIdentity s') x = Some j" "fmlookup (st_byID s') j = Some u"
    then show "agrees x (rs_Identity u)"
      using create_session_owners(1) [OF res, of x j] 2 new(1) [of x] incarnation_identity [OF inv(2), of x j u]
      by (cases "j = ?i") auto
  next
    fix k j u assume "fmlookup (st_byConntrack s') k = Some j" "fmlookup (st_byID s') j = Some u"
    then show "ck_ID k = ci_ID (rs_Identity u) \<and> ck_ID k \<noteq> 0"
      using create_session_owners(2) [OF res, of k j] 2 new(2) [of k] makeConntrackKey_ID [of "rec_Identity r" k]
        incarnation_conntrack [OF inv(2), of k j u] by (cases "j = ?i") auto
  qed
qed

section \<open>Incarnations are never joined\<close>

lemma complete_record_id:
  "ci_ID (rec_Identity (complete_record r)) = ci_ID (rec_Identity r)"
  "ci_KernelStart (rec_Identity (complete_record r)) = ci_KernelStart (rec_Identity r)"
  "rec_Presence (complete_record r) = rec_Presence r"
  by (simp_all add: complete_record_def Let_def)

lemma complete_record_wf: "wf_record (complete_record r) = wf_record r"
  by (simp add: wf_record_def complete_record_id)

definition sane_op :: "Env \<Rightarrow> RuntimeStore \<Rightarrow> store_op \<Rightarrow> bool" where
  "sane_op env s op =
     (case op of
        Op_Apply r now \<Rightarrow> wf_record r
          \<and> fresh_session_id env s (rec_Identity (complete_record r)) |\<notin>| fmdom (st_byID s)
      | _ \<Rightarrow> True)"

inductive sane_reachable :: "RuntimeLimits \<Rightarrow> RuntimeStore \<Rightarrow> bool" for limits where
  sane_new: "sane_reachable limits (NewRuntimeStore limits)"
| sane_step: "sane_reachable limits s \<Longrightarrow> sane_op env s op \<Longrightarrow> sane_reachable limits (run_op env op s)"

lemma sane_reachable_reachable: "sane_reachable limits s \<Longrightarrow> reachable limits s"
  by (induction rule: sane_reachable.induct) (auto intro: reachable.intros)

lemma merge_target_compatible:
  assumes "incarnation_inv s" "identity_target s (rec_Identity r) = Some (i, v) \<or> tuple_target s r = Some (i, v)"
  shows "compatible (rec_Identity r) (rs_Identity v)"
  using assms identity_target_compatible tuple_target_compatible by blast

lemma ApplyObserved_incarnation:
  assumes inv: "store_inv s" "incarnation_inv s" and sane: "sane_op env s (Op_Apply r now)"
  shows "incarnation_inv (fst (ApplyObserved env s r now))"
proof -
  obtain s' result where r: "ApplyObserved env s r now = (s', result)" by (cases "ApplyObserved env s r now")
  from r have "incarnation_inv s'"
  proof (cases rule: ApplyObserved_cases)
    case (merged i v t)
    then show ?thesis
      using merge_into_incarnation [OF inv merged(1) _ _ merged(3)] merge_target_compatible [OF inv(2) merged(2)]
        sane complete_record_wf by (simp add: sane_op_def)
  next
    case (created t)
    then show ?thesis using create_session_incarnation [OF inv _ created(1)] sane by (simp add: sane_op_def)
  qed (use inv in auto)
  then show ?thesis by (simp add: r)
qed

lemma sane_incarnation_inv: "sane_reachable limits s \<Longrightarrow> incarnation_inv s"
proof (induction rule: sane_reachable.induct)
  case sane_new
  show ?case by (simp add: incarnation_inv_def NewRuntimeStore_def Let_def)
next
  case (sane_step s env op)
  show ?case
  proof (cases "\<exists>r now. op = Op_Apply r now")
    case True
    then show ?thesis
      using sane_step ApplyObserved_incarnation reachable_inv [OF sane_reachable_reachable [OF sane_step(1)]] by auto
  next
    case False
    then show ?thesis using no_new_identity_inv [OF sane_step.IH run_op_no_new_identity] by blast
  qed
qed

text \<open>
  C6: a record is merged into a live session only if it can denote the same kernel connection: the
  conntrack IDs are equal unless one of them is unknown, and so are the kernel start times. The
  merge completes the parts of the session's identity that were unknown and changes no known part.
  This holds after any sequence of operations whose records say which identity parts they carry.
\<close>

theorem merge_never_joins_incarnations:
  assumes "sane_reachable limits s" "wf_record r"
    and "ApplyObserved env s r now = (s', Inr (w, False, changed))"
  shows "\<exists>i v. Get s i = Some v \<and> Get s' i = Some w
    \<and> \<not> known_conflict (ci_ID (rec_Identity r)) (ci_ID (rs_Identity v))
    \<and> \<not> known_conflict (ci_KernelStart (rec_Identity r)) (ci_KernelStart (rs_Identity v))
    \<and> rs_Identity w = merged_identity (complete_record r) (rs_Identity v)
    \<and> (ci_ID (rs_Identity v) \<noteq> 0 \<longrightarrow> ci_ID (rs_Identity w) = ci_ID (rs_Identity v))
    \<and> (ci_KernelStart (rs_Identity v) \<noteq> 0 \<longrightarrow> ci_KernelStart (rs_Identity w) = ci_KernelStart (rs_Identity v))"
proof -
  have inv: "store_inv s" "incarnation_inv s"
    using reachable_inv [OF sane_reachable_reachable [OF assms(1)]] sane_incarnation_inv [OF assms(1)] by simp_all
  from assms(3) show ?thesis
  proof (cases rule: ApplyObserved_cases)
    case (merged i v t)
    obtain w' c where "Inr (w, False, changed) = (Inr (w', False, c) :: StoreError + _)"
      "st_byID s' = fmupd i w' (st_byID s)"
      "rs_Identity w' = merged_identity (complete_record r) (rs_Identity v)"
      using merge_into_ok [OF inv(1) merged(1,3)] by metis
    then show ?thesis
      using merged(1) merge_target_compatible [OF inv(2) merged(2)]
      by (intro exI [of _ i] exI [of _ v])
        (auto simp: Get_def compatible_def complete_record_id, auto simp: merged_identity_def)
  next
    case (created t)
    from created(1) show ?thesis
      by (rule create_session_cases [OF index_inv_store(1) [OF inv(1)]]) auto
  qed auto
qed

lemma example_sane: "sane_op example_env (NewRuntimeStore DefaultRuntimeLimits) (Op_Apply example_record (1000 * second))"
  by code_simp

lemma example_merge:
  "case snd (ApplyObserved example_env example_store example_record (1001 * second)) of
     Inl e \<Rightarrow> False | Inr (w, created, changed) \<Rightarrow> \<not> created"
  by code_simp

theorem merge_never_joins_incarnations_witness:
  "\<exists>s' w changed i v. ApplyObserved example_env example_store example_record (1001 * second) = (s', Inr (w, False, changed))
    \<and> Get example_store i = Some v \<and> Get s' i = Some w
    \<and> \<not> known_conflict (ci_ID (rec_Identity example_record)) (ci_ID (rs_Identity v))"
proof -
  obtain s' w changed where e: "ApplyObserved example_env example_store example_record (1001 * second)
      = (s', Inr (w, False, changed))"
    using example_merge
    by (cases "ApplyObserved example_env example_store example_record (1001 * second)") (auto split: sum.splits)
  have "sane_reachable DefaultRuntimeLimits example_store"
    unfolding example_store_def by (rule sane_step [OF sane_new example_sane])
  moreover have "wf_record example_record" by code_simp
  ultimately show ?thesis using merge_never_joins_incarnations [OF _ _ e] e by blast
qed

end
