(* ===== verification/Store_Views.thy ===== *)
theory Store_Views
imports Store_Incarnations
begin

text \<open>
  The views of the session table: paging, expiry and the reconciliation with a kernel dump. Go
  ranges over the session map in an unspecified order; the results are shown not to depend on it.
\<close>

section \<open>Paging\<close>

definition enumerates :: "string list \<Rightarrow> RuntimeStore \<Rightarrow> bool" where
  "enumerates order s \<longleftrightarrow> distinct order \<and> set order = fset (fmdom (st_byID s))"

lemma enumerates_sorted: "enumerates (sorted_list_of_fset (fmdom (st_byID s))) s"
  by (simp add: enumerates_def sorted_list_of_fset.rep_eq)

lemma enumerated_sessions:
  assumes "store_inv s" "enumerates order s"
  shows "map rs_SessionID (sessions_in s order) = order"
    "set (sessions_in s order) = {v. \<exists>i. fmlookup (st_byID s) i = Some v}"
proof -
  have e: "sessions_in s order = map (\<lambda>i. the (fmlookup (st_byID s) i)) order"
    using assms(2) by (intro sessions_in_dom) (simp add: enumerates_def)
  have "rs_SessionID (the (fmlookup (st_byID s) i)) = i" if "i \<in> set order" for i
    using that assms(2) index_inv_id [OF index_inv_store(1) [OF assms(1)], of i]
    by (auto simp: enumerates_def fmlookup_dom'_iff)
  then show "map rs_SessionID (sessions_in s order) = order" by (simp add: e map_idI)
  show "set (sessions_in s order) = {v. \<exists>i. fmlookup (st_byID s) i = Some v}"
  proof safe
    fix v assume "v \<in> set (sessions_in s order)"
    then show "\<exists>i. fmlookup (st_byID s) i = Some v"
      using assms(2) by (auto simp: e enumerates_def fmlookup_dom_iff)
  next
    fix i v assume v: "fmlookup (st_byID s) i = Some v"
    have "i \<in> set order" using assms(2) fmdomI [OF v] by (simp add: enumerates_def)
    then show "v \<in> set (sessions_in s order)" unfolding e set_map by (rule rev_image_eqI) (simp add: v)
  qed
qed

lemma enumerated_unique_by:
  assumes "store_inv s" "enumerates order s" "enumerates order' s" "\<And>v. snd (key v) = rs_SessionID v"
  shows "sort_key key (filter P (sessions_in s order)) = sort_key key (filter P (sessions_in s order'))"
proof (rule sort_key_unique)
  have d: "distinct (map rs_SessionID (sessions_in s o1))" if "enumerates o1 s" for o1
    using enumerated_sessions(1) [OF assms(1) that] that by (simp add: enumerates_def)
  have dd: "distinct (sessions_in s o1)" if "enumerates o1 s" for o1
    using d [OF that] by (simp add: distinct_map)
  have "mset (sessions_in s order) = mset (sessions_in s order')"
    using enumerated_sessions(2) [OF assms(1)] assms(2,3) dd
    by (simp add: set_eq_iff_mset_eq_distinct [symmetric])
  then show "mset (filter P (sessions_in s order)) = mset (filter P (sessions_in s order'))" by simp
  have "v = w" if "key v = key w" "v \<in> set (sessions_in s order)" "w \<in> set (sessions_in s order)" for v w
    using d [OF assms(2)] that assms(4) by (metis distinct_map inj_onD)
  then show "inj_on key (set (filter P (sessions_in s order)))" by (auto simp: inj_on_def)
qed

lemmas enumerated_unique = enumerated_unique_by [where key = session_order, unfolded session_order_def snd_conv,
    folded session_order_def, OF _ _ _ refl]

lemma Query_in_order:
  assumes "store_inv s" "enumerates order s" "enumerates order' s"
  shows "Query_in env order s f page = Query_in env order' s f page"
  using enumerated_unique [OF assms] by (simp add: Query_in_def)

lemma List_in_order:
  assumes "store_inv s" "enumerates order s" "enumerates order' s"
  shows "List_in order s = List_in order' s"
  using enumerated_unique [OF assms, of "\<lambda>_. True"] by (simp add: List_in_def)

definition query_items :: "Env \<Rightarrow> string list \<Rightarrow> RuntimeStore \<Rightarrow> SessionFilter \<Rightarrow> int \<Rightarrow> int \<Rightarrow> RuntimeSession list" where
  "query_items env order s f number psize =
     (case Query_in env order s f \<lparr>pg_Number = number, pg_Size = psize, pg_Cursor = ''''\<rparr> of
        None \<Rightarrow> [] | Some p \<Rightarrow> pgr_Items p)"

lemma page_window:
  "0 \<le> a \<Longrightarrow> 1 \<le> n \<Longrightarrow> n \<le> 500 \<Longrightarrow> 0 \<le> len \<Longrightarrow> len \<le> maxInt64 - 500 \<Longrightarrow>
   wrapInt64 (min a len + n) = min a len + n"
  by (rule wrapInt64_id) (auto simp: min_def)

lemma page_items:
  assumes "1 \<le> psize" "psize \<le> 500" "(int n + 1) * psize \<le> maxInt64"
    "int (length (sessions_in s order)) \<le> maxInt64 - 500"
  shows "query_items env order s f (int n + 1) psize =
    take (nat psize) (drop (n * nat psize) (sort_key session_order (filter (\<lambda>v. matches v f) (sessions_in s order))))"
proof -
  let ?xs = "sort_key session_order (filter (\<lambda>v. matches v f) (sessions_in s order))"
  have "int (length ?xs) \<le> int (length (sessions_in s order))" by simp
  then have len: "int (length ?xs) \<le> maxInt64 - 500" using assms(4) by (rule order_trans)
  let ?start = "min (int n * psize) (int (length ?xs))"
  have pos: "0 \<le> int n * psize" using assms(1) by simp
  moreover have "int n * psize + psize \<le> maxInt64" using assms(3) by (simp add: algebra_simps)
  ultimately have b: "minInt64 \<le> int n * psize" "int n * psize \<le> maxInt64"
    using assms(1) by linarith+
  have start: "wrapInt64 (int n * psize) = int n * psize"
    using b by (rule wrapInt64_id)
  have stop: "wrapInt64 (?start + psize) = ?start + psize"
    using pos assms(1,2) _ len by (rule page_window) simp
  have q: "query_items env order s f (int n + 1) psize =
      take (nat (min (?start + psize) (int (length ?xs)) - ?start)) (drop (nat ?start) ?xs)"
  proof -
    define a where "a = int n * psize"
    have "int n + 1 - 1 = int n" by simp
    then show ?thesis
      using assms(1,2) start stop pos
      unfolding query_items_def Query_in_def page_size_def page_number_def Let_def
      by (auto simp: min_def a_def [symmetric] split: if_splits)
  qed
  show ?thesis
  proof (cases "int n * psize \<le> int (length ?xs)")
    case True
    have "nat (int n * psize) = n * nat psize" using assms(1) by (simp add: nat_mult_distrib)
    then show ?thesis using q True assms(1) by (auto simp: min_def)
  next
    case False
    moreover have "int (n * nat psize) = int n * psize" using assms(1) by simp
    ultimately have "length ?xs \<le> n * nat psize" by linarith
    then show ?thesis using q False by (simp add: min_def)
  qed
qed

lemma concat_pages:
  "k > 0 \<Longrightarrow> concat (map (\<lambda>n. take k (drop (n * k) xs)) [0..<N]) = take (N * k) xs"
  by (induction N) (simp_all add: take_add [symmetric] add.commute)

text \<open>
  C21: the pages of a query partition its result. Reading pages 1 to N of any valid size, in any
  order in which Go may visit the session map at each page, gives the matching sessions in the
  order of the session list, each exactly once, provided the N pages cover them and the page
  numbers do not overflow.
\<close>

theorem query_pages_partition:
  assumes "reachable limits s" "1 \<le> psize" "psize \<le> 500"
    and "\<forall>n < N. enumerates (order n) s"
    and "fmlen (st_byID s) \<le> N * nat psize" "int N * psize \<le> maxInt64 - 500"
  shows "concat (map (\<lambda>n. query_items env (order n) s f (int n + 1) psize) [0..<N]) =
    filter (\<lambda>v. matches v f) (List_sessions s)"
proof -
  have inv: "store_inv s" by (rule reachable_inv [OF assms(1)])
  let ?dom = "sorted_list_of_fset (fmdom (st_byID s))"
  let ?xs = "sort_key session_order (filter (\<lambda>v. matches v f) (sessions_in s ?dom))"
  have size: "length (sessions_in s o1) = fmlen (st_byID s)" if "enumerates o1 s" for o1
    using arg_cong [OF enumerated_sessions(1) [OF inv that], of length] that distinct_card [of o1]
    by (simp add: enumerates_def fcard.rep_eq)
  have "int (fmlen (st_byID s)) \<le> int (N * nat psize)" using assms(5) by (simp only: of_nat_le_iff)
  then have small: "int (fmlen (st_byID s)) \<le> maxInt64 - 500" using assms(2,6) by simp
  have page: "query_items env (order n) s f (int n + 1) psize = take (nat psize) (drop (n * nat psize) ?xs)"
    if "n < N" for n
  proof -
    have e: "enumerates (order n) s" using assms(4) that by simp
    have "(int n + 1) * psize \<le> int N * psize" using that assms(2) by (intro mult_right_mono) auto
    then have "(int n + 1) * psize \<le> maxInt64" using assms(6) by linarith
    then have "query_items env (order n) s f (int n + 1) psize = take (nat psize) (drop (n * nat psize)
        (sort_key session_order (filter (\<lambda>v. matches v f) (sessions_in s (order n)))))"
      using assms(2,3) small by (intro page_items) (simp_all add: size [OF e])
    then show ?thesis using enumerated_unique [OF inv e enumerates_sorted] by simp
  qed
  have "length ?xs \<le> N * nat psize"
    using assms(5) size [OF enumerates_sorted] length_filter_le [of "\<lambda>v. matches v f" "sessions_in s ?dom"]
    by (simp del: length_filter_le)
  then have all: "take (N * nat psize) ?xs = ?xs" by simp
  have "map (\<lambda>n. query_items env (order n) s f (int n + 1) psize) [0..<N] =
      map (\<lambda>n. take (nat psize) (drop (n * nat psize) ?xs)) [0..<N]"
    by (rule map_cong) (simp_all add: page)
  from arg_cong [OF this, of concat]
  have "concat (map (\<lambda>n. query_items env (order n) s f (int n + 1) psize) [0..<N]) = ?xs"
    using concat_pages [of "nat psize" ?xs N] assms(2) unfolding all by simp
  then show ?thesis
    by (simp add: List_sessions_def List_in_def filter_sort)
qed

text \<open>
  A page number whose offset overflows 64-bit arithmetic makes the slice start negative, and the
  query panics whatever the store holds: page 92233720368547760 of size 100 is such a page.
\<close>

lemma query_overflow_panics:
  "Query env s f \<lparr>pg_Number = 92233720368547760, pg_Size = 100, pg_Cursor = c\<rparr> = None"
  by (simp add: Query_def Query_in_def page_number_def page_size_def wrapInt64_def Let_def)

lemma example_small: "fmlen (st_byID example_store) \<le> 1 * nat 10"
  by code_simp

definition example_filter :: SessionFilter where
  "example_filter =
     \<lparr>sf_SourceIP = ''10.0.0.1'', sf_DestinationIP = '''', sf_Protocol = 6, sf_SourceZone = '''',
      sf_DestinationZone = '''', sf_State = '''', sf_Decision = '''', sf_TupleView = ''any''\<rparr>"

lemma example_filter_matches: "length (filter (\<lambda>v. matches v example_filter) (List_sessions example_store)) = 1"
  by code_simp

theorem query_pages_partition_witness:
  "length (filter (\<lambda>v. matches v example_filter) (List_sessions example_store)) = 1
   \<and> concat (map (\<lambda>n. query_items example_env (sorted_list_of_fset (fmdom (st_byID example_store))) example_store
      example_filter (int n + 1) 10) [0..<1])
   = filter (\<lambda>v. matches v example_filter) (List_sessions example_store)"
  by (rule conjI [OF example_filter_matches], rule query_pages_partition [OF reachable_example])
    (simp_all only: enumerates_sorted example_small, simp_all)

section \<open>Reconciliation with a complete dump\<close>

definition missing_session :: "RuntimeStore \<Rightarrow> string fset \<Rightarrow> gotime \<Rightarrow> string \<Rightarrow> bool" where
  "missing_session s seenIDs before i =
     (case fmlookup (st_byID s) i of None \<Rightarrow> False | Some v \<Rightarrow> reconcile_victim seenIDs before i v)"

lemma reconcile_loop_eq:
  assumes "distinct order" "reconcile_loop seenIDs before now reason order s = (s', removed)"
  shows "fmlookup (st_byID s') i =
      (if i \<in> set order \<and> missing_session s seenIDs before i then None else fmlookup (st_byID s) i)"
    "removed = map (\<lambda>i. reconcile_close now reason (the (fmlookup (st_byID s) i)))
      (filter (missing_session s seenIDs before) order)"
proof -
  have "fmlookup (st_byID s') i =
      (if i \<in> set order \<and> missing_session s seenIDs before i then None else fmlookup (st_byID s) i)
    \<and> removed = map (\<lambda>i. reconcile_close now reason (the (fmlookup (st_byID s) i)))
      (filter (missing_session s seenIDs before) order)"
    using assms
  proof (induction order arbitrary: s s' removed)
    case (Cons j order)
    show ?case
    proof (cases "missing_session s seenIDs before j")
      case False
      then have "reconcile_loop seenIDs before now reason order s = (s', removed)"
        using Cons.prems(2) by (auto simp: missing_session_def split: option.splits)
      then show ?thesis using Cons.IH [of s s' removed] Cons.prems(1) False by auto
    next
      case True
      then obtain v where v: "fmlookup (st_byID s) j = Some v" "reconcile_victim seenIDs before j v"
        by (auto simp: missing_session_def split: option.splits)
      let ?t = "retire s j (reconcile_close now reason v) now"
      obtain rest where r: "reconcile_loop seenIDs before now reason order ?t = (s', rest)"
        "removed = reconcile_close now reason v # rest"
        using Cons.prems(2) v by (auto split: prod.splits)
      have same: "fmlookup (st_byID ?t) k = fmlookup (st_byID s) k" if "k \<noteq> j" for k
        using that by simp
      have m: "missing_session ?t seenIDs before k = missing_session s seenIDs before k" if "k \<noteq> j" for k
        using that by (simp add: missing_session_def)
      have j: "\<not> missing_session ?t seenIDs before j" by (simp add: missing_session_def)
      note IH = Cons.IH [OF _ r(1)]
      have ne: "k \<noteq> j" if "k \<in> set order" for k using Cons.prems(1) that by auto
      have f: "filter (missing_session ?t seenIDs before) order = filter (missing_session s seenIDs before) order"
        by (rule filter_cong) (simp_all add: m ne)
      have "map (\<lambda>i. reconcile_close now reason (the (fmlookup (st_byID ?t) i)))
          (filter (missing_session s seenIDs before) order)
        = map (\<lambda>i. reconcile_close now reason (the (fmlookup (st_byID s) i)))
          (filter (missing_session s seenIDs before) order)"
        by (rule map_cong) (simp_all add: same ne)
      then have "removed = map (\<lambda>i. reconcile_close now reason (the (fmlookup (st_byID s) i)))
          (filter (missing_session s seenIDs before) (j # order))"
        using IH Cons.prems(1) True v(1) by (simp add: r(2) f)
      moreover have "fmlookup (st_byID s') i =
         (if i \<in> set (j # order) \<and> missing_session s seenIDs before i then None else fmlookup (st_byID s) i)"
        using IH Cons.prems(1) True j m [of i] by (cases "i = j") simp_all
      ultimately show ?thesis by simp
    qed
  qed simp
  then show "fmlookup (st_byID s') i =
      (if i \<in> set order \<and> missing_session s seenIDs before i then None else fmlookup (st_byID s) i)"
    "removed = map (\<lambda>i. reconcile_close now reason (the (fmlookup (st_byID s) i)))
      (filter (missing_session s seenIDs before) order)" by simp_all
qed

text \<open>
  C20: reconciling with a complete dump closes exactly the live sessions that the dump did not show
  and that were not observed after it began. It reports each of them once, closed, and leaves every
  other session as it was, in whatever order Go visits the session map while it deletes from it.
\<close>

theorem reconcile_closes_exactly_the_missing:
  assumes "reachable limits s" "enumerates order s" "before \<noteq> 0"
    and "ReconcileMissing env order s seen before now reason = (s', removed)"
  shows "let missing = (\<lambda>i. i \<notin> resolveIdentityLocked s ` set seen
        \<and> (\<exists>v. Get s i = Some v \<and> rs_LastObservedAt v \<le> before)) in
    (\<forall>i. Get s' i = (if missing i then None else Get s i))
    \<and> map rs_SessionID removed = filter missing order
    \<and> list_all (\<lambda>v. rs_State v = SessionClosed \<and> rs_ClosedAt v \<noteq> None) removed"
proof -
  have inv: "store_inv s" by (rule reachable_inv [OF assms(1)])
  have miss: "(\<lambda>i. i \<notin> resolveIdentityLocked s ` set seen \<and> (\<exists>v. Get s i = Some v \<and> rs_LastObservedAt v \<le> before))
      = missing_session s (seen_ids s seen) before"
    using index_inv_id [OF index_inv_store(1) [OF inv]]
    by (fastforce simp: fun_eq_iff missing_session_def reconcile_victim_def seen_ids_def fset_of_list.rep_eq
        Get_def split: option.splits)
  obtain t now' where r: "reconcile_loop (seen_ids s seen) before now' reason order s = (t, removed)"
    and s': "st_byID s' = st_byID t"
    using assms(3,4) by (auto simp: ReconcileMissing_def Let_def split: prod.splits if_splits)
  have d: "distinct order" using assms(2) by (simp add: enumerates_def)
  note eq = reconcile_loop_eq [OF d r]
  have live: "i \<in> set order" if "missing_session s (seen_ids s seen) before i" for i
    using that assms(2) by (simp add: missing_session_def enumerates_def split: option.splits) (simp add: fmdomI)
  have id: "rs_SessionID (the (fmlookup (st_byID s) i)) = i" if "missing_session s (seen_ids s seen) before i" for i
    using that index_inv_id [OF index_inv_store(1) [OF inv], of i]
    by (auto simp: missing_session_def split: option.splits)
  have keep: "rs_SessionID (reconcile_close now' reason v) = rs_SessionID v" "closed_ok (reconcile_close now' reason v)" for v
    by (simp_all add: reconcile_close_def closed_ok_def set_reason_def Let_def)
  show ?thesis
    using eq(1) live keep(2) unfolding Let_def miss
    by (auto simp: Get_def s' eq(2) keep(1) id comp_def list_all_iff closed_ok_def intro!: map_idI)
qed

lemma example_missing: "map_option rs_LastObservedAt (Get example_store example_id) = Some (1000 * second)"
  by code_simp

theorem reconcile_closes_exactly_the_missing_witness:
  "Get (fst (ReconcileMissing example_env (sorted_list_of_fset (fmdom (st_byID example_store))) example_store []
      (1001 * second) (1002 * second) ''resync'')) example_id = None"
  using reconcile_closes_exactly_the_missing [OF reachable_example enumerates_sorted _ prod.collapse [symmetric],
      of "1001 * second" "[]" example_env "1002 * second" "''resync''"] example_missing
  by (auto simp: Let_def)

section \<open>Expiry\<close>

lemma sort_key_map: "sort_key f (map g xs) = map g (sort_key (\<lambda>x. f (g x)) xs)"
proof -
  have "insort_key f (g x) (map g ys) = map g (insort_key (\<lambda>x. f (g x)) x ys)" for x ys
    by (induction ys) auto
  then show ?thesis by (induction xs) simp_all
qed

definition deadline_order :: "RuntimeSession \<Rightarrow> gotime \<times> string" where
  "deadline_order v = (case rs_ExpiresAt v of None \<Rightarrow> 0 | Some t \<Rightarrow> t, rs_SessionID v)"

text \<open>A deadline that is not after \<open>now\<close>, and a retry time, the zero time without an entry, that is.\<close>

definition past_deadline :: "gotime \<Rightarrow> RuntimeSession \<Rightarrow> bool" where
  "past_deadline now v \<longleftrightarrow> (\<exists>d. rs_ExpiresAt v = Some d \<and> d \<le> now)"

definition retry_time :: "RuntimeStore \<Rightarrow> RuntimeSession \<Rightarrow> gotime" where
  "retry_time s v = (case fmlookup (st_expiryRetryAfter s) (rs_SessionID v) of None \<Rightarrow> 0 | Some t \<Rightarrow> t)"

definition due_sessions :: "RuntimeStore \<Rightarrow> gotime \<Rightarrow> RuntimeSession list" where
  "due_sessions s now = sort_key deadline_order
     (filter (\<lambda>v. past_deadline now v \<and> retry_time s v \<le> now)
       (sessions_in s (sorted_list_of_fset (fmdom (st_byID s)))))"

lemma expired_by_eq: "expired_by = past_deadline"
  by (auto simp: fun_eq_iff expired_by_def past_deadline_def split: option.splits)

lemma due_sessions_eq:
  "due_sessions s now = sort_key deadline_order
     (filter (\<lambda>v. expired_by now v \<and> \<not> retry_blocked s now (rs_SessionID v))
       (sessions_in s (sorted_list_of_fset (fmdom (st_byID s)))))"
proof -
  have "retry_time s v \<le> now \<longleftrightarrow> \<not> retry_blocked s now (rs_SessionID v)" for v
    by (auto simp: retry_time_def retry_blocked_def split: option.splits)
  then show ?thesis by (simp add: due_sessions_def expired_by_eq)
qed

lemma session_pairs:
  assumes "store_inv s" "enumerates order s"
  shows "List.map_filter (\<lambda>i. map_option (Pair i) (fmlookup (st_byID s) i)) order =
    map (\<lambda>v. (rs_SessionID v, v)) (sessions_in s order)"
proof -
  have "List.map_filter (\<lambda>i. map_option (Pair i) (fmlookup (st_byID s) i)) ids =
      map (\<lambda>v. (rs_SessionID v, v)) (sessions_in s ids)" for ids
    using index_inv_id [OF index_inv_store(1) [OF assms(1)]]
    by (induction ids) (auto simp: sessions_in_def List.map_filter_simps split: option.splits)
  then show ?thesis .
qed

lemma still_due_all:
  assumes "\<forall>v \<in> set vs. fmlookup (st_byID s) (rs_SessionID v) = Some v \<and> expired_by now v
    \<and> \<not> retry_blocked s now (rs_SessionID v)"
  shows "List.map_filter (still_due s now) (map deadline_order vs) = vs"
  using assms
  by (induction vs)
    (auto simp: List.map_filter_simps still_due_def deadline_order_def expired_by_def split: option.splits)

lemma expiry_scan_eq:
  assumes "store_inv s" "enumerates order s"
  shows "fst (expiry_scan s now order) = map deadline_order (due_sessions s now)"
    "fst (snd (expiry_scan s now order)) = length (filter (expired_by now) (sessions_in s order))"
proof -
  let ?due = "\<lambda>v. expired_by now v \<and> \<not> retry_blocked s now (rs_SessionID v)"
  let ?k = "\<lambda>v. (case rs_ExpiresAt v of None \<Rightarrow> 0 | Some t \<Rightarrow> t, rs_SessionID v)"
  have k: "?k = deadline_order" by (simp add: fun_eq_iff deadline_order_def)
  have "fst (expiry_scan s now order) = sort_key id (map ?k (filter ?due (sessions_in s order)))"
    by (simp add: expiry_scan_def session_pairs [OF assms] Let_def filter_map comp_def split_beta conj_commute)
  also have "\<dots> = map deadline_order (sort_key deadline_order (filter ?due (sessions_in s order)))"
    by (simp add: k sort_key_map)
  also have "sort_key deadline_order (filter ?due (sessions_in s order)) = due_sessions s now"
    unfolding due_sessions_eq
    by (rule enumerated_unique_by [OF assms enumerates_sorted]) (simp add: deadline_order_def)
  finally show "fst (expiry_scan s now order) = map deadline_order (due_sessions s now)" .
  show "fst (snd (expiry_scan s now order)) = length (filter (expired_by now) (sessions_in s order))"
    by (simp add: expiry_scan_def session_pairs [OF assms] Let_def filter_map comp_def split_beta)
qed

lemma due_sessions_live:
  assumes "store_inv s" "v \<in> set (due_sessions s now)"
  shows "fmlookup (st_byID s) (rs_SessionID v) = Some v \<and> expired_by now v \<and> \<not> retry_blocked s now (rs_SessionID v)"
proof -
  have m: "v \<in> set (sessions_in s (sorted_list_of_fset (fmdom (st_byID s))))"
    and e: "expired_by now v" "\<not> retry_blocked s now (rs_SessionID v)"
    using assms(2) by (simp_all add: due_sessions_eq)
  obtain i where "fmlookup (st_byID s) i = Some v"
    using m enumerated_sessions(2) [OF assms(1) enumerates_sorted] by auto
  then show ?thesis using index_inv_id [OF index_inv_store(1) [OF assms(1)], of i v] e by simp
qed

text \<open>
  C28: the expiry candidates are the live sessions whose deadline has passed and that are not
  deferred, earliest deadline first, cut at the budget, and the reported count is the number of all
  sessions past their deadline. The order in which Go visits the session map does not matter.
\<close>

theorem expired_candidates_are_the_due_sessions:
  assumes "reachable limits s" "enumerates order s"
  shows "\<exists>oldest. ExpiredCandidates_in order s s now budget =
    (take (nat (if budget \<le> 0 then 512 else budget)) (due_sessions s now),
     length (filter (past_deadline now) (List_sessions s)), oldest)"
proof -
  have inv: "store_inv s" by (rule reachable_inv [OF assms(1)])
  obtain due n old where scan: "expiry_scan s now order = (due, n, old)"
    by (cases "expiry_scan s now order")
  have due: "due = map deadline_order (due_sessions s now)"
    and n: "n = length (filter (expired_by now) (sessions_in s order))"
    using expiry_scan_eq [OF inv assms(2), of now] by (simp_all add: scan)
  have "List.map_filter (still_due s now) due = due_sessions s now"
    unfolding due using due_sessions_live [OF inv] by (intro still_due_all) blast
  moreover have "n = length (filter (expired_by now) (List_sessions s))"
  proof -
    have "sort_key session_order (filter (expired_by now) (sessions_in s order)) =
        sort_key session_order (filter (expired_by now) (sessions_in s (sorted_list_of_fset (fmdom (st_byID s)))))"
      by (rule enumerated_unique [OF inv assms(2) enumerates_sorted])
    from arg_cong [OF this, of length] show ?thesis
      by (simp add: n List_sessions_def List_in_def filter_sort)
  qed
  ultimately show ?thesis by (simp add: ExpiredCandidates_in_def scan Let_def expired_by_eq)
qed

theorem expired_candidates_are_the_due_sessions_witness:
  "\<exists>oldest. ExpiredCandidates_in (sorted_list_of_fset (fmdom (st_byID example_store))) example_store example_store
      (2000 * second) 10 =
    (take 10 (due_sessions example_store (2000 * second)),
     length (filter (past_deadline (2000 * second)) (List_sessions example_store)), oldest)"
  using expired_candidates_are_the_due_sessions [OF reachable_example enumerates_sorted, of "2000 * second" 10] by simp

section \<open>Consistency and bounds\<close>

lemma owner_inv_live: "owner_inv l (fmdom (st_byID s)) owned m \<Longrightarrow> fmlookup m x = Some i \<Longrightarrow> Get s i \<noteq> None"
  by (auto simp: owner_inv_def Get_def fmlookup_dom_iff)

text \<open>
  C5: in every store that operations can build, a live session is stored under its own identifier,
  is in a live state and has no closing time; the tuple index lists under a key exactly the sessions
  that have the key among their aliases, up to the alias limit; and the identity and conntrack
  indexes name only live sessions.
\<close>

theorem reachable_store_consistent:
  assumes "reachable limits s"
  shows "(\<forall>i v. Get s i = Some v \<longrightarrow> rs_SessionID v = i \<and> live_state (rs_State v) \<and> rs_ClosedAt v = None)
    \<and> (\<forall>k i. i |\<in>| get_set (st_byTuple s) k \<longleftrightarrow> (\<exists>v. Get s i = Some v \<and> k \<in> set (bounded_aliases s v)))
    \<and> (\<forall>x i. fmlookup (st_byIdentity s) x = Some i \<longrightarrow> Get s i \<noteq> None)
    \<and> (\<forall>k i. fmlookup (st_byConntrack s) k = Some i \<longrightarrow> Get s i \<noteq> None)"
proof -
  have inv: "store_inv s" by (rule reachable_inv [OF assms])
  have "rs_SessionID v = i \<and> live_state (rs_State v) \<and> rs_ClosedAt v = None" if "Get s i = Some v" for i v
    using index_inv_lookup [OF index_inv_store(1) [OF inv], of i v] that by (simp add: Get_def live_ok_def)
  moreover have "i |\<in>| get_set (st_byTuple s) k \<longleftrightarrow> (\<exists>v. Get s i = Some v \<and> k \<in> set (bounded_aliases s v))" for k i
    using tuple_index [OF inv] by (simp add: Get_def)
  moreover have "Get s i \<noteq> None" if "fmlookup (st_byIdentity s) x = Some i" for x i
    using inv that unfolding store_inv_def index_inv_def by (blast dest: owner_inv_live)
  moreover have "Get s i \<noteq> None" if "fmlookup (st_byConntrack s) k = Some i" for k i
    using inv that unfolding store_inv_def index_inv_def by (blast dest: owner_inv_live)
  ultimately show ?thesis by blast
qed

theorem reachable_store_consistent_witness:
  "\<exists>v. Get example_store example_id = Some v \<and> rs_SessionID v = example_id \<and> live_state (rs_State v)"
  using reachable_store_consistent [OF reachable_example] example_live(1) by auto

lemma run_op_capacity:
  assumes "store_inv s"
  shows "rl_MaxSessions (st_limits (run_op env op s)) = rl_MaxSessions (st_limits s)
    \<and> rl_MaxAliases (st_limits (run_op env op s)) = rl_MaxAliases (st_limits s)"
proof (cases op)
  case (Op_Apply r now)
  obtain s' result where r: "ApplyObserved env s r now = (s', result)" by (cases "ApplyObserved env s r now")
  from r have "st_limits s' = st_limits s"
  proof (cases rule: ApplyObserved_cases)
    case (merged i v t)
    then show ?thesis using merge_into_ok [OF assms merged(1,3)] by metis
  next
    case (created t)
    from created(1) show ?thesis
      by (rule create_session_cases [OF index_inv_store(1) [OF assms]]) auto
  qed auto
  then show ?thesis by (simp add: Op_Apply r)
next
  case (Op_ReconcileMissing order seen before now reason)
  have "st_limits (fst (reconcile_loop seenIDs b n reason order t)) = st_limits t" for seenIDs b n order t
    by (induction order arbitrary: t) (auto split: option.splits prod.splits, metis fst_conv retire_fields(2))
  then have "st_limits t = st_limits s" if "reconcile_loop seenIDs b n reason order s = (t, removed)" for seenIDs b n t removed
    using that by (metis fst_conv)
  then show ?thesis by (auto simp: Op_ReconcileMissing ReconcileMissing_def Let_def split: prod.splits)
next
  case (Op_Close x reason now)
  then show ?thesis
    by (auto simp: Close_def Let_def split: option.splits prod.splits dest: closeLocked_ok(3) [OF assms])
next
  case (Op_CloseVerifiedExpired c now)
  then show ?thesis
    by (auto simp: CloseVerifiedExpired_def Let_def split: option.splits prod.splits dest: closeLocked_ok(3) [OF assms])
qed (auto simp: Delete_def Invalidate_def setDecision_def MarkEvaluationUnavailable_def MarkRevoked_def SetZones_def
    UpdateInspection_def CompleteInspectionIntent_def updateInspectionLocked_def DeferExpired_def PruneClosed_def
    pruneClosedLocked_def SetInspectionHistoryLimits_def put_session_def count_invalidated_def Let_def
    split: option.splits prod.splits)

lemma reachable_capacity:
  "reachable limits s \<Longrightarrow> rl_MaxSessions (st_limits s) = rl_MaxSessions (effectiveLimits limits)
     \<and> rl_MaxAliases (st_limits s) = rl_MaxAliases (effectiveLimits limits)"
proof (induction rule: reachable.induct)
  case reachable_new
  show ?case by (simp add: NewRuntimeStore_def Let_def)
next
  case (reachable_op s env op)
  then show ?case using run_op_capacity [OF reachable_inv [OF reachable_op(1)]] by simp
qed

text \<open>
  C30: whatever the sequence of operations, the store holds at most the configured number of
  sessions, at most the configured number of aliases, identities and conntrack keys for each
  session, and at most the history limit of closed sessions and of tombstones.
\<close>

theorem reachable_store_bounded:
  assumes "reachable limits s"
  shows "int (fmlen (st_byID s)) \<le> Capacity (NewRuntimeStore limits)
    \<and> (\<forall>i. int (length (get_list (st_aliasesBySession s) i)) \<le> rl_MaxAliases (effectiveLimits limits)
        \<and> int (length (get_list (st_identitiesBySession s) i)) \<le> rl_MaxAliases (effectiveLimits limits)
        \<and> int (length (get_list (st_conntracksBySession s) i)) \<le> rl_MaxAliases (effectiveLimits limits))
    \<and> int (length (st_closed s)) \<le> rl_MaxClosed (st_limits s)
    \<and> int (length (st_tombstones s)) \<le> rl_MaxClosed (st_limits s)"
proof -
  have inv: "store_inv s" by (rule reachable_inv [OF assms])
  note lim = reachable_capacity [OF assms]
  have al: "int (length (get_list (st_aliasesBySession s) i)) \<le> rl_MaxAliases (st_limits s)" for i
  proof (cases "fmlookup (st_byID s) i")
    case None
    then have "get_list (st_aliasesBySession s) i = []"
      using inv by (intro get_list_notin) (auto simp: store_inv_def index_inv_def fmdom_notI)
    then show ?thesis using inv by (simp add: store_inv_def index_inv_def limits_ok_def)
  next
    case (Some v)
    have "get_list (st_aliasesBySession s) i = bounded_aliases s v"
      using index_inv_lookup [OF index_inv_store(1) [OF inv] Some] by (simp add: live_ok_def get_list_Some)
    moreover have "1 \<le> rl_MaxAliases (st_limits s)"
      using inv by (simp add: store_inv_def index_inv_def limits_ok_def)
    ultimately show ?thesis by simp
  qed
  show ?thesis
    using inv al lim
    by (simp add: store_inv_def index_inv_def history_inv_def owner_inv_def Capacity_def NewRuntimeStore_def Let_def)
qed

theorem reachable_store_bounded_witness:
  "int (fmlen (st_byID example_store)) \<le> Capacity (NewRuntimeStore DefaultRuntimeLimits)"
  using reachable_store_bounded [OF reachable_example] by simp

end
