(* ===== verification/Store_Runs.thy ===== *)
theory Store_Runs
imports Store_Safety
begin

text \<open>
  Runs of the session table: what holds over any sequence of operations between two moments. A
  session that was closed is not brought back as long as the closed history remembers it, and an
  expiry acts on a snapshot only if nothing happened to the session since the snapshot was taken.
\<close>

section \<open>Runs of operations\<close>

definition run_ops :: "(Env \<times> store_op) list \<Rightarrow> RuntimeStore \<Rightarrow> RuntimeStore" where
  "run_ops ops s = fold (\<lambda>(env, op). run_op env op) ops s"

lemma run_ops_simps [simp]:
  "run_ops [] s = s" "run_ops ((env, op) # ops) s = run_ops ops (run_op env op s)"
  by (simp_all add: run_ops_def)

text \<open>A condition on every operation of a run and the store it starts in.\<close>

fun steps_ok :: "(Env \<Rightarrow> store_op \<Rightarrow> RuntimeStore \<Rightarrow> bool) \<Rightarrow> (Env \<times> store_op) list \<Rightarrow> RuntimeStore \<Rightarrow> bool" where
  "steps_ok P [] s = True"
| "steps_ok P ((env, op) # ops) s \<longleftrightarrow> P env op s \<and> steps_ok P ops (run_op env op s)"

lemma run_ops_inv: "store_inv s \<Longrightarrow> store_inv (run_ops ops s)"
  by (induction ops arbitrary: s) (auto simp: run_op_inv)

text \<open>The time an operation acts at: its argument, or the clock where the argument is the zero time.\<close>

definition op_time :: "Env \<Rightarrow> store_op \<Rightarrow> gotime" where
  "op_time env op =
     (let given = (\<lambda>now. if now = 0 then env_Now env else now) in
      case op of
        Op_Apply r now \<Rightarrow> given now
      | Op_Close x reason now \<Rightarrow> given now
      | Op_Delete i reason now \<Rightarrow> given now
      | Op_ReconcileMissing order seen before now reason \<Rightarrow> given now
      | Op_CloseVerifiedExpired c now \<Rightarrow> now
      | Op_PruneClosed now \<Rightarrow> now
      | _ \<Rightarrow> env_Now env)"

section \<open>Closing in runs\<close>

text \<open>The sessions that leave the table in one step, and in a run.\<close>

definition closed_by :: "RuntimeStore \<Rightarrow> RuntimeStore \<Rightarrow> nat" where
  "closed_by s s' = fcard (fmdom (st_byID s) |-| fmdom (st_byID s'))"

fun closings :: "(Env \<times> store_op) list \<Rightarrow> RuntimeStore \<Rightarrow> nat" where
  "closings [] s = 0"
| "closings ((env, op) # ops) s = closed_by s (run_op env op s) + closings ops (run_op env op s)"

text \<open>Sessions are retired one after the other, and nothing else changes in the history.\<close>

inductive retires :: "gotime \<Rightarrow> RuntimeStore \<Rightarrow> RuntimeStore \<Rightarrow> bool" for now where
  retires_none: "fmdom (st_byID s') = fmdom (st_byID s) \<Longrightarrow> st_tombstones s' = st_tombstones s \<Longrightarrow>
    st_limits s' = st_limits s \<Longrightarrow> retires now s s'"
| retires_one: "fmlookup (st_byID s) i = Some v \<Longrightarrow> rs_Identity w = rs_Identity v \<Longrightarrow>
    retires now (retire s i w now) s' \<Longrightarrow> retires now s s'"

lemma retires_domain: "retires now s s' \<Longrightarrow> fmdom (st_byID s') |\<subseteq>| fmdom (st_byID s)"
  by (induction rule: retires.induct) auto

lemma retires_limits: "retires now s s' \<Longrightarrow> st_limits s' = st_limits s"
  by (induction rule: retires.induct) simp_all

lemma closed_by_retire:
  assumes "fmlookup (st_byID s) i = Some v" "retires now (retire s i w now) s'"
  shows "closed_by s s' = Suc (closed_by (retire s i w now) s')"
proof -
  have i: "i |\<in>| fmdom (st_byID s)" "i |\<notin>| fmdom (st_byID s')"
    using assms(1) retires_domain [OF assms(2)] by (auto simp: fmdomI)
  then have "fmdom (st_byID s) |-| fmdom (st_byID s')
      = finsert i (fmdom (fmdrop i (st_byID s)) |-| fmdom (st_byID s'))"
    by auto
  then show ?thesis by (simp add: closed_by_def fcard_finsert_disjoint)
qed

text \<open>A tombstone of an identity and a time with at most \<open>n\<close> younger ones.\<close>

definition remembered :: "ConntrackIdentity \<Rightarrow> gotime \<Rightarrow> nat \<Rightarrow> RuntimeStore \<Rightarrow> bool" where
  "remembered x t n s \<longleftrightarrow> (\<exists>older tomb younger. st_tombstones s = older @ tomb # younger
     \<and> tb_Identity tomb = x \<and> tb_At tomb = t \<and> length younger \<le> n)"

lemma remembered_mono: "remembered x t n s \<Longrightarrow> n \<le> m \<Longrightarrow> remembered x t m s"
  unfolding remembered_def by fastforce

lemma remembered_trim:
  assumes "remembered x t n s" "int n < rl_MaxClosed (st_limits s)"
  shows "remembered x t n (trimClosedLocked s)"
proof -
  obtain older tomb younger where s: "st_tombstones s = older @ tomb # younger" "tb_Identity tomb = x"
    "tb_At tomb = t" "length younger \<le> n"
    using assms(1) unfolding remembered_def by blast
  have "st_tombstones (trimClosedLocked s)
      = drop (length (st_tombstones s) - nat (rl_MaxClosed (st_limits s))) older @ tomb # younger"
    using s(1,4) assms(2) by (simp add: trimClosed_history)
  with s show ?thesis unfolding remembered_def by blast
qed

lemma retire_trim:
  "remembered x t n (retire s i w now) =
   remembered x t n (trimClosedLocked (s\<lparr>st_closed := st_closed s @ [w],
     st_tombstones := st_tombstones s @ [\<lparr>tb_ID = i, tb_Identity = rs_Identity w, tb_At = now\<rparr>]\<rparr>))"
  by (simp add: remembered_def retire_def appendClosedLocked_def Let_def)

lemma remembered_retire:
  assumes "remembered x t n s" "int (Suc n) < rl_MaxClosed (st_limits s)"
  shows "remembered x t (Suc n) (retire s i w now)"
  unfolding retire_trim
proof (rule remembered_trim)
  show "remembered x t (Suc n) (s\<lparr>st_closed := st_closed s @ [w],
      st_tombstones := st_tombstones s @ [\<lparr>tb_ID = i, tb_Identity = rs_Identity w, tb_At = now\<rparr>]\<rparr>)"
    using assms(1) unfolding remembered_def by fastforce
qed (use assms(2) in simp)

lemma retire_remembers:
  assumes "0 < rl_MaxClosed (st_limits s)"
  shows "remembered (rs_Identity w) now 0 (retire s i w now)"
  unfolding retire_trim by (rule remembered_trim) (use assms in \<open>auto simp: remembered_def\<close>)

lemma retires_remembered:
  assumes "retires now s s'" "remembered x t n s" "int (Suc (n + closed_by s s')) \<le> rl_MaxClosed (st_limits s)"
  shows "remembered x t (n + closed_by s s') s'"
  using assms
proof (induction arbitrary: n rule: retires.induct)
  case (retires_none s' s)
  then show ?case by (simp add: closed_by_def remembered_def fcard_fempty)
next
  case (retires_one s i v w s')
  note k = closed_by_retire [OF retires_one.hyps(1,3)]
  have "remembered x t (Suc n) (retire s i w now)"
    by (rule remembered_retire [OF retires_one.prems(1)]) (use retires_one.prems(2) k in simp)
  from retires_one.IH [OF this] show ?case using retires_one.prems(2) k by simp
qed

lemma retires_remembers:
  assumes "retires now s s'" "fmlookup (st_byID s) i = Some v" "fmlookup (st_byID s') i = None"
    and "int (closed_by s s') \<le> rl_MaxClosed (st_limits s)"
  shows "remembered (rs_Identity v) now (closed_by s s' - 1) s'"
  using assms
proof (induction rule: retires.induct)
  case (retires_none s' s)
  then show ?case by (metis fmdomI fmdom_notD fmdom_notI)
next
  case (retires_one s j u w s')
  note k = closed_by_retire [OF retires_one.hyps(1,3)]
  show ?case
  proof (cases "j = i")
    case True
    have "remembered (rs_Identity v) now 0 (retire s j w now)"
      using retire_remembers [of s w now j] retires_one.prems retires_one.hyps(1,2) True k by simp
    from retires_remembered [OF retires_one.hyps(3) this] show ?thesis
      using retires_one.prems(3) k by simp
  next
    case False
    then have "remembered (rs_Identity v) now (closed_by (retire s j w now) s' - 1) s'"
      using retires_one.prems k by (intro retires_one.IH) simp_all
    then show ?thesis by (rule remembered_mono) (simp add: k)
  qed
qed

lemma retires_count_closed: "retires now s (count_closed s' n) = retires now s s'"
proof -
  have "retires now s u \<Longrightarrow> fmdom (st_byID u') = fmdom (st_byID u) \<Longrightarrow> st_tombstones u' = st_tombstones u \<Longrightarrow>
      st_limits u' = st_limits u \<Longrightarrow> retires now s u'" for u u'
    by (induction rule: retires.induct) (auto intro: retires.intros)
  from this [of s' "count_closed s' n"] this [of "count_closed s' n" s'] show ?thesis by auto
qed

lemma retires_single:
  "fmlookup (st_byID s) i = Some v \<Longrightarrow> rs_Identity w = rs_Identity v \<Longrightarrow> retires now s (count_closed (retire s i w now) n)"
  unfolding retires_count_closed by (erule (1) retires_one) (simp add: retires_none)

lemma retires_close:
  assumes "fmlookup (st_byID s) i = Some v" "closeLocked s i v reason now = (s', w)"
  shows "retires now s s'"
  using assms by (auto simp: closeLocked_def Let_def set_reason_def intro!: retires_single [OF assms(1)])

lemma reconcile_retires: "reconcile_loop seen before now reason order s = (s', removed) \<Longrightarrow> retires now s s'"
proof (induction order arbitrary: s s' removed)
  case (Cons i order)
  have "retires now s t" if "fmlookup (st_byID s) i = Some v"
    "retires now (retire s i (reconcile_close now reason v) now) t" for v t
    by (rule retires_one [OF that(1) _ that(2)]) (simp add: reconcile_close_def Let_def set_reason_def)
  with Cons.prems show ?case
    by (auto split: option.splits if_splits prod.splits dest: Cons.IH)
qed (auto intro: retires_none)

text \<open>Every operation but the application of a record and the two that prune retires sessions only.\<close>

fun prunes :: "store_op \<Rightarrow> bool" where
  "prunes (Op_PruneClosed now) = True"
| "prunes (Op_SetInspectionHistoryLimits n ttl) = True"
| "prunes _ = False"

lemma put_retires:
  "fmlookup (st_byID s) i = Some v \<Longrightarrow> retires now s (put_session s i w)"
  "fmlookup (st_byID s) i = Some v \<Longrightarrow> retires now s (count_invalidated (put_session s i w))"
  by (rule retires_none; auto simp: put_session_def count_invalidated_def dest: fmdomI)+

lemma retires_refl [simp]: "retires now s s"
  by (simp add: retires_none)

lemma run_op_retires:
  assumes "\<not> prunes op" "\<forall>r now. op \<noteq> Op_Apply r now"
  shows "retires (op_time env op) s (run_op env op s)"
proof (cases op)
  case (Op_Close x reason now)
  then show ?thesis
    by (auto simp: op_time_def Close_def Let_def retires_none split: option.splits prod.splits intro: retires_close)
next
  case (Op_CloseVerifiedExpired c now)
  then show ?thesis
    by (auto simp: op_time_def CloseVerifiedExpired_def split: option.splits prod.splits
        dest!: expiryCandidate_lookup intro: retires_close)
next
  case (Op_Delete i reason now)
  then show ?thesis
    by (auto simp: op_time_def Delete_def Let_def set_reason_def split: option.splits intro!: retires_single)
next
  case (Op_ReconcileMissing order seen before now reason)
  then show ?thesis
    by (auto simp: op_time_def ReconcileMissing_def Let_def retires_count_closed split: prod.splits
        dest: reconcile_retires)
next
  case (Op_DeferExpired c now reason)
  have "retires n s (put_session (s\<lparr>st_expiryRetryAfter := m\<rparr>) i w)" if "fmlookup (st_byID s) i = Some v" for n m i v w
    using that by (intro retires_none) (auto simp: put_session_def dest: fmdomI)
  moreover have "retires n s (s\<lparr>st_expiryRetryAfter := m\<rparr>)" for n m by (simp add: retires_none)
  ultimately show ?thesis using Op_DeferExpired
    by (auto simp: DeferExpired_def Let_def split: option.splits dest!: expiryCandidate_lookup)
qed (use assms in \<open>auto simp: Invalidate_def setDecision_def MarkEvaluationUnavailable_def MarkRevoked_def
      SetZones_def UpdateInspection_def CompleteInspectionIntent_def updateInspectionLocked_def Let_def
      split: option.splits intro: put_retires\<close>)

lemma apply_keeps_history:
  assumes "store_inv s" "ApplyObserved env s r now = (s', result)"
  shows "st_tombstones s' = st_tombstones s" "st_limits s' = st_limits s"
    "fmdom (st_byID s) |\<subseteq>| fmdom (st_byID s')"
proof -
  from assms(2) have "st_tombstones s' = st_tombstones s \<and> st_limits s' = st_limits s
      \<and> fmdom (st_byID s) |\<subseteq>| fmdom (st_byID s')"
  proof (cases rule: ApplyObserved_cases)
    case (merged i v t)
    obtain w where "st_byID s' = fmupd i w (st_byID s)" "st_tombstones s' = st_tombstones s" "st_limits s' = st_limits s"
      using merge_into_ok [OF assms(1) merged(1,3)] by metis
    then show ?thesis by auto
  next
    case (created t)
    from created(1) show ?thesis by (rule create_session_cases [OF index_inv_store(1) [OF assms(1)]]) auto
  qed auto
  then show "st_tombstones s' = st_tombstones s" "st_limits s' = st_limits s"
    "fmdom (st_byID s) |\<subseteq>| fmdom (st_byID s')" by simp_all
qed

text \<open>
  The closed history still holds a session closed at time \<open>t\<close>: the history limit is at least the
  number \<open>n\<close> of sessions closed from then on, and a pruning happens within the time to live.
\<close>

definition history_kept :: "gotime \<Rightarrow> nat \<Rightarrow> Env \<Rightarrow> store_op \<Rightarrow> RuntimeStore \<Rightarrow> bool" where
  "history_kept t n env op s \<longleftrightarrow>
     (let limits = st_limits (run_op env op s) in
      int n \<le> rl_MaxClosed limits \<and> (prunes op \<longrightarrow> op_time env op < t + rl_ClosedTTL limits))"

lemma remembered_prune:
  assumes "remembered x t n s" "now < t + rl_ClosedTTL (st_limits s)"
  shows "remembered x t n (pruneClosedLocked s now)"
proof -
  obtain older tomb younger where s: "st_tombstones s = older @ tomb # younger" "tb_Identity tomb = x"
    "tb_At tomb = t" "length younger \<le> n"
    using assms(1) unfolding remembered_def by blast
  let ?kept = "filter (\<lambda>t. tb_At t > now - rl_ClosedTTL (st_limits s))"
  have "st_tombstones (pruneClosedLocked s now) = ?kept older @ tomb # ?kept younger"
    using assms(2) s(1,3) by (simp add: pruneClosedLocked_def Let_def)
  moreover have "length (?kept younger) \<le> n" using s(4) length_filter_le le_trans by blast
  ultimately show ?thesis using s(2,3) unfolding remembered_def by blast
qed

lemma prunes_cases:
  assumes "prunes op"
  obtains u where "st_tombstones u = st_tombstones s" "st_limits u = st_limits (run_op env op s)"
    "st_byID (run_op env op s) = st_byID s"
    "run_op env op s = pruneClosedLocked u (op_time env op)
     \<or> run_op env op s = trimClosedLocked (pruneClosedLocked u (op_time env op))"
proof (cases op)
  case (Op_PruneClosed now)
  then show thesis
    by (intro that [of s]) (simp_all add: PruneClosed_def op_time_def pruneClosedLocked_def Let_def)
next
  case (Op_SetInspectionHistoryLimits n ttl)
  then show thesis
    by (intro that [of "s\<lparr>st_limits := (st_limits s)\<lparr>rl_MaxClosed := if n \<le> 0 then st_baseHistoryMax s else n,
        rl_ClosedTTL := if ttl \<le> 0 then st_baseHistoryTTL s else ttl\<rparr>\<rparr>"])
      (simp_all add: SetInspectionHistoryLimits_def op_time_def pruneClosedLocked_def Let_def)
qed (use assms in simp_all)

lemma run_op_remembered:
  assumes inv: "store_inv s" and r: "remembered x t n s"
    and h: "history_kept t m env op s" "Suc (n + closed_by s (run_op env op s)) \<le> m"
  shows "remembered x t (n + closed_by s (run_op env op s)) (run_op env op s)"
proof (cases "prunes op")
  case True
  then obtain u where u: "st_tombstones u = st_tombstones s" "st_limits u = st_limits (run_op env op s)"
    "st_byID (run_op env op s) = st_byID s"
    "run_op env op s = pruneClosedLocked u (op_time env op)
     \<or> run_op env op s = trimClosedLocked (pruneClosedLocked u (op_time env op))"
    by (rule prunes_cases)
  have "remembered x t n (pruneClosedLocked u (op_time env op))"
    by (rule remembered_prune) (use r u(1,2) h True in \<open>simp_all add: remembered_def history_kept_def Let_def\<close>)
  moreover have "int n < rl_MaxClosed (st_limits (pruneClosedLocked u (op_time env op)))"
    using h u(2) by (simp add: pruneClosedLocked_def history_kept_def Let_def)
  ultimately have "remembered x t n (run_op env op s)" using u(4) remembered_trim by metis
  then show ?thesis by (rule remembered_mono) simp
next
  case False
  show ?thesis
  proof (cases "\<forall>r now. op \<noteq> Op_Apply r now")
    case True
    note rt = run_op_retires [OF False True, of env s]
    show ?thesis
      by (rule retires_remembered [OF rt r]) (use h retires_limits [OF rt] in \<open>simp add: history_kept_def Let_def\<close>)
  next
    case False
    then obtain r' now where op: "op = Op_Apply r' now" by blast
    have "remembered x t n (run_op env op s)"
      using r apply_keeps_history(1) [OF inv prod.collapse [symmetric]] by (simp add: op remembered_def)
    then show ?thesis by (rule remembered_mono) simp
  qed
qed

lemma run_ops_remembered:
  assumes "store_inv s" "remembered x t n s" "steps_ok (history_kept t m) ops s" "Suc (n + closings ops s) \<le> m"
  shows "\<exists>k. remembered x t k (run_ops ops s)"
  using assms
proof (induction ops arbitrary: s n)
  case (Cons e ops)
  obtain env op where e: "e = (env, op)" by (cases e)
  have "remembered x t (n + closed_by s (run_op env op s)) (run_op env op s)"
    by (rule run_op_remembered [OF Cons.prems(1,2), of m]) (use Cons.prems(3,4) e in simp_all)
  with Cons.IH [OF run_op_inv [OF Cons.prems(1)] this] Cons.prems(3,4) show ?case by (simp add: e add.assoc)
qed auto

lemma closing_op_remembers:
  assumes inv: "store_inv s" and i: "fmlookup (st_byID s) i = Some v" "fmlookup (st_byID (run_op env op s)) i = None"
    and h: "history_kept t m env op s" "closed_by s (run_op env op s) \<le> m"
  shows "remembered (rs_Identity v) (op_time env op) (closed_by s (run_op env op s) - 1) (run_op env op s)"
    "0 < closed_by s (run_op env op s)"
proof -
  have live: "i |\<in>| fmdom (st_byID s)" "i |\<notin>| fmdom (st_byID (run_op env op s))"
    using i by (auto simp: fmdomI fmdom_notI)
  then have "fmdom (st_byID s) |-| fmdom (st_byID (run_op env op s)) \<noteq> {||}" by auto
  then show "0 < closed_by s (run_op env op s)" by (auto simp: closed_by_def fcard_0_eq)
  have "\<not> prunes op" using i by (metis option.distinct(1) prunes_cases)
  moreover have "op \<noteq> Op_Apply r now" for r now
    using live apply_keeps_history(3) [OF inv prod.collapse [symmetric], of env r now] by auto
  ultimately have rt: "retires (op_time env op) s (run_op env op s)" by (intro run_op_retires) auto
  show "remembered (rs_Identity v) (op_time env op) (closed_by s (run_op env op s) - 1) (run_op env op s)"
    by (rule retires_remembers [OF rt i])
      (use h retires_limits [OF rt] in \<open>simp add: history_kept_def Let_def\<close>)
qed

text \<open>
  C12: an event that arrives late does not bring a closed session back while the closed history
  remembers the session. Take any operation that removes a session from the table, by a close, a
  deletion, an expiry or a reconciliation, and any operations after it, such that the number of
  sessions closed in all of them is within the history limit in force, and that closed sessions are
  only pruned, and the limits only changed, less than the time to live after the removal. A record
  with the identity of the removed session then creates no session: it is refused, or, when another
  live session answers to that identity, merged there.
\<close>

theorem late_event_does_not_reopen:
  assumes "reachable limits s" "Get s i = Some v" "Get (run_op env op s) i = None"
    and "t = op_time env op" "n = closings ((env, op) # ops) s"
    and "steps_ok (history_kept t n) ((env, op) # ops) s"
    and "rec_Identity r = rs_Identity v" "ci_Original (rs_Identity v) \<noteq> TupleZero"
    and "ApplyObserved env' (run_ops ((env, op) # ops) s) r later = (u, result)"
  shows "fmdom (st_byID u) = fmdom (st_byID (run_ops ((env, op) # ops) s))
    \<and> (\<forall>w created changed. result = Inr (w, created, changed) \<longrightarrow> \<not> created)"
proof -
  define s' where "s' = run_op env op s"
  have inv: "store_inv s" by (rule reachable_inv [OF assms(1)])
  have h: "history_kept t n env op s" "steps_ok (history_kept t n) ops s'"
    and n: "n = closed_by s s' + closings ops s'"
    using assms(5,6) by (simp_all add: s'_def)
  have r: "remembered (rs_Identity v) t (closed_by s s' - 1) s'" "0 < closed_by s s'"
    using closing_op_remembers [OF inv _ _ h(1)] assms(2,3) n by (simp_all add: Get_def assms(4) s'_def)
  have "store_inv s'" unfolding s'_def by (rule run_op_inv [OF inv])
  from run_ops_remembered [OF this r(1) h(2)] r(2) n
  obtain k where k: "remembered (rs_Identity v) t k (run_ops ops s')" by auto
  have id: "rec_Identity (complete_record r) = rs_Identity v"
    using assms(7,8) by (simp add: complete_record_def Let_def)
  have stale: "list_ex (\<lambda>t. tombstoneIdentityMatches (tb_Identity t) (rs_Identity v)) (st_tombstones (run_ops ops s'))"
    using k by (auto simp: remembered_def tombstoneIdentityMatches_def)
  have inv': "store_inv (run_ops ops s')" unfolding s'_def by (rule run_ops_inv [OF run_op_inv [OF inv]])
  from assms(9) have "ApplyObserved env' (run_ops ops s') r later = (u, result)" by (simp add: s'_def)
  then have "fmdom (st_byID u) = fmdom (st_byID (run_ops ops s'))
    \<and> (\<forall>w created changed. result = Inr (w, created, changed) \<longrightarrow> \<not> created)"
  proof (cases rule: ApplyObserved_cases)
    case (merged j w t)
    obtain w' c' where "result = Inr (w', False, c')" "st_byID u = fmupd j w' (st_byID (run_ops ops s'))"
      using merge_into_ok [OF inv' merged(1,3)] by metis
    then show ?thesis using fmdomI [OF merged(1)] by (simp add: finsert_absorb)
  qed (use stale id in simp_all)
  then show ?thesis unfolding run_ops_simps s'_def .
qed

text \<open>The example session is closed, and 59 seconds later the closed history is pruned.\<close>

definition example_close_op :: store_op where
  "example_close_op = Op_Close example_identity ''destroy'' (1001 * second)"

definition example_after :: "(Env \<times> store_op) list" where
  "example_after = [(example_env, Op_PruneClosed (1060 * second))]"

lemma example_after_kept:
  "map_option rs_Identity (Get example_store example_id) = Some example_identity"
  "Get (run_op example_env example_close_op example_store) example_id = None"
  "op_time example_env example_close_op = 1001 * second"
  "steps_ok (history_kept (1001 * second) (closings ((example_env, example_close_op) # example_after) example_store))
     ((example_env, example_close_op) # example_after) example_store"
  by code_simp+

theorem late_event_does_not_reopen_witness:
  "fmdom (st_byID (fst (ApplyObserved example_env
       (run_ops ((example_env, example_close_op) # example_after) example_store) example_record (1060 * second))))
     = fmdom (st_byID (run_ops ((example_env, example_close_op) # example_after) example_store))"
proof -
  obtain v where v: "Get example_store example_id = Some v" "rs_Identity v = example_identity"
    using example_after_kept(1) by auto
  have "rec_Identity example_record = rs_Identity v" "ci_Original (rs_Identity v) \<noteq> TupleZero"
    by (simp_all add: v(2) example_record_def example_identity_def example_tuple_def TupleZero_def)
  from late_event_does_not_reopen [OF reachable_example v(1) example_after_kept(2) _ refl
      example_after_kept(4) this prod.collapse [symmetric]]
  show ?thesis by (simp add: example_after_kept(3))
qed

text \<open>One second more, and the pruning forgets the session: the late record creates it again.\<close>

lemma forgotten_event_reopens:
  "(case snd (ApplyObserved example_env
      (run_ops [(example_env, example_close_op), (example_env, Op_PruneClosed (1061 * second))] example_store)
      example_record (1061 * second)) of Inl e \<Rightarrow> False | Inr (w, created, changed) \<Rightarrow> created)"
  by code_simp

section \<open>Expiry of snapshots\<close>

lemma mergeLocked_observed:
  assumes "mergeLocked s i v r now = (s', w, c)"
  shows "rs_LastObservedAt w = now"
proof -
  have "rs_LastObservedAt (fst (merge_mark r vc)) = rs_LastObservedAt (fst vc)" for vc
    by (cases vc) (simp add: merge_mark_def drop_missing_def set_missing_def)
  then have "rs_LastObservedAt (fst (merge_state r now vc)) = now" for vc
    by (simp add: merge_state_def)
  then have st: "rs_LastObservedAt a = now" if "merge_state r now x = (a, b)" for x a b
    using that by (metis fst_conv)
  have "rs_LastObservedAt (settle_tracking x) = rs_LastObservedAt x" for x
    by (simp add: settle_tracking_def)
  then have "rs_LastObservedAt x = now" if "merge_session r now s v = (t, x, d)" for t x d
    using that by (auto simp: merge_session_def split: prod.splits dest: st)
  then show ?thesis using assms by (auto simp: mergeLocked_def Let_def split: prod.splits)
qed

lemma new_session_observed: "rs_LastObservedAt (snd (indexLocked s (new_session i r now))) = now"
  by (simp add: indexLocked_def new_session_def Let_def split_beta)

lemma create_session_observed:
  assumes "create_session env s r now = (s', Inr (w, b, c))"
  shows "rs_LastObservedAt w = now"
  using assms by (auto simp: create_session_def Let_def split_beta new_session_observed split: if_splits)

text \<open>
  What an operation can do to a live session: nothing, a change that counts a revision and keeps the
  time of the last observation, or, for a record, an observation at the time of the record.
\<close>

lemma run_op_session:
  assumes inv: "store_inv s" and w: "fmlookup (st_byID (run_op env op s)) i = Some w"
  shows "fmlookup (st_byID s) i = Some w
    \<or> (\<exists>v. fmlookup (st_byID s) i = Some v \<and> rs_LastObservedAt w = rs_LastObservedAt v \<and> rs_Revision w = rs_Revision v + 1)
    \<or> (\<exists>r now. op = Op_Apply r now \<and> rs_LastObservedAt w = op_time env op)"
proof (cases op)
  case (Op_Apply r now)
  obtain s' result where r: "ApplyObserved env s r now = (s', result)" by (cases "ApplyObserved env s r now")
  have w': "fmlookup (st_byID s') i = Some w" using w by (simp add: Op_Apply r)
  have t: "op_time env op = (if now = 0 then env_Now env else now)" by (simp add: Op_Apply op_time_def)
  from r have "fmlookup (st_byID s) i = Some w \<or> rs_LastObservedAt w = op_time env op"
  proof (cases rule: ApplyObserved_cases)
    case (merged j x t')
    obtain x' c where "st_byID s' = fmupd j x' (st_byID s)"
      "mergeLocked (rememberIdentityLocked s j (rec_Identity (complete_record r))) j x (complete_record r) t' = (s', x', c)"
      using merge_into_ok [OF inv merged(1,3)] by metis
    then show ?thesis using w' merged(4) t mergeLocked_observed by (auto split: if_splits)
  next
    case (created t')
    have t': "t' = op_time env op" using created(4) t by simp
    from created(1) show ?thesis
    proof (rule create_session_cases [OF index_inv_store(1) [OF inv]])
      fix x assume "result = Inr (x, True, True)"
        "st_byID s' = fmupd (fresh_session_id env s (rec_Identity (complete_record r))) x (st_byID s)"
      then show ?thesis
        using w' create_session_observed [of env s "complete_record r" t' s' x] created(1) t' by (auto split: if_splits)
    qed (use w' in auto)
  qed (use w' in auto)
  then show ?thesis using Op_Apply by blast
next
  case (Op_Close x reason now)
  then show ?thesis using w closeLocked_ok(2) [OF inv]
    by (auto simp: Close_def Let_def split: if_splits option.splits prod.splits)
next
  case (Op_CloseVerifiedExpired c now)
  then show ?thesis using w closeLocked_ok(2) [OF inv]
    by (auto simp: CloseVerifiedExpired_def Let_def split: if_splits option.splits prod.splits)
next
  case (Op_ReconcileMissing order seen before now reason)
  then show ?thesis using w reconcile_loop_sub
    by (fastforce simp: ReconcileMissing_def Let_def split: if_splits prod.splits)
next
  case (Op_DeferExpired c now reason)
  then show ?thesis using w
    by (auto simp: DeferExpired_def Let_def dest!: expiryCandidate_lookup split: if_splits option.splits prod.splits)
qed (use w in \<open>auto simp: Delete_def Invalidate_def invalidated_def setDecision_def decided_def
      MarkEvaluationUnavailable_def unavailable_def MarkRevoked_def revoked_def SetZones_def UpdateInspection_def
      CompleteInspectionIntent_def updateInspectionLocked_def PruneClosed_def pruneClosedLocked_def
      SetInspectionHistoryLimits_def Let_def split: if_splits option.splits\<close>)

text \<open>A session after a snapshot \<open>v\<close> of it: the snapshot itself, observed later, or of a later revision.\<close>

definition since :: "RuntimeSession \<Rightarrow> nat \<Rightarrow> RuntimeSession \<Rightarrow> bool" where
  "since v k w \<longleftrightarrow> w = v \<or> rs_LastObservedAt v < rs_LastObservedAt w
     \<or> (\<exists>j. 0 < j \<and> j \<le> k \<and> rs_Revision w = rs_Revision v + of_nat j)"

lemma since_bump:
  assumes "since v k x" "rs_LastObservedAt w = rs_LastObservedAt x" "rs_Revision w = rs_Revision x + 1"
  shows "since v (Suc k) w"
proof -
  have "\<exists>j'. 0 < j' \<and> j' \<le> Suc k \<and> rs_Revision w = rs_Revision v + of_nat j'"
    if "j \<le> k" "rs_Revision x = rs_Revision v + of_nat j" for j
    using that assms(3) by (intro exI [of _ "Suc j"]) simp
  from this this [of 0] assms(1,2) show ?thesis by (auto simp: since_def)
qed

lemma since_current:
  assumes "since v k w" "k < 2 ^ 64" "rs_LastObservedAt w = rs_LastObservedAt v" "rs_Revision w = rs_Revision v"
  shows "w = v"
proof (rule ccontr)
  assume "w \<noteq> v"
  then obtain j where j: "0 < j" "j \<le> k" "rs_Revision v = rs_Revision v + of_nat j"
    using assms by (auto simp: since_def)
  then have "(of_nat j :: u64) = 0" by simp
  then have "2 ^ 64 dvd j" by (simp add: word_of_nat_eq_0_iff)
  with j(1,2) assms(2) show False by (auto dest: dvd_imp_le)
qed

lemma run_ops_session:
  assumes "store_inv s" "\<And>w. fmlookup (st_byID s) i = Some w \<Longrightarrow> since v k w"
    and "\<forall>(env, op) \<in> set ops. \<forall>r now. op = Op_Apply r now \<longrightarrow> rs_LastObservedAt v < op_time env op"
    and "fmlookup (st_byID (run_ops ops s)) i = Some w"
  shows "since v (k + length ops) w"
  using assms
proof (induction ops arbitrary: s k)
  case (Cons e ops)
  obtain env op where e: "e = (env, op)" by (cases e)
  have later: "rs_LastObservedAt v < op_time env op" if "op = Op_Apply r now" for r now
    using Cons.prems(3) that by (simp add: e)
  have "since v (Suc k) x" if "fmlookup (st_byID (run_op env op s)) i = Some x" for x
    using run_op_session [OF Cons.prems(1) that]
  proof (elim disjE exE conjE)
    assume "fmlookup (st_byID s) i = Some x"
    from Cons.prems(2) [OF this] show ?thesis unfolding since_def using le_SucI by blast
  next
    fix y assume "fmlookup (st_byID s) i = Some y" "rs_LastObservedAt x = rs_LastObservedAt y"
      "rs_Revision x = rs_Revision y + 1"
    with Cons.prems(2) show ?thesis by (blast intro: since_bump)
  next
    fix r now assume "op = Op_Apply r now" "rs_LastObservedAt x = op_time env op"
    with later show ?thesis by (simp add: since_def)
  qed
  from Cons.IH [OF run_op_inv [OF Cons.prems(1)] this] Cons.prems(3,4) show ?case by (simp add: e)
qed simp

text \<open>
  C29: an expiry closes a session only if nothing happened to it since the snapshot was taken on
  which the kernel was asked. Take a snapshot \<open>v\<close> of a session, and any run of fewer than \<open>2 ^ 64\<close>
  operations whose records are observed after the last observation in the snapshot. Then the
  snapshot is accepted exactly when the session is still in the table with every field as in the
  snapshot, and the deadline has passed. Only then does the expiry close anything, and it removes
  that session and no other; otherwise it changes nothing.
\<close>

theorem expiry_needs_untouched_session:
  assumes "reachable limits s" "Get s i = Some v" "length ops < 2 ^ 64"
    and "\<forall>(env, op) \<in> set ops. \<forall>r now. op = Op_Apply r now \<longrightarrow> rs_LastObservedAt v < op_time env op"
    and "CloseVerifiedExpired (run_ops ops s) v now = (u, result)"
  shows "let untouched = (Get (run_ops ops s) i = Some v \<and> (\<exists>d. rs_ExpiresAt v = Some d \<and> d \<le> now)) in
    ExpiryCandidateCurrent (run_ops ops s) v now = untouched
    \<and> (if untouched then result \<noteq> None \<and> st_byID u = fmdrop i (st_byID (run_ops ops s))
       else result = None \<and> u = run_ops ops s)"
proof -
  have inv: "store_inv s" by (rule reachable_inv [OF assms(1)])
  have inv': "store_inv (run_ops ops s)" by (rule run_ops_inv [OF inv])
  have id: "rs_SessionID v = i"
    using index_inv_id [OF index_inv_store(1) [OF inv], of i v] assms(2) by (simp add: Get_def)
  have same: "w = v" if "Get (run_ops ops s) i = Some w" "rs_LastObservedAt w = rs_LastObservedAt v"
    "rs_Revision w = rs_Revision v" for w
  proof -
    have "since v (0 + length ops) w"
      by (rule run_ops_session [OF inv _ assms(4)]) (use assms(2) that(1) in \<open>auto simp: Get_def since_def\<close>)
    from since_current [OF this] assms(3) that(2,3) show ?thesis by simp
  qed
  have current: "expiryCandidateLocked (run_ops ops s) v now =
      (if Get (run_ops ops s) i = Some v \<and> (\<exists>d. rs_ExpiresAt v = Some d \<and> d \<le> now) then Some v else None)"
    using same by (auto simp: expiryCandidateLocked_def id Get_def expired_by_def split: option.splits)
  show ?thesis
    using assms(5) closeLocked_ok(2) [OF inv']
    by (auto simp: ExpiryCandidateCurrent_def CloseVerifiedExpired_def current id Let_def split: prod.splits if_splits)
qed

text \<open>The example session is observed once more, by a record that does not carry a timeout.\<close>

definition silent_record :: Record where
  "silent_record = example_record\<lparr>rec_Presence := example_presence\<lparr>pres_Timeout := False\<rparr>\<rparr>"

definition silent_run :: "(Env \<times> store_op) list" where
  "silent_run = [(example_env, Op_Apply silent_record (1020 * second))]"

lemma silent_run_facts:
  "map_option rs_LastObservedAt (Get example_store example_id) = Some (1000 * second)"
  "map_option rs_ExpiresAt (Get example_store example_id) = Some (Some (1030 * second))"
  "map_option rs_LastObservedAt (Get (run_ops silent_run example_store) example_id) = Some (1020 * second)"
  "map_option rs_Revision (Get (run_ops silent_run example_store) example_id)
     = map_option rs_Revision (Get example_store example_id)"
  by code_simp+

theorem expiry_needs_untouched_session_witness:
  "\<exists>v. Get example_store example_id = Some v \<and> rs_ExpiresAt v = Some (1030 * second)
    \<and> CloseVerifiedExpired (run_ops silent_run example_store) v (1040 * second) = (run_ops silent_run example_store, None)
    \<and> st_byID (fst (CloseVerifiedExpired (run_ops [] example_store) v (1040 * second))) = fmdrop example_id (st_byID example_store)"
proof -
  obtain v where v: "Get example_store example_id = Some v" "rs_LastObservedAt v = 1000 * second"
    "rs_ExpiresAt v = Some (1030 * second)"
    using silent_run_facts(1,2) by auto
  have gone: "Get (run_ops silent_run example_store) example_id \<noteq> Some v"
    using silent_run_facts(3) v(2) by auto
  have "\<forall>(env, op) \<in> set silent_run. \<forall>r now. op = Op_Apply r now \<longrightarrow> rs_LastObservedAt v < op_time env op"
    by (simp add: silent_run_def op_time_def v(2))
  from expiry_needs_untouched_session [OF reachable_example v(1) _ this prod.collapse [symmetric], of "1040 * second"] gone
  have "CloseVerifiedExpired (run_ops silent_run example_store) v (1040 * second) = (run_ops silent_run example_store, None)"
    by (simp add: silent_run_def Let_def prod_eq_iff)
  moreover from expiry_needs_untouched_session [OF reachable_example v(1), of "[]", OF _ _ prod.collapse [symmetric],
      of "1040 * second"] v(1,3)
  have "st_byID (fst (CloseVerifiedExpired (run_ops [] example_store) v (1040 * second))) = fmdrop example_id (st_byID example_store)"
    by (simp add: Let_def)
  ultimately show ?thesis using v(1,3) by blast
qed

end
