(* ===== verification/Service_Selectors.thy ===== *)
theory Service_Selectors
imports Ngfw_Prelude "HOL-Library.Product_Lexorder"
begin

text \<open>
  Service selectors (\<open>internal/domain/service.go\<close>): the grammar \<open>tcp:80\<close>, \<open>udp:53-60\<close>, \<open>icmp\<close>,
  \<open>icmpv6\<close> that the validator, the runtime evaluator and the rule compiler share, its canonical
  printing, and the canonical form of a policy's list of services.
\<close>

section \<open>Model\<close>

record ServiceSelector =
  sel_Protocol :: string
  sel_First :: u16
  sel_Last :: u16
  sel_AllPorts :: bool

datatype ServiceError = InvalidService string | EmptyService

definition Canonical :: "ServiceSelector \<Rightarrow> string" where
  "Canonical s =
     (let protocol = ToLower (TrimSpace (sel_Protocol s)) in
      if sel_AllPorts s then protocol
      else if sel_First s = sel_Last s then protocol @ '':'' @ show_dec (uint (sel_First s))
      else protocol @ '':'' @ show_dec (uint (sel_First s)) @ ''-'' @ show_dec (uint (sel_Last s)))"

text \<open>The port part of a TCP or UDP selector: a port, or a range of two ports.\<close>

definition parsePorts :: "string \<Rightarrow> (int \<times> int) option" where
  "parsePorts text =
     (let portParts = Split (CHR ''-'') (TrimSpace text) in
      if length portParts < 1 \<or> length portParts > 2 \<or> TrimSpace (portParts ! 0) = '''' then None
      else
        (case Atoi (TrimSpace (portParts ! 0)) of
           None \<Rightarrow> None
         | Some first \<Rightarrow>
             if first < 1 \<or> first > 65535 then None
             else if length portParts = 2 then
               if TrimSpace (portParts ! 1) = '''' then None
               else
                 (case Atoi (TrimSpace (portParts ! 1)) of
                    None \<Rightarrow> None
                  | Some last_port \<Rightarrow> if last_port < first \<or> last_port > 65535 then None else Some (first, last_port))
             else Some (first, first)))"

definition ParseServiceSelector :: "string \<Rightarrow> ServiceError + ServiceSelector" where
  "ParseServiceSelector raw =
     (let value = TrimSpace raw; parts = Split (CHR '':'') value in
      if value = '''' then Inl (InvalidService raw)
      else if length parts > 2 \<or> TrimSpace (parts ! 0) = '''' then Inl (InvalidService raw)
      else
        let protocol = ToLower (TrimSpace (parts ! 0)) in
        if protocol \<noteq> ''tcp'' \<and> protocol \<noteq> ''udp'' \<and> protocol \<noteq> ''icmp'' \<and> protocol \<noteq> ''icmpv6''
        then Inl (InvalidService raw)
        else if length parts = 1 then
          if protocol = ''tcp'' \<or> protocol = ''udp'' then Inl (InvalidService raw)
          else Inr \<lparr>sel_Protocol = protocol, sel_First = 0, sel_Last = 0, sel_AllPorts = True\<rparr>
        else if protocol = ''icmp'' \<or> protocol = ''icmpv6'' then Inl (InvalidService raw)
        else
          (case parsePorts (parts ! 1) of
             None \<Rightarrow> Inl (InvalidService raw)
           | Some (first, last_port) \<Rightarrow>
               Inr \<lparr>sel_Protocol = protocol, sel_First = word_of_int first,
                    sel_Last = word_of_int last_port, sel_AllPorts = False\<rparr>))"

text \<open>
  The loop of \<open>CanonicalServiceList\<close> keeps the first selector of each canonical text. Its
  comparison orders by protocol, then port selectors before protocol-only ones, then by ports.
  \<open>sort.Slice\<close> is not stable; by \<open>selector_order_inj\<close> below no two selectors that are kept
  compare equal, so every sorting algorithm returns the list \<open>sort_key\<close> does.
\<close>

definition parseService_item :: "string \<Rightarrow> ServiceError + ServiceSelector" where
  "parseService_item raw = (if TrimSpace raw = '''' then Inl EmptyService else ParseServiceSelector raw)"

definition selector_order :: "ServiceSelector \<Rightarrow> string \<times> bool \<times> u16 \<times> u16" where
  "selector_order s = (sel_Protocol s, sel_AllPorts s, sel_First s, sel_Last s)"

fun keep_first :: "string list \<Rightarrow> ServiceSelector list \<Rightarrow> ServiceSelector list" where
  "keep_first seen [] = []"
| "keep_first seen (s # ss) =
     (if Canonical s \<in> set seen then keep_first seen ss
      else s # keep_first (Canonical s # seen) ss)"

definition CanonicalServiceList :: "string list \<Rightarrow> ServiceError + string list" where
  "CanonicalServiceList raws =
     (case map_err parseService_item raws of
        Inl e \<Rightarrow> Inl e
      | Inr selectors \<Rightarrow> Inr (map Canonical (sort_key selector_order (keep_first [] selectors))))"

section \<open>Well-formed selectors\<close>

definition wf_ServiceSelector :: "ServiceSelector \<Rightarrow> bool" where
  "wf_ServiceSelector s \<longleftrightarrow>
     (if sel_AllPorts s then sel_Protocol s \<in> {''icmp'', ''icmpv6''} \<and> sel_First s = 0 \<and> sel_Last s = 0
      else sel_Protocol s \<in> {''tcp'', ''udp''} \<and> 1 \<le> sel_First s \<and> sel_First s \<le> sel_Last s)"

lemma parsePorts_range:
  "parsePorts t = Some (a, b) \<Longrightarrow> 1 \<le> a \<and> a \<le> b \<and> b \<le> 65535"
  by (auto simp: parsePorts_def Let_def split: if_splits option.splits)

lemma u16_ports:
  assumes "1 \<le> a" "a \<le> b" "b \<le> (65535::int)"
  shows "1 \<le> (word_of_int a :: u16)" "(word_of_int a :: u16) \<le> word_of_int b"
    "uint (word_of_int a :: u16) = a" "uint (word_of_int b :: u16) = b"
  using assms by (simp_all add: word_le_def uint_word_of_int)

lemma wf_ParseServiceSelector:
  assumes "ParseServiceSelector raw = Inr s"
  shows "wf_ServiceSelector s"
  using assms
  by (auto simp: ParseServiceSelector_def Let_def wf_ServiceSelector_def u16_ports
      dest!: parsePorts_range split: if_splits option.splits)

lemma parsePorts_show:
  assumes "1 \<le> a" "a \<le> b" "b \<le> 65535"
  shows "parsePorts (if a = b then show_dec a else show_dec a @ ''-'' @ show_dec b) = Some (a, b)"
proof -
  have d: "CHR ''-'' \<notin> set (show_dec n)" if "0 \<le> n" for n
    using that by (intro show_dec_no) (simp_all add: isDigit_def)
  have t: "TrimSpace (show_dec a @ CHR ''-'' # show_dec b) = show_dec a @ CHR ''-'' # show_dec b"
    using assms show_dec_chars [of a] show_dec_chars [of b]
    by (intro TrimSpace_id) (auto simp: list_all_iff dest: isDigit_not_space)
  have r: "Atoi (show_dec a) = Some a" "Atoi (show_dec b) = Some b"
    using assms by (simp_all add: Atoi_show_dec)
  show ?thesis
    using assms d
    by (auto simp: parsePorts_def t Split_no_sep Split_sep r)
qed

lemma Parse_Canonical:
  assumes "wf_ServiceSelector s"
  shows "ParseServiceSelector (Canonical s) = Inr s"
proof (cases "sel_AllPorts s")
  case True
  then consider "s = \<lparr>sel_Protocol = ''icmp'', sel_First = 0, sel_Last = 0, sel_AllPorts = True\<rparr>"
    | "s = \<lparr>sel_Protocol = ''icmpv6'', sel_First = 0, sel_Last = 0, sel_AllPorts = True\<rparr>"
    using assms by (cases s) (auto simp: wf_ServiceSelector_def)
  then show ?thesis by cases (simp only:, code_simp)+
next
  case False
  define f l where "f = uint (sel_First s)" and "l = uint (sel_Last s)"
  define ports where "ports = (if f = l then show_dec f else show_dec f @ ''-'' @ show_dec l)"
  have r: "1 \<le> f" "f \<le> l" "l \<le> 65535" and p: "sel_Protocol s = ''tcp'' \<or> sel_Protocol s = ''udp''"
    using assms False uint_lt2p [of "sel_Last s"]
    by (auto simp: wf_ServiceSelector_def f_def l_def word_le_def)
  have ports: "parsePorts ports = Some (f, l)"
    unfolding ports_def using parsePorts_show [OF r] .
  have chars: "list_all (\<lambda>c. isDigit c \<or> c = CHR ''-'') ports"
    using show_dec_chars [of f] show_dec_chars [of l] r by (auto simp: ports_def list_all_iff)
  have c: "Canonical s = sel_Protocol s @ CHR '':'' # ports"
    using False p
    by (auto simp: Canonical_def ports_def f_def l_def Let_def ToLower_def lower_char_def TrimSpace_def
        isSpace_def word_uint_eq_iff)
  have t: "TrimSpace (Canonical s) = Canonical s"
    using p chars by (intro TrimSpace_id) (auto simp: c list_all_iff dest: isDigit_not_space)
  have "CHR '':'' \<notin> set ports"
    using chars isDigit_not_sign(3) by (fastforce simp: list_all_iff)
  then have sp: "Split (CHR '':'') (Canonical s) = [sel_Protocol s, ports]"
    using p by (auto simp: c Split_no_sep)
  have lo: "ToLower (TrimSpace (sel_Protocol s)) = sel_Protocol s" "TrimSpace (sel_Protocol s) \<noteq> ''''"
    using p by (auto simp: TrimSpace_def ToLower_def lower_char_def isSpace_def)
  have ne: "Canonical s \<noteq> ''''"
    by (simp add: c)
  have "\<lparr>sel_Protocol = sel_Protocol s, sel_First = word_of_int f, sel_Last = word_of_int l,
      sel_AllPorts = False\<rparr> = s"
    using False by (intro ServiceSelector.equality) (simp_all add: f_def l_def)
  then show ?thesis
    using p ne by (auto simp: ParseServiceSelector_def t sp lo ports)
qed

section \<open>The canonical list\<close>

lemma Canonical_inject:
  "wf_ServiceSelector s \<Longrightarrow> wf_ServiceSelector t \<Longrightarrow> Canonical s = Canonical t \<longleftrightarrow> s = t"
  by (metis Parse_Canonical sum.inject(2))

lemma selector_order_inj: "inj selector_order"
  by (auto simp: inj_def selector_order_def)

lemma keep_first_eq:
  "list_all wf_ServiceSelector (ss @ ts) \<Longrightarrow> keep_first (map Canonical ts) ss = dedup_seen ts ss"
proof (induction ss arbitrary: ts)
  case (Cons s ss)
  then have "Canonical s \<in> set (map Canonical ts) \<longleftrightarrow> s \<in> set ts"
    by (auto simp: list_all_iff Canonical_inject)
  with Cons.IH [of ts] Cons.IH [of "s # ts"] Cons.prems show ?case by simp
qed simp

lemma keep_first_dedup: "list_all wf_ServiceSelector ss \<Longrightarrow> keep_first [] ss = dedup ss"
  using keep_first_eq [of ss "[]"] by simp

lemma parseService_item_wf: "parseService_item raw = Inr s \<Longrightarrow> wf_ServiceSelector s"
  by (auto simp: parseService_item_def wf_ParseServiceSelector split: if_splits)

lemma parse_item_Canonical: "wf_ServiceSelector s \<Longrightarrow> parseService_item (Canonical s) = Inr s"
  using Parse_Canonical [of s]
  by (cases "TrimSpace (Canonical s) = ''''")
    (simp_all add: parseService_item_def ParseServiceSelector_def [of "Canonical s"])

lemma map_err_item_wf:
  "map_err parseService_item raws = Inr ss \<Longrightarrow> list_all wf_ServiceSelector ss"
  by (erule map_err_all) (rule parseService_item_wf)

lemma CanonicalServiceList_eq:
  "CanonicalServiceList raws = Inr out \<longleftrightarrow>
     (\<exists>ss. map_err parseService_item raws = Inr ss \<and> list_all wf_ServiceSelector ss
       \<and> out = map Canonical (sort_key selector_order (dedup ss)))"
  using map_err_item_wf [of raws]
  by (auto simp: CanonicalServiceList_def keep_first_dedup split: sum.splits)

definition denote_services :: "string list \<Rightarrow> ServiceError + ServiceSelector set" where
  "denote_services raws = map_sum id set (map_err parseService_item raws)"

interpretation services: canonical_form CanonicalServiceList denote_services
proof
  fix xs ys
  assume "CanonicalServiceList xs = Inr ys"
  then obtain ss where ss: "map_err parseService_item xs = Inr ss" "list_all wf_ServiceSelector ss"
      "ys = map Canonical (sort_key selector_order (dedup ss))"
    by (auto simp: CanonicalServiceList_eq)
  then have "map_err parseService_item ys = Inr (sort_key selector_order (dedup ss))"
    by (auto simp: map_err_Inr_iff list_all2_map1 list_all_iff parse_item_Canonical
        intro!: list.rel_refl_strong)
  with ss show "denote_services ys = denote_services xs"
    by (simp add: denote_services_def)
next
  fix xs ys A
  assume "denote_services xs = Inr A" "denote_services ys = Inr A"
  then obtain ss ts where st: "map_err parseService_item xs = Inr ss" "map_err parseService_item ys = Inr ts"
      "set ss = set ts"
    by (cases "map_err parseService_item xs"; cases "map_err parseService_item ys")
      (auto simp: denote_services_def)
  then have m: "mset (dedup ss) = mset (dedup ts)"
    by (simp add: set_eq_iff_mset_eq_distinct [symmetric])
  have "sort_key selector_order (dedup ss) = sort_key selector_order (dedup ts)"
    using m selector_order_inj by (intro sort_key_unique) (auto intro: inj_on_subset)
  then show "CanonicalServiceList xs = CanonicalServiceList ys"
    using st CanonicalServiceList_eq [of xs "map Canonical (sort_key selector_order (dedup ss))"]
      CanonicalServiceList_eq [of ys "map Canonical (sort_key selector_order (dedup ts))"]
    by (auto simp: map_err_item_wf)
next
  fix xs
  show "(\<exists>ys. CanonicalServiceList xs = Inr ys) \<longleftrightarrow> (\<exists>A. denote_services xs = Inr A)"
    by (auto simp: CanonicalServiceList_def denote_services_def split: sum.splits)
qed

section \<open>Properties\<close>

text \<open>
  C23: every service text the parser accepts has a canonical text that parses back to the same
  selector, and that selector is well formed: TCP and UDP name ports from 1 to 65535 in order,
  the ICMP protocols name no port.
\<close>

theorem service_roundtrip:
  assumes "ParseServiceSelector raw = Inr s"
  shows "ParseServiceSelector (Canonical s) = Inr s \<and> wf_ServiceSelector s"
  using wf_ParseServiceSelector [OF assms] Parse_Canonical by simp

theorem service_roundtrip_witness:
  "ParseServiceSelector (Canonical \<lparr>sel_Protocol = ''tcp'', sel_First = 80, sel_Last = 443,
       sel_AllPorts = False\<rparr>) =
     Inr \<lparr>sel_Protocol = ''tcp'', sel_First = 80, sel_Last = 443, sel_AllPorts = False\<rparr>
   \<and> wf_ServiceSelector \<lparr>sel_Protocol = ''tcp'', sel_First = 80, sel_Last = 443, sel_AllPorts = False\<rparr>"
  by (rule service_roundtrip [of "'' TCP : 80 - 443''"]) code_simp

text \<open>
  C24: the canonical service list is a canonical form. It is fixed by canonicalisation, has no
  duplicates, and two lists have the same canonical list exactly when they name the same set of
  services, whatever their order, spelling and repetitions.
\<close>

theorem service_list_canonical:
  assumes "CanonicalServiceList raws = Inr out"
  shows "CanonicalServiceList out = Inr out \<and> distinct out
    \<and> denote_services out = denote_services raws
    \<and> (CanonicalServiceList others = Inr out \<longleftrightarrow> denote_services others = denote_services raws)"
proof (intro conjI)
  show "distinct out"
    using assms by (auto simp: CanonicalServiceList_eq distinct_map list_all_iff inj_on_def Canonical_inject)
qed (use assms services.canon_idem services.canon_denote services.canon_eq_iff in blast)+

theorem service_list_canonical_witness:
  "CanonicalServiceList [''tcp:80'', ''udp:53''] = Inr [''tcp:80'', ''udp:53'']
   \<and> (CanonicalServiceList [''UDP:53'', ''tcp:80''] = Inr [''tcp:80'', ''udp:53'']
      \<longleftrightarrow> denote_services [''UDP:53'', ''tcp:80''] = denote_services [''udp:53'', ''tcp:80'', ''udp:53''])"
proof -
  have "CanonicalServiceList [''udp:53'', ''tcp:80'', ''udp:53''] = Inr [''tcp:80'', ''udp:53'']"
    by code_simp
  from service_list_canonical [OF this, of "[''UDP:53'', ''tcp:80'']"] show ?thesis by blast
qed

end
