(* ===== verification/Connectivity.thy ===== *)
theory Connectivity
imports Flow Service_Selectors Domain
begin

text \<open>
  The connectivity program (\<open>internal/connectivity/program.go\<close>): compilation of the configured
  policies into an ordered rule list, first-match evaluation of a packet view, and the inference
  of zones from interface and route prefixes. Go sets are finite sets, Go maps finite maps. The
  records of the inspection selections and request gates are declared here because a program
  carries them; their operations are in the theories of those components.
\<close>

section \<open>Data\<close>

record PortRange =
  pr_First :: u16
  pr_Last :: u16

definition PortRange_Contains :: "PortRange \<Rightarrow> u16 \<Rightarrow> bool" where
  "PortRange_Contains p port \<longleftrightarrow> port \<ge> pr_First p \<and> port \<le> pr_Last p"

record Service =
  svc_Protocol :: u8
  svc_Ports :: "PortRange list"

record Rule =
  rule_ID :: string
  rule_Name :: string
  rule_Priority :: int
  rule_SourceZones :: "string fset"
  rule_DestinationZones :: "string fset"
  rule_SourceAddresses :: "Prefix list"
  rule_DestinationAddresses :: "Prefix list"
  rule_Services :: "Service list"
  rule_Action :: Decision
  rule_Enabled :: bool

record InspectionSelection =
  isel_PolicyID :: string
  isel_ProfileID :: string
  isel_Mode :: InspectionMode
  isel_RulesetID :: string
  isel_AllowedApps :: "string list"
  isel_AppDetectionTimeoutMillis :: int
  isel_Generation :: u64

record TLSExclusionRule =
  txr_ID :: string
  txr_Reason :: string
  txr_Domains :: "string list"
  txr_CIDRs :: "Prefix list"
  txr_Ports :: "u16 list"

record RequestGatePlan =
  gp_Enabled :: bool
  gp_PolicyID :: string
  gp_ProfileID :: string
  gp_Generation :: u64
  gp_TLSMode :: TLSMode
  gp_FailMode :: GateFailMode
  gp_OversizeAction :: string
  gp_EncodingAction :: string
  gp_BlockQUIC :: bool
  gp_RulesetID :: string
  gp_exclusions :: "TLSExclusionRule list option"
  gp_tcpPorts :: "PortRange list"

record Program =
  prog_Rules :: "Rule list"
  prog_DefaultDeny :: bool
  prog_Generation :: u64
  prog_Selections :: "(string, InspectionSelection) fmap"
  prog_requestGates :: "(string, RequestGatePlan) fmap"
  prog_InspectionIncludeManagement :: bool
  prog_ManagementZones :: "string fset"
  prog_zonePrefixes :: "(string, Prefix list) fmap"
  prog_localAddresses :: "Addr fset"

abbreviation ZoneLocal :: string where "ZoneLocal \<equiv> ''local''"
abbreviation ZoneUnknown :: string where "ZoneUnknown \<equiv> ''unknown''"

record View =
  v_SourceIP :: Addr
  v_DestinationIP :: Addr
  v_SourcePort :: u16
  v_DestinationPort :: u16
  v_Protocol :: u8
  v_SourceZone :: string
  v_DestinationZone :: string

record ConnDecision =
  dec_Action :: Decision
  dec_PolicyID :: string
  dec_Generation :: u64
  dec_Reason :: string

datatype CompileError =
    PolicyApplications string
  | PolicyProfile string
  | PolicyRisk string
  | PolicyScope string string
  | DuplicatePriority int
  | PolicyActionNotL3L4 string Decision
  | PolicySourceAddresses string
  | PolicyDestinationAddresses string
  | PolicyService string string
  | RequiresRequestGate
  | RequiresInspection
  | InvalidInspection
  | DuplicatePolicy
  | UnreachablePolicy
  | InvalidRequestGate
  | InvalidTLSExclusion string

section \<open>Compilation\<close>

definition parseInterfacePrefix :: "string \<Rightarrow> Prefix option" where
  "parseInterfacePrefix raw =
     (let s = TrimSpace raw in
      case ParsePrefix s of
        Some p \<Rightarrow> Some (Masked p)
      | None \<Rightarrow>
          (case ParseAddr s of
             None \<Rightarrow> None
           | Some addr \<Rightarrow> Some (PrefixFrom addr (if Is4 addr then 32 else 128))))"

definition parseInterfaceAddress :: "string \<Rightarrow> Addr option" where
  "parseInterfaceAddress raw =
     (let s = TrimSpace raw in
      case ParsePrefix s of Some p \<Rightarrow> Some (PfxAddr p) | None \<Rightarrow> ParseAddr s)"

definition stringSet :: "string list \<Rightarrow> string fset" where
  "stringSet raws =
     fset_of_list (filter (\<lambda>v. v \<noteq> '''') (map (\<lambda>v. ToLower (TrimSpace v)) raws))"

fun prefixes_of :: "string list \<Rightarrow> Prefix list option" where
  "prefixes_of [] = Some []"
| "prefixes_of (raw # raws) =
     (let s = TrimSpace raw in
      if s = '''' then prefixes_of raws
      else
        (case (case ParseAddr s of
                 Some addr \<Rightarrow> Some (PrefixFrom addr (if Is4 addr then 32 else 128))
               | None \<Rightarrow> map_option Masked (ParsePrefix s)) of
           None \<Rightarrow> None
         | Some p \<Rightarrow> map_option ((#) p) (prefixes_of raws)))"

definition parseService :: "string \<Rightarrow> Service option" where
  "parseService raw =
     (case ParseServiceSelector raw of
        Inl _ \<Rightarrow> None
      | Inr selector \<Rightarrow>
          (case ParseProtocol (sel_Protocol selector) of
             (proto, ok) \<Rightarrow>
               if \<not> ok then None
               else Some \<lparr>svc_Protocol = proto,
                     svc_Ports = (if sel_AllPorts selector then []
                                  else [\<lparr>pr_First = sel_First selector, pr_Last = sel_Last selector\<rparr>])\<rparr>))"

definition append_zone_prefix :: "string \<Rightarrow> Prefix \<Rightarrow> Program \<Rightarrow> Program" where
  "append_zone_prefix zone p program =
     program\<lparr>prog_zonePrefixes :=
       fmupd zone ((case fmlookup (prog_zonePrefixes program) zone of None \<Rightarrow> [] | Some ps \<Rightarrow> ps) @ [p])
         (prog_zonePrefixes program)\<rparr>"

definition add_interface_address :: "Interface \<Rightarrow> string \<Rightarrow> Program \<Rightarrow> Program" where
  "add_interface_address iface raw program =
     (case parseInterfacePrefix raw of
        None \<Rightarrow> program
      | Some p \<Rightarrow>
          let program = (case parseInterfaceAddress raw of
                None \<Rightarrow> program
              | Some a \<Rightarrow> program\<lparr>prog_localAddresses := finsert a (prog_localAddresses program)\<rparr>) in
          if TrimSpace (if_ZoneID iface) \<noteq> ''''
          then append_zone_prefix (if_ZoneID iface) p program
          else program)"

definition add_interface :: "Interface \<Rightarrow> Program \<Rightarrow> Program" where
  "add_interface iface program =
     (let program =
        (if if_Mode iface = InterfaceManagement \<and> TrimSpace (if_ZoneID iface) \<noteq> ''''
         then program\<lparr>prog_ManagementZones :=
                finsert (ToLower (TrimSpace (if_ZoneID iface))) (prog_ManagementZones program)\<rparr>
         else program) in
      fold (add_interface_address iface) (if_IPv4Addresses iface @ if_IPv6Addresses iface) program)"

definition interfacesByID :: "Interface list \<Rightarrow> (string, Interface) fmap" where
  "interfacesByID ifaces = fold (\<lambda>i. fmupd (if_ID i) i) ifaces fmempty"

definition add_route :: "(string, Interface) fmap \<Rightarrow> Route \<Rightarrow> Program \<Rightarrow> Program" where
  "add_route byID route program =
     (if \<not> rt_Enabled route then program
      else
        (case fmlookup byID (rt_InterfaceID route) of
           None \<Rightarrow> program
         | Some iface \<Rightarrow>
             if TrimSpace (if_ZoneID iface) = '''' then program
             else
               (case ParsePrefix (TrimSpace (rt_DestinationCIDR route)) of
                  None \<Rightarrow> program
                | Some p \<Rightarrow> append_zone_prefix (if_ZoneID iface) (Masked p) program)))"

fun compile_services :: "string \<Rightarrow> string list \<Rightarrow> CompileError + Service list" where
  "compile_services policy [] = Inr []"
| "compile_services policy (raw # raws) =
     (case parseService raw of
        None \<Rightarrow> Inl (PolicyService policy raw)
      | Some s \<Rightarrow> (case compile_services policy raws of Inl e \<Rightarrow> Inl e | Inr ss \<Rightarrow> Inr (s # ss)))"

definition compile_rule :: "SecurityPolicy \<Rightarrow> CompileError + Rule" where
  "compile_rule policy =
     (if pol_Action policy \<noteq> DecisionAllow \<and> pol_Action policy \<noteq> DecisionDrop
         \<and> pol_Action policy \<noteq> DecisionReject
      then Inl (PolicyActionNotL3L4 (pol_ID policy) (pol_Action policy))
      else
        (case prefixes_of (pol_SourceAddresses policy) of
           None \<Rightarrow> Inl (PolicySourceAddresses (pol_ID policy))
         | Some src \<Rightarrow>
             (case prefixes_of (pol_DestinationAddresses policy) of
                None \<Rightarrow> Inl (PolicyDestinationAddresses (pol_ID policy))
              | Some dst \<Rightarrow>
                  (case compile_services (pol_ID policy) (pol_Services policy) of
                     Inl e \<Rightarrow> Inl e
                   | Inr services \<Rightarrow>
                       Inr \<lparr>rule_ID = pol_ID policy, rule_Name = pol_Name policy,
                            rule_Priority = pol_Priority policy,
                            rule_SourceZones = stringSet (pol_SourceZones policy),
                            rule_DestinationZones = stringSet (pol_DestinationZones policy),
                            rule_SourceAddresses = src, rule_DestinationAddresses = dst,
                            rule_Services = services, rule_Action = pol_Action policy,
                            rule_Enabled = True\<rparr>))))"

fun compile_rules :: "int list \<Rightarrow> SecurityPolicy list \<Rightarrow> CompileError + Rule list" where
  "compile_rules seenPriority [] = Inr []"
| "compile_rules seenPriority (policy # policies) =
     (if pol_Priority policy \<in> set seenPriority then Inl (DuplicatePriority (pol_Priority policy))
      else
        let seenPriority = pol_Priority policy # seenPriority in
        if \<not> pol_Enabled policy then compile_rules seenPriority policies
        else
          (case compile_rule policy of
             Inl e \<Rightarrow> Inl e
           | Inr rule \<Rightarrow>
               (case compile_rules seenPriority policies of
                  Inl e \<Rightarrow> Inl e | Inr rules \<Rightarrow> Inr (rule # rules))))"

definition Compile :: "Config \<Rightarrow> u64 \<Rightarrow> CompileError + Program" where
  "Compile config generation =
     (let program = \<lparr>prog_Rules = [], prog_DefaultDeny = cfg_DefaultDeny config,
            prog_Generation = generation, prog_Selections = fmempty, prog_requestGates = fmempty,
            prog_InspectionIncludeManagement = False, prog_ManagementZones = {||},
            prog_zonePrefixes = fmempty, prog_localAddresses = {||}\<rparr>;
          program = fold add_interface (cfg_Interfaces config) program;
          program = fold (add_route (interfacesByID (cfg_Interfaces config))) (cfg_Routes config) program in
      case compile_rules [] (sort_key pol_Priority (cfg_Policies config)) of
        Inl e \<Rightarrow> Inl e
      | Inr rules \<Rightarrow> Inr (program\<lparr>prog_Rules := rules\<rparr>))"

definition m2_scope_error :: "SecurityPolicy \<Rightarrow> CompileError option" where
  "m2_scope_error policy =
     (if \<not> pol_Enabled policy then None
      else if pol_Applications policy \<noteq> [] then Some (PolicyApplications (pol_ID policy))
      else if pol_SecurityProfileID policy \<noteq> '''' then Some (PolicyProfile (pol_ID policy))
      else if pol_MinimumRisk policy \<noteq> None \<or> pol_MaximumRisk policy \<noteq> None
      then Some (PolicyRisk (pol_ID policy))
      else if ToUpper (TrimSpace (pol_Scope policy)) \<in> set ['''', ''SESSION''] then None
      else Some (PolicyScope (pol_ID policy) (pol_Scope policy)))"

definition CompileM2 :: "Config \<Rightarrow> u64 \<Rightarrow> CompileError + Program" where
  "CompileM2 config generation =
     (case List.map_filter m2_scope_error (cfg_Policies config) of
        e # _ \<Rightarrow> Inl e
      | [] \<Rightarrow> Compile config generation)"

section \<open>Evaluation\<close>

definition addressMatch :: "Prefix list \<Rightarrow> Addr \<Rightarrow> bool" where
  "addressMatch ps addr \<longleftrightarrow> ps = [] \<or> list_ex (\<lambda>p. Contains p addr) ps"

definition serviceMatch :: "Service list \<Rightarrow> View \<Rightarrow> bool" where
  "serviceMatch services view \<longleftrightarrow>
     services = []
     \<or> list_ex (\<lambda>service. svc_Protocol service = v_Protocol view
          \<and> (svc_Ports service = []
             \<or> list_ex (\<lambda>ports. PortRange_Contains ports (v_DestinationPort view)) (svc_Ports service)))
        services"

definition ruleMatches :: "Rule \<Rightarrow> View \<Rightarrow> bool" where
  "ruleMatches rule view =
     (if rule_SourceZones rule \<noteq> {||}
         \<and> ToLower (TrimSpace (v_SourceZone view)) |\<notin>| rule_SourceZones rule then False
      else if rule_DestinationZones rule \<noteq> {||}
         \<and> ToLower (TrimSpace (v_DestinationZone view)) |\<notin>| rule_DestinationZones rule then False
      else if \<not> addressMatch (rule_SourceAddresses rule) (v_SourceIP view)
         \<or> \<not> addressMatch (rule_DestinationAddresses rule) (v_DestinationIP view) then False
      else serviceMatch (rule_Services rule) view)"

definition rule_decision :: "u64 \<Rightarrow> Rule \<Rightarrow> ConnDecision" where
  "rule_decision generation rule =
     \<lparr>dec_Action = rule_Action rule, dec_PolicyID = rule_ID rule, dec_Generation = generation,
      dec_Reason = ''policy '' @ rule_ID rule @ '' matched''\<rparr>"

definition default_decision :: "bool \<Rightarrow> u64 \<Rightarrow> ConnDecision" where
  "default_decision deny generation =
     (if deny
      then \<lparr>dec_Action = DecisionDrop, dec_PolicyID = '''', dec_Generation = generation,
            dec_Reason = ''default deny''\<rparr>
      else \<lparr>dec_Action = DecisionAllow, dec_PolicyID = '''', dec_Generation = generation,
            dec_Reason = ''default allow''\<rparr>)"

fun evaluate_rules :: "bool \<Rightarrow> u64 \<Rightarrow> Rule list \<Rightarrow> View \<Rightarrow> ConnDecision" where
  "evaluate_rules deny generation [] view = default_decision deny generation"
| "evaluate_rules deny generation (rule # rules) view =
     (if rule_Enabled rule \<and> ruleMatches rule view then rule_decision generation rule
      else evaluate_rules deny generation rules view)"

definition Evaluate :: "Program \<Rightarrow> View \<Rightarrow> ConnDecision" where
  "Evaluate p view = evaluate_rules (prog_DefaultDeny p) (prog_Generation p) (prog_Rules p) view"

definition MatchBothDirections :: "Program \<Rightarrow> View \<Rightarrow> View \<Rightarrow> ConnDecision" where
  "MatchBothDirections p original reply = Evaluate p original"

definition ViewFromTuple :: "Tuple \<Rightarrow> string \<Rightarrow> string \<Rightarrow> View" where
  "ViewFromTuple t sourceZone destinationZone =
     \<lparr>v_SourceIP = SrcIP t, v_DestinationIP = DstIP t, v_SourcePort = SrcPort t,
      v_DestinationPort = DstPort t, v_Protocol = Protocol t, v_SourceZone = sourceZone,
      v_DestinationZone = destinationZone\<rparr>"

section \<open>Zone inference\<close>

text \<open>
  The scan keeps the number of bits of the best prefix so far, its zone, and whether another zone
  has a prefix of the same length. Go ranges over \<open>zonePrefixes\<close> in an unspecified order:
  \<open>InferAddressZone_in\<close> takes the order of the keys as an argument, \<open>InferAddressZone\<close> uses the
  sorted one, and the order is shown not to matter.
\<close>

definition zone_step :: "Addr \<Rightarrow> string \<times> Prefix \<Rightarrow> int \<times> string \<times> bool \<Rightarrow> int \<times> string \<times> bool" where
  "zone_step addr zp best =
     (case (zp, best) of ((zone, p), (bestBits, bestZone, ambiguous)) \<Rightarrow>
        if Contains p addr then
          if PfxBits p > bestBits then (PfxBits p, zone, False)
          else if PfxBits p = bestBits \<and> zone \<noteq> bestZone then (bestBits, bestZone, True)
          else best
        else best)"

definition zone_entries :: "(string, Prefix list) fmap \<Rightarrow> string list \<Rightarrow> (string \<times> Prefix) list" where
  "zone_entries m order =
     concat (map (\<lambda>zone. map (Pair zone) (case fmlookup m zone of None \<Rightarrow> [] | Some ps \<Rightarrow> ps)) order)"

definition InferAddressZone_in :: "string list \<Rightarrow> Program \<Rightarrow> Addr \<Rightarrow> string" where
  "InferAddressZone_in order p addr =
     (if \<not> Addr_IsValid addr then ''''
      else if IsLoopback addr then ZoneLocal
      else if addr |\<in>| prog_localAddresses p then ZoneLocal
      else
        (case fold (zone_step addr) (zone_entries (prog_zonePrefixes p) order) (-1, '''', False) of
           (bestBits, bestZone, ambiguous) \<Rightarrow>
             if ambiguous \<or> bestBits < 0 then '''' else bestZone))"

definition InferAddressZone :: "Program \<Rightarrow> Addr \<Rightarrow> string" where
  "InferAddressZone p addr =
     InferAddressZone_in (sorted_list_of_fset (fmdom (prog_zonePrefixes p))) p addr"

definition InferZones :: "Program \<Rightarrow> Tuple \<Rightarrow> string \<times> string" where
  "InferZones p tuple = (InferAddressZone p (SrcIP tuple), InferAddressZone p (DstIP tuple))"

section \<open>Zone inference: the longest prefix, in any order\<close>

text \<open>
  \<open>longest_zone\<close> is what the scan looks for: the zone of a prefix that contains the address, such
  that every other prefix containing it is shorter or is of the same length and zone.
\<close>

definition longest_zone :: "(string \<times> Prefix) set \<Rightarrow> Addr \<Rightarrow> string \<Rightarrow> bool" where
  "longest_zone E addr z \<longleftrightarrow>
     (\<exists>p. (z, p) \<in> E \<and> Contains p addr
       \<and> (\<forall>(z', p') \<in> E. Contains p' addr \<longrightarrow>
             PfxBits p' < PfxBits p \<or> (PfxBits p' = PfxBits p \<and> z' = z)))"

definition scan_inv :: "(string \<times> Prefix) set \<Rightarrow> Addr \<Rightarrow> int \<times> string \<times> bool \<Rightarrow> bool" where
  "scan_inv E addr best =
     (case best of (b, z, amb) \<Rightarrow>
        (\<forall>(z', p) \<in> E. Contains p addr \<longrightarrow> PfxBits p \<le> b)
        \<and> (if b < 0 then \<not> amb \<and> (\<forall>(z', p) \<in> E. \<not> Contains p addr)
           else (\<exists>p. (z, p) \<in> E \<and> Contains p addr \<and> PfxBits p = b)
              \<and> (amb \<longleftrightarrow> (\<exists>z' p. (z', p) \<in> E \<and> Contains p addr \<and> PfxBits p = b \<and> z' \<noteq> z))))"

lemma Contains_bits: "Contains p a \<Longrightarrow> 0 \<le> PfxBits p"
  by (auto simp: Contains_def Prefix_IsValid_def split: if_splits)

lemma scan_inv_step:
  assumes "scan_inv E addr best"
  shows "scan_inv (insert (zone, p) E) addr (zone_step addr (zone, p) best)"
proof (cases "Contains p addr")
  case False
  with assms show ?thesis by (auto simp: scan_inv_def zone_step_def split: prod.splits if_splits)
next
  case True
  obtain b z amb where best: "best = (b, z, amb)" by (cases best)
  from True have "0 \<le> PfxBits p" by (rule Contains_bits)
  consider "PfxBits p > b" | "PfxBits p = b" | "PfxBits p < b" by linarith
  then show ?thesis
  proof cases
    case 1
    then have step: "zone_step addr (zone, p) best = (PfxBits p, zone, False)"
      using True by (simp add: best zone_step_def)
    have "PfxBits q < PfxBits p" if "(z', q) \<in> E" "Contains q addr" for z' q
      using that assms 1 by (force simp: best scan_inv_def)
    then show ?thesis
      using True \<open>0 \<le> PfxBits p\<close> unfolding step scan_inv_def by (auto simp: less_imp_le dest: less_imp_neq)
  next
    case 2
    with assms \<open>0 \<le> PfxBits p\<close> obtain q where q: "(z, q) \<in> E" "Contains q addr" "PfxBits q = b"
      and le: "\<And>z' p. (z', p) \<in> E \<Longrightarrow> Contains p addr \<Longrightarrow> PfxBits p \<le> b"
      and amb: "amb \<longleftrightarrow> (\<exists>z' p. (z', p) \<in> E \<and> Contains p addr \<and> PfxBits p = b \<and> z' \<noteq> z)"
      by (auto simp: best scan_inv_def)
    have step: "zone_step addr (zone, p) best = (b, z, amb \<or> zone \<noteq> z)"
      using True 2 by (auto simp: best zone_step_def)
    show ?thesis
      unfolding step scan_inv_def amb using 2 True q le \<open>0 \<le> PfxBits p\<close> by auto
  next
    case 3
    with assms \<open>0 \<le> PfxBits p\<close> obtain q where q: "(z, q) \<in> E" "Contains q addr" "PfxBits q = b"
      and le: "\<And>z' p. (z', p) \<in> E \<Longrightarrow> Contains p addr \<Longrightarrow> PfxBits p \<le> b"
      and amb: "amb \<longleftrightarrow> (\<exists>z' p. (z', p) \<in> E \<and> Contains p addr \<and> PfxBits p = b \<and> z' \<noteq> z)"
      by (auto simp: best scan_inv_def split: if_splits)
    have step: "zone_step addr (zone, p) best = (b, z, amb)"
      using 3 by (auto simp: best zone_step_def)
    show ?thesis
      unfolding step scan_inv_def amb using 3 q le \<open>0 \<le> PfxBits p\<close> by auto
  qed
qed

lemma scan_inv_fold:
  "scan_inv (set es) addr (fold (zone_step addr) es (-1, '''', False))"
proof (induction es rule: rev_induct)
  case Nil
  then show ?case by (simp add: scan_inv_def)
next
  case (snoc e es)
  then show ?case using scan_inv_step [of "set es" addr _ "fst e" "snd e"] by simp
qed

lemma longest_zone_unique: "longest_zone E addr z \<Longrightarrow> longest_zone E addr z' \<Longrightarrow> z = z'"
proof -
  assume "longest_zone E addr z" "longest_zone E addr z'"
  then obtain p p' where
      "(z, p) \<in> E" "Contains p addr" "(z', p') \<in> E" "Contains p' addr"
      "\<forall>(y, q) \<in> E. Contains q addr \<longrightarrow> PfxBits q < PfxBits p \<or> (PfxBits q = PfxBits p \<and> y = z)"
      "\<forall>(y, q) \<in> E. Contains q addr \<longrightarrow> PfxBits q < PfxBits p' \<or> (PfxBits q = PfxBits p' \<and> y = z')"
    unfolding longest_zone_def by blast
  then have "PfxBits p' < PfxBits p \<or> z' = z" "PfxBits p < PfxBits p' \<or> z = z'" by blast+
  then show "z = z'" by auto
qed

lemma scan_result:
  assumes "scan_inv E addr (b, z, amb)"
  shows "if amb \<or> b < 0 then (\<forall>z'. \<not> longest_zone E addr z') else longest_zone E addr z"
proof (cases "b < 0")
  case True
  with assms show ?thesis by (auto simp: scan_inv_def longest_zone_def)
next
  case False
  with assms obtain q where q: "(z, q) \<in> E" "Contains q addr" "PfxBits q = b"
    and le: "\<And>z' p. (z', p) \<in> E \<Longrightarrow> Contains p addr \<Longrightarrow> PfxBits p \<le> b"
    and amb: "amb \<longleftrightarrow> (\<exists>z' p. (z', p) \<in> E \<and> Contains p addr \<and> PfxBits p = b \<and> z' \<noteq> z)"
    by (auto simp: scan_inv_def)
  show ?thesis
  proof (cases amb)
    case True
    then obtain z' p where p: "(z', p) \<in> E" "Contains p addr" "PfxBits p = b" "z' \<noteq> z"
      using amb by blast
    have "\<not> longest_zone E addr y" for y
    proof
      assume "longest_zone E addr y"
      then obtain r where r: "(y, r) \<in> E" "Contains r addr"
          "\<forall>(z', p') \<in> E. Contains p' addr \<longrightarrow>
             PfxBits p' < PfxBits r \<or> (PfxBits p' = PfxBits r \<and> z' = y)"
        unfolding longest_zone_def by blast
      then have "PfxBits q < PfxBits r \<or> z = y" "PfxBits p < PfxBits r \<or> z' = y"
        using p q by blast+
      then show False using le [OF r(1,2)] p q by auto
    qed
    with True show ?thesis by simp
  next
    case not: False
    have "PfxBits p < PfxBits q \<or> PfxBits p = PfxBits q \<and> z' = z"
      if "(z', p) \<in> E" "Contains p addr" for z' p
      using that not amb q(3) le [OF that] by (metis order_le_less)
    with q have "longest_zone E addr z"
      unfolding longest_zone_def by blast
    with False not show ?thesis by simp
  qed
qed

lemma set_zone_entries:
  "set order = fset (fmdom m) \<Longrightarrow>
   set (zone_entries m order) = {(z, p) | z p ps. fmlookup m z = Some ps \<and> p \<in> set ps}"
  by (fastforce simp: zone_entries_def fmdom'_alt_def [symmetric] fmlookup_dom'_iff split: option.splits)

definition zone_prefix_pairs :: "Program \<Rightarrow> (string \<times> Prefix) set" where
  "zone_prefix_pairs p = {(z, q) | z q ps. fmlookup (prog_zonePrefixes p) z = Some ps \<and> q \<in> set ps}"

lemma InferAddressZone_in_spec:
  assumes "set order = fset (fmdom (prog_zonePrefixes p))"
    "Addr_IsValid addr" "\<not> IsLoopback addr" "addr |\<notin>| prog_localAddresses p"
  shows "longest_zone (zone_prefix_pairs p) addr (InferAddressZone_in order p addr)
    \<or> (\<forall>z. \<not> longest_zone (zone_prefix_pairs p) addr z) \<and> InferAddressZone_in order p addr = ''''"
proof -
  obtain b z amb where f:
      "fold (zone_step addr) (zone_entries (prog_zonePrefixes p) order) (-1, '''', False) = (b, z, amb)"
    by (cases "fold (zone_step addr) (zone_entries (prog_zonePrefixes p) order) (-1, '''', False)")
  have "scan_inv (zone_prefix_pairs p) addr (b, z, amb)"
    using scan_inv_fold [of "zone_entries (prog_zonePrefixes p) order" addr]
    by (simp add: f zone_prefix_pairs_def set_zone_entries [OF assms(1)])
  from scan_result [OF this] show ?thesis
    using assms(2-4) by (auto simp: InferAddressZone_in_def f split: if_splits)
qed

text \<open>
  C19: zone inference does not depend on the order in which Go iterates over the zones, and for an
  address that is not the gateway's own it returns the zone of the longest configured prefix that
  contains the address, or nothing when there is no such prefix or two zones tie for it.
\<close>

theorem infer_zone_is_longest_prefix:
  assumes "set order = fset (fmdom (prog_zonePrefixes p))"
  shows "InferAddressZone_in order p addr = InferAddressZone p addr
    \<and> (if \<not> Addr_IsValid addr then InferAddressZone p addr = ''''
       else if IsLoopback addr \<or> addr |\<in>| prog_localAddresses p
       then InferAddressZone p addr = ZoneLocal
       else longest_zone (zone_prefix_pairs p) addr (InferAddressZone p addr)
         \<or> (\<forall>z. \<not> longest_zone (zone_prefix_pairs p) addr z) \<and> InferAddressZone p addr = '''')"
proof -
  let ?o = "sorted_list_of_fset (fmdom (prog_zonePrefixes p))"
  have o: "set ?o = fset (fmdom (prog_zonePrefixes p))" by simp
  show ?thesis
  proof (cases "Addr_IsValid addr \<and> \<not> IsLoopback addr \<and> addr |\<notin>| prog_localAddresses p")
    case True
    with InferAddressZone_in_spec [OF assms, of addr] InferAddressZone_in_spec [OF o, of addr]
    show ?thesis
      using longest_zone_unique by (fastforce simp: InferAddressZone_def)
  next
    case False
    then show ?thesis by (auto simp: InferAddressZone_def InferAddressZone_in_def)
  qed
qed

definition zone_example :: Program where
  "zone_example =
     \<lparr>prog_Rules = [], prog_DefaultDeny = True, prog_Generation = 1, prog_Selections = fmempty,
      prog_requestGates = fmempty, prog_InspectionIncludeManagement = False,
      prog_ManagementZones = {||},
      prog_zonePrefixes = fmupd ''lan'' [PrefixFrom (Addr4 0x0A000000) 24]
        (fmupd ''wan'' [PrefixFrom (Addr4 0) 0] fmempty),
      prog_localAddresses = {|Addr4 0x0A000001|}\<rparr>"

theorem infer_zone_is_longest_prefix_witness:
  "InferAddressZone_in [''wan'', ''lan''] zone_example (Addr4 0x0A000005) = ''lan''
   \<and> longest_zone (zone_prefix_pairs zone_example) (Addr4 0x0A000005) ''lan''"
proof -
  have o: "set [''wan'', ''lan''] = fset (fmdom (prog_zonePrefixes zone_example))"
    by (auto simp: zone_example_def)
  have "InferAddressZone zone_example (Addr4 0x0A000005) = ''lan''"
    "Addr_IsValid (Addr4 0x0A000005)" "\<not> IsLoopback (Addr4 0x0A000005)"
    "Addr4 0x0A000005 |\<notin>| prog_localAddresses zone_example"
    by code_simp+
  then show ?thesis
    using infer_zone_is_longest_prefix [OF o, of "Addr4 0x0A000005"] by simp
qed

section \<open>First-match evaluation\<close>

text \<open>
  The contract of an ordered rule list: the first rule that is hit decides. A rule that is hit only
  where an earlier rule is hit can be removed.
\<close>

locale first_match =
  fixes eval :: "'r list \<Rightarrow> 'v \<Rightarrow> 'd" and hit :: "'r \<Rightarrow> 'v \<Rightarrow> bool" and verdict :: "'r \<Rightarrow> 'd"
    and default :: 'd
  assumes eval_Nil: "eval [] v = default"
    and eval_Cons: "eval (r # rs) v = (if hit r v then verdict r else eval rs v)"
begin

lemma eval_append: "\<forall>a \<in> set as. \<not> hit a v \<Longrightarrow> eval (as @ rs) v = eval rs v"
  by (induction as) (simp_all add: eval_Cons)

lemma eval_first: "\<forall>a \<in> set as. \<not> hit a v \<Longrightarrow> hit r v \<Longrightarrow> eval (as @ r # bs) v = verdict r"
  by (simp add: eval_append eval_Cons)

lemma eval_none: "\<forall>a \<in> set rs. \<not> hit a v \<Longrightarrow> eval rs v = default"
  using eval_append [of rs v "[]"] by (simp add: eval_Nil)

lemma eval_cases:
  obtains as r bs where "rs = as @ r # bs" "\<forall>a \<in> set as. \<not> hit a v" "hit r v" "eval rs v = verdict r"
  | "\<forall>a \<in> set rs. \<not> hit a v" "eval rs v = default"
proof (cases "\<exists>a \<in> set rs. hit a v")
  case True
  then obtain as r bs where "rs = as @ r # bs" "hit r v" "\<forall>a \<in> set as. \<not> hit a v"
    using split_list_first_prop [of rs "\<lambda>a. hit a v"] by blast
  then show thesis using that(1) eval_first by blast
next
  case False
  then show thesis using that(2) eval_none by blast
qed

lemma eval_prefix_hit:
  "a \<in> set as \<Longrightarrow> hit a v \<Longrightarrow> eval (as @ rs) v = eval (as @ rs') v"
  by (induction as) (auto simp: eval_Cons)

lemma eval_remove_covered:
  assumes "hit r v \<Longrightarrow> \<exists>a \<in> set as. hit a v"
  shows "eval (as @ r # bs) v = eval (as @ bs) v"
  using assms eval_prefix_hit [of _ as v "r # bs" bs] eval_append [of as v]
  by (cases "\<exists>a \<in> set as. hit a v") (auto simp: eval_Cons)

end

definition rule_hit :: "Rule \<Rightarrow> View \<Rightarrow> bool" where
  "rule_hit rule view \<longleftrightarrow> rule_Enabled rule \<and> ruleMatches rule view"

interpretation rules: first_match "evaluate_rules deny generation" rule_hit
    "rule_decision generation" "default_decision deny generation"
  for deny generation
  by unfold_locales (simp_all add: rule_hit_def)

section \<open>What a policy selects\<close>

text \<open>
  The meaning of a policy's selectors, read directly off the configured texts. The compiled rule
  matches exactly the views the policy selects.
\<close>

definition zone_selected :: "string list \<Rightarrow> string \<Rightarrow> bool" where
  "zone_selected raws zone \<longleftrightarrow>
     (\<forall>raw \<in> set raws. TrimSpace raw = '''')
     \<or> (\<exists>raw \<in> set raws. TrimSpace raw \<noteq> '''' \<and> EqualFold (TrimSpace raw) (TrimSpace zone))"

definition addr_selected :: "string list \<Rightarrow> Addr \<Rightarrow> bool" where
  "addr_selected raws addr \<longleftrightarrow>
     (\<forall>raw \<in> set raws. TrimSpace raw = '''')
     \<or> (\<exists>raw \<in> set raws.
          (\<exists>a. ParseAddr (TrimSpace raw) = Some a \<and> Contains (PrefixFrom a (BitLen a)) addr)
          \<or> (\<exists>q. ParsePrefix (TrimSpace raw) = Some q \<and> Contains q addr))"

definition service_selected :: "string list \<Rightarrow> View \<Rightarrow> bool" where
  "service_selected raws view \<longleftrightarrow>
     raws = []
     \<or> (\<exists>raw \<in> set raws. \<exists>s. ParseServiceSelector raw = Inr s
          \<and> ParseProtocol (sel_Protocol s) = (v_Protocol view, True)
          \<and> (sel_AllPorts s
             \<or> sel_First s \<le> v_DestinationPort view \<and> v_DestinationPort view \<le> sel_Last s))"

definition policy_selects :: "SecurityPolicy \<Rightarrow> View \<Rightarrow> bool" where
  "policy_selects policy view \<longleftrightarrow>
     pol_Enabled policy
     \<and> zone_selected (pol_SourceZones policy) (v_SourceZone view)
     \<and> zone_selected (pol_DestinationZones policy) (v_DestinationZone view)
     \<and> addr_selected (pol_SourceAddresses policy) (v_SourceIP view)
     \<and> addr_selected (pol_DestinationAddresses policy) (v_DestinationIP view)
     \<and> service_selected (pol_Services policy) view"

lemma fset_of_list_Nil_iff: "fset_of_list xs = {||} \<longleftrightarrow> xs = []"
  by (cases xs) auto

lemma stringSet_selected:
  "stringSet raws = {||} \<or> ToLower (TrimSpace zone) |\<in>| stringSet raws \<longleftrightarrow> zone_selected raws zone"
proof -
  have "stringSet raws = {||} \<longleftrightarrow> (\<forall>raw \<in> set raws. TrimSpace raw = '''')"
    unfolding stringSet_def fset_of_list_Nil_iff by (auto simp: filter_empty_conv ToLower_def)
  moreover have "ToLower (TrimSpace zone) |\<in>| stringSet raws \<longleftrightarrow>
      TrimSpace zone \<noteq> '''' \<and> (\<exists>raw \<in> set raws. ToLower (TrimSpace raw) = ToLower (TrimSpace zone))"
    unfolding stringSet_def fset_of_list_elem by (auto simp: ToLower_def) (metis image_eqI)
  moreover have "ToLower s = ToLower t \<Longrightarrow> s = '''' \<longleftrightarrow> t = ''''" for s t
    by (auto simp: ToLower_def)
  ultimately show ?thesis
    unfolding zone_selected_def EqualFold_def by metis
qed

lemma ParseAddr_empty [simp]: "ParseAddr '''' = None" "ParsePrefix '''' = None"
  by (simp_all add: ParseAddr_def ParsePrefix_def)

lemma BitLen_eq: "a \<noteq> AddrZero \<Longrightarrow> BitLen a = (if Is4 a then 32 else 128)"
  by (cases a) (simp_all add: BitLen_def Is4_def)

lemma prefixes_of_selected:
  assumes "prefixes_of raws = Some ps"
  shows "addressMatch ps addr \<longleftrightarrow> addr_selected raws addr"
proof -
  have "(ps = [] \<longleftrightarrow> (\<forall>raw \<in> set raws. TrimSpace raw = ''''))
    \<and> (list_ex (\<lambda>p. Contains p addr) ps \<longleftrightarrow>
        (\<exists>raw \<in> set raws.
          (\<exists>a. ParseAddr (TrimSpace raw) = Some a \<and> Contains (PrefixFrom a (BitLen a)) addr)
          \<or> (\<exists>q. ParsePrefix (TrimSpace raw) = Some q \<and> Contains q addr)))"
    using assms
  proof (induction raws arbitrary: ps)
    case (Cons raw raws)
    show ?case
    proof (cases "TrimSpace raw = ''''")
      case True
      with Cons show ?thesis by simp
    next
      case False
      with Cons.prems obtain p qs where p: "ps = p # qs" "prefixes_of raws = Some qs"
          "(case ParseAddr (TrimSpace raw) of
             Some addr \<Rightarrow> Some (PrefixFrom addr (if Is4 addr then 32 else 128))
           | None \<Rightarrow> map_option Masked (ParsePrefix (TrimSpace raw))) = Some p"
        by (auto simp: Let_def split: option.splits)
      have "Contains p addr \<longleftrightarrow>
          (\<exists>a. ParseAddr (TrimSpace raw) = Some a \<and> Contains (PrefixFrom a (BitLen a)) addr)
          \<or> (\<exists>q. ParsePrefix (TrimSpace raw) = Some q \<and> Contains q addr)"
        using p(3) ParsePrefix_not_addr [of "TrimSpace raw"] ParseAddr_nonzero [of "TrimSpace raw"]
        by (auto simp: BitLen_eq Contains_Masked wf_ParsePrefix split: option.splits)
      with False Cons.IH [OF p(2)] show ?thesis by (simp add: p(1))
    qed
  qed simp
  then show ?thesis by (simp add: addressMatch_def addr_selected_def)
qed

lemma compile_services_selected:
  assumes "compile_services policy raws = Inr ss"
  shows "serviceMatch ss view \<longleftrightarrow> service_selected raws view"
proof -
  have "(ss = [] \<longleftrightarrow> raws = [])
    \<and> (list_ex (\<lambda>service. svc_Protocol service = v_Protocol view
          \<and> (svc_Ports service = []
             \<or> list_ex (\<lambda>ports. PortRange_Contains ports (v_DestinationPort view)) (svc_Ports service))) ss
       \<longleftrightarrow> (\<exists>raw \<in> set raws. \<exists>s. ParseServiceSelector raw = Inr s
          \<and> ParseProtocol (sel_Protocol s) = (v_Protocol view, True)
          \<and> (sel_AllPorts s
             \<or> sel_First s \<le> v_DestinationPort view \<and> v_DestinationPort view \<le> sel_Last s)))"
    using assms
    by (induction raws arbitrary: ss)
      (auto simp: parseService_def PortRange_Contains_def split: option.splits sum.splits prod.splits if_splits)
  then show ?thesis by (simp add: serviceMatch_def service_selected_def)
qed

lemma compile_rule_selects:
  assumes "compile_rule policy = Inr rule" "pol_Enabled policy"
  shows "rule_hit rule view \<longleftrightarrow> policy_selects policy view"
    "rule_decision generation rule =
       \<lparr>dec_Action = pol_Action policy, dec_PolicyID = pol_ID policy, dec_Generation = generation,
        dec_Reason = ''policy '' @ pol_ID policy @ '' matched''\<rparr>"
    "pol_Action policy \<in> {DecisionAllow, DecisionDrop, DecisionReject}"
    "rule_ID rule = pol_ID policy"
    "rule_Priority rule = pol_Priority policy"
proof -
  from assms(1) obtain src dst services where
    act: "pol_Action policy \<in> {DecisionAllow, DecisionDrop, DecisionReject}" and
    src: "prefixes_of (pol_SourceAddresses policy) = Some src" and
    dst: "prefixes_of (pol_DestinationAddresses policy) = Some dst" and
    svc: "compile_services (pol_ID policy) (pol_Services policy) = Inr services" and
    rule: "rule = \<lparr>rule_ID = pol_ID policy, rule_Name = pol_Name policy,
       rule_Priority = pol_Priority policy, rule_SourceZones = stringSet (pol_SourceZones policy),
       rule_DestinationZones = stringSet (pol_DestinationZones policy),
       rule_SourceAddresses = src, rule_DestinationAddresses = dst,
       rule_Services = services, rule_Action = pol_Action policy, rule_Enabled = True\<rparr>"
    by (auto simp: compile_rule_def split: if_splits option.splits sum.splits)
  show "rule_hit rule view \<longleftrightarrow> policy_selects policy view"
    using assms(2)
    by (auto simp: rule rule_hit_def ruleMatches_def policy_selects_def
        prefixes_of_selected [OF src] prefixes_of_selected [OF dst] compile_services_selected [OF svc]
        simp flip: stringSet_selected)
qed (use assms(1) in \<open>auto simp: compile_rule_def rule_decision_def
      split: if_splits option.splits sum.splits\<close>)

lemma compile_rules_Inr:
  "compile_rules seen ps = Inr rules \<longleftrightarrow>
     distinct (map pol_Priority ps) \<and> pol_Priority ` set ps \<inter> set seen = {}
     \<and> map_err compile_rule (filter pol_Enabled ps) = Inr rules"
proof (induction ps arbitrary: seen rules)
  case (Cons p ps)
  let ?seen = "pol_Priority p # seen"
  have "compile_rules seen (p # ps) = Inr rules \<longleftrightarrow>
      pol_Priority p \<notin> set seen
      \<and> (if pol_Enabled p
         then (\<exists>r rs. compile_rule p = Inr r \<and> compile_rules ?seen ps = Inr rs \<and> rules = r # rs)
         else compile_rules ?seen ps = Inr rules)"
    by (auto simp: Let_def split: sum.splits)
  moreover have "map_err compile_rule (filter pol_Enabled (p # ps)) = Inr rules \<longleftrightarrow>
      (if pol_Enabled p
       then (\<exists>r rs. compile_rule p = Inr r \<and> map_err compile_rule (filter pol_Enabled ps) = Inr rs
               \<and> rules = r # rs)
       else map_err compile_rule (filter pol_Enabled ps) = Inr rules)"
    by (auto split: sum.splits)
  ultimately show ?case
    by (auto simp: Cons.IH simp del: compile_rules.simps map_err.simps)
qed simp

lemma add_interface_address_keeps:
  "prog_DefaultDeny (add_interface_address i raw p) = prog_DefaultDeny p
   \<and> prog_Generation (add_interface_address i raw p) = prog_Generation p"
  by (simp add: add_interface_address_def append_zone_prefix_def Let_def split: option.splits)

lemma fold_keeps: "(\<And>x s. f (g x s) = f s) \<Longrightarrow> f (fold g xs s) = f s"
  by (induction xs arbitrary: s) simp_all

lemma fold_add_interface_keeps:
  "prog_DefaultDeny (fold add_interface is p) = prog_DefaultDeny p"
  "prog_Generation (fold add_interface is p) = prog_Generation p"
  by (rule fold_keeps; auto simp: add_interface_def Let_def fold_keeps add_interface_address_keeps)+

lemma fold_add_route_keeps:
  "prog_DefaultDeny (fold (add_route m) rs p) = prog_DefaultDeny p"
  "prog_Generation (fold (add_route m) rs p) = prog_Generation p"
  by (rule fold_keeps; simp add: add_route_def append_zone_prefix_def split: option.splits)+

lemma Compile_Inr:
  assumes "Compile config generation = Inr p"
  shows "distinct (map pol_Priority (cfg_Policies config))"
    "map_err compile_rule (filter pol_Enabled (sort_key pol_Priority (cfg_Policies config))) =
       Inr (prog_Rules p)"
    "prog_DefaultDeny p = cfg_DefaultDeny config" "prog_Generation p = generation"
proof -
  have "compile_rules [] (sort_key pol_Priority (cfg_Policies config)) = Inr (prog_Rules p)"
    using assms by (auto simp: Compile_def Let_def split: sum.splits)
  then show "distinct (map pol_Priority (cfg_Policies config))"
    "map_err compile_rule (filter pol_Enabled (sort_key pol_Priority (cfg_Policies config))) =
       Inr (prog_Rules p)"
    by (simp_all add: compile_rules_Inr distinct_map)
qed (use assms in \<open>auto simp: Compile_def Let_def fold_add_interface_keeps fold_add_route_keeps
      split: sum.splits\<close>)

lemma list_all2_mem: "list_all2 P xs ys \<Longrightarrow> x \<in> set xs \<Longrightarrow> \<exists>y \<in> set ys. P x y"
  by (induction rule: list_all2_induct) auto

lemma filter_sorted_before:
  assumes "sorted (map f xs)" "distinct (map f xs)" "filter P xs = as @ x # bs" "y \<in> set xs" "P y"
    "y \<notin> set as"
  shows "y = x \<or> f x < f y"
proof -
  have "sorted (map f (as @ x # bs))" "distinct (map f (as @ x # bs))"
    using assms(1,2) sorted_filter [of f xs P] by (auto simp flip: assms(3) intro: distinct_map_filter)
  moreover have "y \<in> set (as @ x # bs)" using assms(4,5) by (simp flip: assms(3))
  ultimately show ?thesis using assms(6) by (auto simp: sorted_append order_le_less)
qed

lemma evaluate_policy_cases:
  assumes "Compile config generation = Inr p"
  shows "(\<exists>policy \<in> set (cfg_Policies config).
      policy_selects policy view
      \<and> (\<forall>other \<in> set (cfg_Policies config). policy_selects other view \<longrightarrow>
           other = policy \<or> pol_Priority policy < pol_Priority other)
      \<and> pol_Action policy \<in> {DecisionAllow, DecisionDrop, DecisionReject}
      \<and> Evaluate p view =
          \<lparr>dec_Action = pol_Action policy, dec_PolicyID = pol_ID policy, dec_Generation = generation,
           dec_Reason = ''policy '' @ pol_ID policy @ '' matched''\<rparr>)
    \<or> (\<forall>policy \<in> set (cfg_Policies config). \<not> policy_selects policy view)
      \<and> Evaluate p view =
          \<lparr>dec_Action = (if cfg_DefaultDeny config then DecisionDrop else DecisionAllow),
           dec_PolicyID = '''', dec_Generation = generation,
           dec_Reason = (if cfg_DefaultDeny config then ''default deny'' else ''default allow'')\<rparr>"
proof -
  note C = Compile_Inr [OF assms]
  let ?ps = "sort_key pol_Priority (cfg_Policies config)"
  have all2: "list_all2 (\<lambda>q r. compile_rule q = Inr r) (filter pol_Enabled ?ps) (prog_Rules p)"
    using C(2) by (simp add: map_err_Inr_iff)
  have ev: "Evaluate p view = evaluate_rules (cfg_DefaultDeny config) generation (prog_Rules p) view"
    by (simp add: Evaluate_def C)
  show ?thesis
  proof (cases rule: rules.eval_cases
      [of "prog_Rules p" view "cfg_DefaultDeny config" generation])
    case (1 as r bs)
    with all2 obtain qs q rest where f: "filter pol_Enabled ?ps = qs @ q # rest"
        "list_all2 (\<lambda>q r. compile_rule q = Inr r) qs as" "compile_rule q = Inr r"
      by (auto simp: list_all2_append2 list_all2_Cons2)
    then have "q \<in> set (filter pol_Enabled ?ps)" by simp
    then have q: "q \<in> set (cfg_Policies config)" "pol_Enabled q" by simp_all
    have no: "\<not> policy_selects x view" if "x \<in> set qs" for x
    proof -
      from list_all2_mem [OF f(2) that] obtain s where "s \<in> set as" "compile_rule x = Inr s"
        by blast
      then show ?thesis using 1(2) compile_rule_selects(1) policy_selects_def by blast
    qed
    have "other = q \<or> pol_Priority q < pol_Priority other"
      if "other \<in> set (cfg_Policies config)" "policy_selects other view" for other
      using filter_sorted_before [OF _ _ f(1), of pol_Priority other] that no C(1)
      by (auto simp: policy_selects_def distinct_map)
    then show ?thesis
      using q(1) 1(3,4) compile_rule_selects [OF f(3) q(2)] ev by (intro disjI1 bexI [of _ q]) auto
  next
    case 2
    have "\<not> policy_selects x view" if "x \<in> set (cfg_Policies config)" for x
    proof
      assume x: "policy_selects x view"
      then have "x \<in> set (filter pol_Enabled ?ps)" using that by (simp add: policy_selects_def)
      from list_all2_mem [OF all2 this] obtain s where "s \<in> set (prog_Rules p)" "compile_rule x = Inr s"
        by blast
      then show False using 2(1) compile_rule_selects(1) x policy_selects_def by blast
    qed
    then show ?thesis using 2(2) ev by (simp add: default_decision_def)
  qed
qed

text \<open>
  C1: a packet view is decided by the enabled policy that selects it and has the smallest
  priority number, whatever the order of the configured list; that policy is unique, and its
  action is one of allow, drop and reject. When no enabled policy selects the view, the default
  applies.
\<close>

theorem evaluate_lowest_priority_policy:
  assumes "Compile config generation = Inr p"
  shows "(\<exists>policy \<in> set (cfg_Policies config).
      policy_selects policy view
      \<and> (\<forall>other \<in> set (cfg_Policies config). policy_selects other view \<longrightarrow>
           other = policy \<or> pol_Priority policy < pol_Priority other)
      \<and> pol_Action policy \<in> {DecisionAllow, DecisionDrop, DecisionReject}
      \<and> Evaluate p view =
          \<lparr>dec_Action = pol_Action policy, dec_PolicyID = pol_ID policy, dec_Generation = generation,
           dec_Reason = ''policy '' @ pol_ID policy @ '' matched''\<rparr>)
    \<or> (\<forall>policy \<in> set (cfg_Policies config). \<not> policy_selects policy view)
      \<and> Evaluate p view =
          \<lparr>dec_Action = (if cfg_DefaultDeny config then DecisionDrop else DecisionAllow),
           dec_PolicyID = '''', dec_Generation = generation,
           dec_Reason = (if cfg_DefaultDeny config then ''default deny'' else ''default allow'')\<rparr>"
  using evaluate_policy_cases [OF assms] .

text \<open>
  The compiled program does not depend on the order in which the policies are listed.
\<close>

lemma compile_policy_order_irrelevant:
  assumes "Compile config generation = Inr p" "mset policies = mset (cfg_Policies config)"
  shows "Compile (config\<lparr>cfg_Policies := policies\<rparr>) generation = Inr p"
proof -
  have "inj_on pol_Priority (set (cfg_Policies config))"
    using Compile_Inr(1) [OF assms(1)] by (simp add: distinct_map)
  then have "sort_key pol_Priority policies = sort_key pol_Priority (cfg_Policies config)"
    using assms(2) by (intro sort_key_unique) (simp_all flip: set_mset_mset)
  then show ?thesis using assms(1) by (simp add: Compile_def Let_def)
qed

definition example_policy :: SecurityPolicy where
  "example_policy =
     \<lparr>pol_ID = ''web'', pol_Name = ''web'', pol_Priority = 10, pol_SourceZones = [''LAN''],
      pol_DestinationZones = [], pol_SourceAddresses = [''10.0.0.0/24''],
      pol_DestinationAddresses = [], pol_Services = [''tcp:443''], pol_Applications = [],
      pol_ApplicationMatchMode = '''', pol_SecurityProfileID = '''', pol_MinimumRisk = None,
      pol_MaximumRisk = None, pol_Action = DecisionAllow, pol_Scope = '''', pol_LogStart = False,
      pol_LogEnd = False, pol_Enabled = True\<rparr>"

definition example_config :: Config where
  "example_config =
     \<lparr>cfg_Interfaces = [], cfg_Zones = [], cfg_Routes = [], cfg_NATRules = [],
      cfg_Policies =
        [example_policy\<lparr>pol_ID := ''all'', pol_Priority := 20, pol_SourceAddresses := [],
           pol_Services := [], pol_Action := DecisionReject\<rparr>, example_policy],
      cfg_Profiles = [], cfg_MaxSessions = 0, cfg_MaxEventsQueue = 0, cfg_MaxHTTPBodyInspection = 0,
      cfg_MaxHTTPHeaderSize = 0, cfg_MaxURLLength = 0, cfg_MaxMLInputLength = 0,
      cfg_MLTimeoutMillis = 0, cfg_RequestInspectionTimeoutMillis = 0, cfg_DefaultDeny = True,
      cfg_Inspection = None, cfg_RequestGate = None, cfg_TLSExclusions = []\<rparr>"

definition example_view :: View where
  "example_view =
     \<lparr>v_SourceIP = Addr4 0x0A000005, v_DestinationIP = Addr4 0x08080808, v_SourcePort = 40000,
      v_DestinationPort = 443, v_Protocol = 6, v_SourceZone = ''lan'', v_DestinationZone = ''wan''\<rparr>"

definition example_rule :: "string \<Rightarrow> int \<Rightarrow> Prefix list \<Rightarrow> Service list \<Rightarrow> Decision \<Rightarrow> Rule" where
  "example_rule i prio src svcs action =
     \<lparr>rule_ID = i, rule_Name = ''web'', rule_Priority = prio, rule_SourceZones = {|''lan''|},
      rule_DestinationZones = {||}, rule_SourceAddresses = src, rule_DestinationAddresses = [],
      rule_Services = svcs, rule_Action = action, rule_Enabled = True\<rparr>"

definition example_program :: Program where
  "example_program =
     \<lparr>prog_Rules =
        [example_rule ''web'' 10 [PrefixFrom (Addr4 0x0A000000) 24]
           [\<lparr>svc_Protocol = 6, svc_Ports = [\<lparr>pr_First = 443, pr_Last = 443\<rparr>]\<rparr>] DecisionAllow,
         example_rule ''all'' 20 [] [] DecisionReject],
      prog_DefaultDeny = True, prog_Generation = 7, prog_Selections = fmempty,
      prog_requestGates = fmempty, prog_InspectionIncludeManagement = False,
      prog_ManagementZones = {||}, prog_zonePrefixes = fmempty, prog_localAddresses = {||}\<rparr>"

lemma example_compiles: "Compile example_config 7 = Inr example_program"
  by code_simp

theorem evaluate_lowest_priority_policy_witness:
  "dec_PolicyID (Evaluate example_program example_view) = ''web''
   \<and> (\<exists>policy \<in> set (cfg_Policies example_config).
        policy_selects policy example_view \<and> pol_ID policy = ''web'')"
proof -
  have "dec_PolicyID (Evaluate example_program example_view) = ''web''" by code_simp
  with evaluate_lowest_priority_policy [OF example_compiles, of example_view] show ?thesis by auto
qed

lemma compile_policy_order_irrelevant_witness:
  "Compile (example_config\<lparr>cfg_Policies := rev (cfg_Policies example_config)\<rparr>) 7 = Inr example_program"
  by (rule compile_policy_order_irrelevant [OF example_compiles]) simp

end
