(* ===== verification/Reachability.thy ===== *)
theory Reachability
imports Connectivity
begin

text \<open>
  Diagnosis of unreachable policies (\<open>internal/config/policy_reachability.go\<close>): a policy is reported
  when one policy of a smaller priority number covers all of its selectors.
\<close>

section \<open>Model\<close>

datatype PolicyDiagnostic =
    Unreachable string string int
  | ExactDuplicate string string int

definition isL3L4FirstMatchPolicy :: "SecurityPolicy \<Rightarrow> bool" where
  "isL3L4FirstMatchPolicy policy =
     (if \<not> pol_Enabled policy \<or> pol_Applications policy \<noteq> [] \<or> pol_SecurityProfileID policy \<noteq> ''''
         \<or> pol_MinimumRisk policy \<noteq> None \<or> pol_MaximumRisk policy \<noteq> None then False
      else if ToUpper (TrimSpace (pol_Scope policy)) \<notin> set ['''', ''SESSION''] then False
      else pol_Action policy \<in> set [DecisionAllow, DecisionDrop, DecisionReject])"

definition isL3L4FirstMatchPolicyForConfig :: "Config option \<Rightarrow> SecurityPolicy \<Rightarrow> bool" where
  "isL3L4FirstMatchPolicyForConfig c policy =
     (if c = None then isL3L4FirstMatchPolicy policy
      else if \<not> pol_Enabled policy then False
      else if pol_Scope policy \<noteq> '''' \<and> \<not> EqualFold (TrimSpace (pol_Scope policy)) ''SESSION'' then False
      else if pol_Action policy \<notin> set [DecisionAllow, DecisionDrop, DecisionReject] then False
      else if pol_MinimumRisk policy \<noteq> None \<or> pol_MaximumRisk policy \<noteq> None then False
      else if pol_Applications policy \<noteq> [] \<and> pol_Action policy \<noteq> DecisionAllow then False
      else if pol_ApplicationMatchMode policy \<noteq> ''''
         \<and> \<not> EqualFold (pol_ApplicationMatchMode policy) ''RESTRICT_L3_ALLOW'' then False
      else True)"

definition stringSelectorsCover :: "string list \<Rightarrow> string list \<Rightarrow> bool" where
  "stringSelectorsCover earlier later =
     (if later = [] then earlier = []
      else if earlier = [] then True
      else list_all (\<lambda>wanted.
             list_ex (\<lambda>candidate. EqualFold (TrimSpace candidate) (TrimSpace wanted)) earlier) later)"

definition selectorPrefix :: "string \<Rightarrow> Prefix option" where
  "selectorPrefix raw =
     (let s = TrimSpace raw in
      case ParsePrefix s of
        Some p \<Rightarrow> Some (Masked p)
      | None \<Rightarrow>
          (case ParseAddr s of None \<Rightarrow> None | Some address \<Rightarrow> Some (PrefixFrom address (BitLen address))))"

definition prefixCovers :: "Prefix \<Rightarrow> Prefix \<Rightarrow> bool" where
  "prefixCovers candidate wanted \<longleftrightarrow>
     BitLen (PfxAddr candidate) = BitLen (PfxAddr wanted) \<and> PfxBits candidate \<le> PfxBits wanted
     \<and> Contains candidate (PfxAddr wanted)"

text \<open>\<open>those (map f xs)\<close> collects the values of a fallible function, or None when one fails.\<close>

definition addressSelectorsCover :: "string list \<Rightarrow> string list \<Rightarrow> bool" where
  "addressSelectorsCover earlier later =
     (if later = [] then earlier = []
      else if earlier = [] then True
      else
        (case those (map selectorPrefix earlier) of
           None \<Rightarrow> False
         | Some prior \<Rightarrow>
             list_all (\<lambda>raw.
               (case selectorPrefix raw of
                  None \<Rightarrow> False
                | Some wanted \<Rightarrow> list_ex (\<lambda>candidate. prefixCovers candidate wanted) prior)) later))"

definition parseM1ServiceSelector :: "string \<Rightarrow> ServiceSelector option" where
  "parseM1ServiceSelector raw =
     (case ParseServiceSelector raw of Inl _ \<Rightarrow> None | Inr parsed \<Rightarrow> Some parsed)"

definition selectorCovers :: "ServiceSelector \<Rightarrow> ServiceSelector \<Rightarrow> bool" where
  "selectorCovers candidate wanted \<longleftrightarrow>
     sel_Protocol candidate = sel_Protocol wanted
     \<and> (sel_AllPorts candidate
        \<or> \<not> sel_AllPorts wanted \<and> sel_First candidate \<le> sel_First wanted
          \<and> sel_Last candidate \<ge> sel_Last wanted)"

definition serviceSelectorsCover :: "string list \<Rightarrow> string list \<Rightarrow> bool" where
  "serviceSelectorsCover earlier later =
     (if later = [] then earlier = []
      else if earlier = [] then True
      else
        (case those (map parseM1ServiceSelector earlier) of
           None \<Rightarrow> False
         | Some prior \<Rightarrow>
             list_all (\<lambda>raw.
               (case parseM1ServiceSelector raw of
                  None \<Rightarrow> False
                | Some wanted \<Rightarrow> list_ex (\<lambda>candidate. selectorCovers candidate wanted) prior)) later))"

definition policyMatchCovers :: "SecurityPolicy \<Rightarrow> SecurityPolicy \<Rightarrow> bool" where
  "policyMatchCovers earlier later \<longleftrightarrow>
     stringSelectorsCover (pol_SourceZones earlier) (pol_SourceZones later)
     \<and> stringSelectorsCover (pol_DestinationZones earlier) (pol_DestinationZones later)
     \<and> addressSelectorsCover (pol_SourceAddresses earlier) (pol_SourceAddresses later)
     \<and> addressSelectorsCover (pol_DestinationAddresses earlier) (pol_DestinationAddresses later)
     \<and> serviceSelectorsCover (pol_Services earlier) (pol_Services later)"

text \<open>
  The inner loop stops at the first earlier policy that covers the later one; the outer loop walks
  the list sorted by priority with the policies already passed.
\<close>

definition coveredBy :: "Config option \<Rightarrow> SecurityPolicy list \<Rightarrow> SecurityPolicy \<Rightarrow> SecurityPolicy option" where
  "coveredBy c earliers later =
     (if \<not> isL3L4FirstMatchPolicyForConfig c later then None
      else List.find (\<lambda>earlier.
             \<not> (pol_Priority earlier \<ge> pol_Priority later
                \<or> \<not> isL3L4FirstMatchPolicyForConfig c earlier)
             \<and> policyMatchCovers earlier later) earliers)"

fun unreachable_loop :: "Config option \<Rightarrow> SecurityPolicy list \<Rightarrow> SecurityPolicy list \<Rightarrow> PolicyDiagnostic list" where
  "unreachable_loop c earliers [] = []"
| "unreachable_loop c earliers (later # rest) =
     (case coveredBy c earliers later of
        None \<Rightarrow> []
      | Some earlier \<Rightarrow> [Unreachable (pol_ID later) (pol_ID earlier) (pol_Priority earlier)])
     @ unreachable_loop c (earliers @ [later]) rest"

definition unreachablePolicyErrors :: "Config option \<Rightarrow> SecurityPolicy list \<Rightarrow> PolicyDiagnostic list" where
  "unreachablePolicyErrors c policies = unreachable_loop c [] (sort_key pol_Priority policies)"

definition UnreachablePolicyErrors :: "SecurityPolicy list \<Rightarrow> PolicyDiagnostic list" where
  "UnreachablePolicyErrors policies = unreachablePolicyErrors None policies"

definition M3UnreachablePolicyErrors :: "Config \<Rightarrow> PolicyDiagnostic list" where
  "M3UnreachablePolicyErrors c = unreachablePolicyErrors (Some c) (cfg_Policies c)"

section \<open>A covered selector list selects less\<close>

definition only_blank :: "string list \<Rightarrow> bool" where
  "only_blank raws \<longleftrightarrow> raws \<noteq> [] \<and> (\<forall>raw \<in> set raws. TrimSpace raw = '''')"

lemma zone_cover:
  assumes "stringSelectorsCover earlier later" "\<not> only_blank later" "zone_selected later z"
  shows "zone_selected earlier z"
proof (cases "later = [] \<or> earlier = []")
  case True
  with assms(1) show ?thesis by (auto simp: stringSelectorsCover_def zone_selected_def split: if_splits)
next
  case False
  with assms(2,3) obtain raw where raw: "raw \<in> set later" "TrimSpace raw \<noteq> ''''"
      "EqualFold (TrimSpace raw) (TrimSpace z)"
    by (auto simp: only_blank_def zone_selected_def)
  with False assms(1) obtain candidate where "candidate \<in> set earlier"
      "EqualFold (TrimSpace candidate) (TrimSpace raw)"
    by (auto simp: stringSelectorsCover_def list_all_iff list_ex_iff)
  with raw have "TrimSpace candidate \<noteq> ''''" "EqualFold (TrimSpace candidate) (TrimSpace z)"
    by (auto simp: EqualFold_def ToLower_def)
  with \<open>candidate \<in> set earlier\<close> show ?thesis by (auto simp: zone_selected_def)
qed

lemma those_Some: "those (map f xs) = Some ys \<longleftrightarrow> list_all2 (\<lambda>x y. f x = Some y) xs ys"
proof (induction xs arbitrary: ys)
  case (Cons x xs)
  then show ?case by (cases ys) (auto split: option.splits)
qed auto

lemma those_mem: "those (map f xs) = Some ys \<Longrightarrow> y \<in> set ys \<Longrightarrow> \<exists>x \<in> set xs. f x = Some y"
  unfolding those_Some by (induction rule: list_all2_induct) auto

lemma selectorPrefix_selects:
  "selectorPrefix raw = Some p \<Longrightarrow>
   Contains p addr \<longleftrightarrow>
     (\<exists>a. ParseAddr (TrimSpace raw) = Some a \<and> Contains (PrefixFrom a (BitLen a)) addr)
     \<or> (\<exists>q. ParsePrefix (TrimSpace raw) = Some q \<and> Contains q addr)"
  using ParsePrefix_not_addr [of "TrimSpace raw"]
  by (auto simp: selectorPrefix_def Let_def Contains_Masked wf_ParsePrefix split: option.splits)

lemma selectorPrefix_nonblank: "selectorPrefix raw = Some p \<Longrightarrow> TrimSpace raw \<noteq> ''''"
  by (auto simp: selectorPrefix_def)

lemma selectorPrefix_wf: "selectorPrefix raw = Some p \<Longrightarrow> wf_Prefix p"
  by (auto simp: selectorPrefix_def Let_def wf_Masked wf_ParsePrefix wf_prefix_of_addr
      split: option.splits)

lemma cover_mem:
  assumes "case those (map f earlier) of None \<Rightarrow> False
     | Some prior \<Rightarrow> list_all (\<lambda>raw. case f raw of None \<Rightarrow> False
         | Some wanted \<Rightarrow> list_ex (\<lambda>candidate. covers candidate wanted) prior) later"
    "raw \<in> set later"
  obtains wanted raw' candidate where "f raw = Some wanted" "raw' \<in> set earlier"
    "f raw' = Some candidate" "covers candidate wanted"
proof -
  obtain prior where prior: "those (map f earlier) = Some prior"
    using assms(1) by (auto split: option.splits)
  then have "case f raw of None \<Rightarrow> False
      | Some wanted \<Rightarrow> list_ex (\<lambda>candidate. covers candidate wanted) prior"
    using assms by (auto simp: list_all_iff)
  then obtain wanted candidate where "f raw = Some wanted" "candidate \<in> set prior" "covers candidate wanted"
    by (auto simp: list_ex_iff split: option.splits)
  with those_mem [OF prior] that show thesis by blast
qed

lemma addr_cover:
  assumes "addressSelectorsCover earlier later" "addr_selected later addr"
  shows "addr_selected earlier addr"
proof (cases "later = [] \<or> earlier = []")
  case True
  with assms(1) show ?thesis by (auto simp: addressSelectorsCover_def addr_selected_def split: if_splits)
next
  case False
  then have cov: "case those (map selectorPrefix earlier) of None \<Rightarrow> False
     | Some prior \<Rightarrow> list_all (\<lambda>raw. case selectorPrefix raw of None \<Rightarrow> False
         | Some wanted \<Rightarrow> list_ex (\<lambda>candidate. prefixCovers candidate wanted) prior) later"
    using assms(1) by (simp add: addressSelectorsCover_def)
  have "\<not> (\<forall>raw \<in> set later. TrimSpace raw = '''')"
  proof -
    obtain raw where raw: "raw \<in> set later" using False by (cases later) auto
    show ?thesis by (rule cover_mem [OF cov raw]) (use raw selectorPrefix_nonblank in blast)
  qed
  with assms(2) obtain raw where raw: "raw \<in> set later"
      "(\<exists>a. ParseAddr (TrimSpace raw) = Some a \<and> Contains (PrefixFrom a (BitLen a)) addr)
       \<or> (\<exists>q. ParsePrefix (TrimSpace raw) = Some q \<and> Contains q addr)"
    unfolding addr_selected_def by blast
  obtain wanted raw' c where w: "selectorPrefix raw = Some wanted" "raw' \<in> set earlier"
      "selectorPrefix raw' = Some c" "prefixCovers c wanted"
    using cover_mem [OF cov raw(1)] .
  have "Contains wanted addr" using raw(2) selectorPrefix_selects [OF w(1)] by blast
  then have "Contains c addr"
    using w(4) Contains_cover [of c wanted addr] by (simp add: prefixCovers_def)
  then show ?thesis
    using w(2) selectorPrefix_selects [OF w(3)] unfolding addr_selected_def by blast
qed

lemma service_cover:
  assumes "serviceSelectorsCover earlier later" "service_selected later view"
  shows "service_selected earlier view"
proof (cases "later = [] \<or> earlier = []")
  case True
  with assms(1) show ?thesis by (auto simp: serviceSelectorsCover_def service_selected_def split: if_splits)
next
  case False
  then have cov: "case those (map parseM1ServiceSelector earlier) of None \<Rightarrow> False
     | Some prior \<Rightarrow> list_all (\<lambda>raw. case parseM1ServiceSelector raw of None \<Rightarrow> False
         | Some wanted \<Rightarrow> list_ex (\<lambda>candidate. selectorCovers candidate wanted) prior) later"
    using assms(1) by (simp add: serviceSelectorsCover_def)
  from False assms(2) obtain raw s where raw: "raw \<in> set later" "ParseServiceSelector raw = Inr s"
      "ParseProtocol (sel_Protocol s) = (v_Protocol view, True)"
      "sel_AllPorts s \<or> sel_First s \<le> v_DestinationPort view \<and> v_DestinationPort view \<le> sel_Last s"
    by (auto simp: service_selected_def)
  obtain wanted raw' c where w: "parseM1ServiceSelector raw = Some wanted" "raw' \<in> set earlier"
      "parseM1ServiceSelector raw' = Some c" "selectorCovers c wanted"
    using cover_mem [OF cov raw(1)] .
  then have c: "ParseServiceSelector raw' = Inr c" "selectorCovers c s"
    using raw(2) by (auto simp: parseM1ServiceSelector_def split: sum.splits)
  have "sel_Protocol c = sel_Protocol s"
    "sel_AllPorts c \<or> sel_First c \<le> v_DestinationPort view \<and> v_DestinationPort view \<le> sel_Last c"
    using c(2) raw(4) by (auto simp: selectorCovers_def)
  then show ?thesis using w(2) c(1) raw(3) unfolding service_selected_def by metis
qed

lemma policy_cover:
  assumes "policyMatchCovers earlier later" "pol_Enabled earlier"
    "\<not> only_blank (pol_SourceZones later)" "\<not> only_blank (pol_DestinationZones later)"
    "policy_selects later view"
  shows "policy_selects earlier view"
  using assms zone_cover addr_cover service_cover
  unfolding policyMatchCovers_def policy_selects_def by blast

lemma unreachable_loop_mem:
  assumes "Unreachable lid eid prio \<in> set (unreachable_loop c earliers laters)"
  shows "\<exists>later earlier. later \<in> set laters \<and> earlier \<in> set earliers \<union> set laters
    \<and> lid = pol_ID later \<and> eid = pol_ID earlier \<and> prio = pol_Priority earlier
    \<and> pol_Priority earlier < pol_Priority later \<and> pol_Enabled earlier
    \<and> policyMatchCovers earlier later"
  using assms
proof (induction c earliers laters rule: unreachable_loop.induct)
  case (2 c earliers later rest)
  from 2(2) consider earlier where "coveredBy c earliers later = Some earlier"
      "lid = pol_ID later" "eid = pol_ID earlier" "prio = pol_Priority earlier"
    | "Unreachable lid eid prio \<in> set (unreachable_loop c (earliers @ [later]) rest)"
    by (cases "coveredBy c earliers later") auto
  then show ?case
  proof cases
    case 1
    then have e: "earlier \<in> set earliers" "pol_Priority earlier < pol_Priority later"
        "isL3L4FirstMatchPolicyForConfig c earlier" "policyMatchCovers earlier later"
      by (auto simp: coveredBy_def find_Some_iff split: if_splits)
    from e(3) have "pol_Enabled earlier"
      by (auto simp: isL3L4FirstMatchPolicyForConfig_def isL3L4FirstMatchPolicy_def split: if_splits)
    with e 1 show ?thesis by (intro exI [of _ later] exI [of _ earlier]) simp
  next
    case second: 2
    from 2(1) [OF this] show ?thesis by auto
  qed
qed simp

lemma reported_policy:
  assumes "Unreachable lid eid prio \<in> set (unreachablePolicyErrors c (cfg_Policies config))"
    "\<forall>policy \<in> set (cfg_Policies config).
       \<not> only_blank (pol_SourceZones policy) \<and> \<not> only_blank (pol_DestinationZones policy)"
  obtains later earlier where "later \<in> set (cfg_Policies config)" "earlier \<in> set (cfg_Policies config)"
    "lid = pol_ID later" "pol_Priority earlier < pol_Priority later"
    "\<forall>view. policy_selects later view \<longrightarrow> policy_selects earlier view"
proof -
  obtain later earlier where le: "later \<in> set (cfg_Policies config)" "earlier \<in> set (cfg_Policies config)"
      "lid = pol_ID later" "pol_Priority earlier < pol_Priority later" "pol_Enabled earlier"
      "policyMatchCovers earlier later"
    using unreachable_loop_mem [OF assms(1) [unfolded unreachablePolicyErrors_def]] by auto
  moreover have "policy_selects later view \<Longrightarrow> policy_selects earlier view" for view
    using policy_cover [OF le(6,5)] assms(2) le(1) by blast
  ultimately show thesis using that by blast
qed

lemma decided_not_reported:
  assumes "policy_selects q view" "q \<in> set ps" "distinct (map pol_ID ps)" "later \<in> set ps"
    "earlier \<in> set ps" "pol_Priority earlier < pol_Priority later"
    "\<forall>view. policy_selects later view \<longrightarrow> policy_selects earlier view"
    "\<forall>other \<in> set ps. policy_selects other view \<longrightarrow> other = q \<or> pol_Priority q < pol_Priority other"
  shows "pol_ID q \<noteq> pol_ID later"
proof
  assume "pol_ID q = pol_ID later"
  then have "q = later" using assms(2,3,4) by (metis inj_on_def distinct_map)
  then show False using assms(1,5-8) by force
qed

text \<open>
  C15: a policy that is reported as unreachable never decides a packet: the policy the report names
  is enabled, has a smaller priority number and selects every view the reported one selects. The
  identifiers are distinct, and neither zone list consists of blank entries only.
\<close>

theorem unreachable_policy_never_decides:
  assumes "Compile config generation = Inr p"
    "Unreachable lid eid prio \<in> set (unreachablePolicyErrors c (cfg_Policies config))"
    "distinct (map pol_ID (cfg_Policies config))" "lid \<noteq> ''''"
    "\<forall>policy \<in> set (cfg_Policies config).
       \<not> only_blank (pol_SourceZones policy) \<and> \<not> only_blank (pol_DestinationZones policy)"
  shows "dec_PolicyID (Evaluate p view) \<noteq> lid"
proof
  assume lid: "dec_PolicyID (Evaluate p view) = lid"
  obtain later earlier where le: "later \<in> set (cfg_Policies config)" "earlier \<in> set (cfg_Policies config)"
      "lid = pol_ID later" "pol_Priority earlier < pol_Priority later"
      "\<forall>view. policy_selects later view \<longrightarrow> policy_selects earlier view"
    by (rule reported_policy [OF assms(2,5)])
  from evaluate_policy_cases [OF assms(1), of view] lid assms(4)
  obtain policy where policy: "policy \<in> set (cfg_Policies config)" "policy_selects policy view"
      "pol_ID policy = lid"
      "\<forall>other \<in> set (cfg_Policies config). policy_selects other view \<longrightarrow>
         other = policy \<or> pol_Priority policy < pol_Priority other"
    by auto
  then show False
    using decided_not_reported [OF policy(2,1) assms(3) le(1,2,4,5) policy(4)] le(3) by simp
qed

lemma map_err_filter:
  "map_err f xs = Inr ys \<Longrightarrow> \<exists>zs. map_err f (filter P xs) = Inr zs"
  by (induction xs arbitrary: ys) (auto split: sum.splits)

lemma Compile_filter:
  assumes "Compile config generation = Inr p"
  shows "\<exists>q. Compile (config\<lparr>cfg_Policies := filter P (cfg_Policies config)\<rparr>) generation = Inr q"
proof -
  note C = Compile_Inr [OF assms]
  obtain rules where "map_err compile_rule (filter P (filter pol_Enabled
      (sort_key pol_Priority (cfg_Policies config)))) = Inr rules"
    using map_err_filter [OF C(2)] by blast
  moreover have "distinct (map pol_Priority (filter P (sort_key pol_Priority (cfg_Policies config))))"
    using C(1) by (intro distinct_map_filter) (simp add: distinct_map)
  ultimately have "compile_rules [] (sort_key pol_Priority (filter P (cfg_Policies config))) = Inr rules"
    by (simp add: compile_rules_Inr filter_sort [symmetric] conj_commute)
  then show ?thesis by (simp add: Compile_def Let_def)
qed

text \<open>
  C25: deleting a reported policy from the configuration changes no decision.
\<close>

theorem unreachable_policy_is_redundant:
  assumes "Compile config generation = Inr p"
    "Unreachable lid eid prio \<in> set (unreachablePolicyErrors c (cfg_Policies config))"
    "distinct (map pol_ID (cfg_Policies config))"
    "\<forall>policy \<in> set (cfg_Policies config).
       \<not> only_blank (pol_SourceZones policy) \<and> \<not> only_blank (pol_DestinationZones policy)"
  shows "\<exists>q. Compile (config\<lparr>cfg_Policies := filter (\<lambda>r. pol_ID r \<noteq> lid) (cfg_Policies config)\<rparr>) generation
      = Inr q \<and> (\<forall>view. Evaluate q view = Evaluate p view)"
proof -
  let ?config = "config\<lparr>cfg_Policies := filter (\<lambda>r. pol_ID r \<noteq> lid) (cfg_Policies config)\<rparr>"
  obtain q where q: "Compile ?config generation = Inr q"
    using Compile_filter [OF assms(1)] by blast
  obtain later earlier where le: "later \<in> set (cfg_Policies config)" "earlier \<in> set (cfg_Policies config)"
      "lid = pol_ID later" "pol_Priority earlier < pol_Priority later"
      "\<forall>view. policy_selects later view \<longrightarrow> policy_selects earlier view"
    by (rule reported_policy [OF assms(2,4)])
  have "Evaluate q view = Evaluate p view" for view
    using evaluate_policy_cases [OF assms(1), of view]
  proof (elim disjE bexE conjE)
    fix r
    assume r: "r \<in> set (cfg_Policies config)" "policy_selects r view"
      "\<forall>other \<in> set (cfg_Policies config). policy_selects other view \<longrightarrow>
         other = r \<or> pol_Priority r < pol_Priority other"
      and ev: "Evaluate p view = \<lparr>dec_Action = pol_Action r, dec_PolicyID = pol_ID r,
         dec_Generation = generation, dec_Reason = ''policy '' @ pol_ID r @ '' matched''\<rparr>"
    have "pol_ID r \<noteq> lid"
      using decided_not_reported [OF r(2,1) assms(3) le(1,2,4,5) r(3)] le(3) by simp
    with evaluate_policy_cases [OF q, of view] r ev show ?thesis by fastforce
  next
    assume "\<forall>policy \<in> set (cfg_Policies config). \<not> policy_selects policy view"
    with evaluate_policy_cases [OF q, of view] evaluate_policy_cases [OF assms(1), of view]
    show ?thesis by fastforce
  qed
  with q show ?thesis by blast
qed

definition shadowed_config :: Config where
  "shadowed_config =
     example_config\<lparr>cfg_Policies :=
       [example_policy\<lparr>pol_ID := ''host'', pol_Priority := 30, pol_SourceAddresses := [''10.0.0.7''],
          pol_Action := DecisionDrop\<rparr>, example_policy]\<rparr>"

definition shadowed_program :: Program where
  "shadowed_program =
     example_program\<lparr>prog_Rules :=
       [example_rule ''web'' 10 [PrefixFrom (Addr4 0x0A000000) 24]
          [\<lparr>svc_Protocol = 6, svc_Ports = [\<lparr>pr_First = 443, pr_Last = 443\<rparr>]\<rparr>] DecisionAllow,
        example_rule ''host'' 30 [PrefixFrom (Addr4 0x0A000007) 32]
          [\<lparr>svc_Protocol = 6, svc_Ports = [\<lparr>pr_First = 443, pr_Last = 443\<rparr>]\<rparr>] DecisionDrop]\<rparr>"

lemma shadowed_facts:
  "Compile shadowed_config 7 = Inr shadowed_program"
  "Unreachable ''host'' ''web'' 10 \<in> set (unreachablePolicyErrors None (cfg_Policies shadowed_config))"
  "distinct (map pol_ID (cfg_Policies shadowed_config))"
  "\<forall>policy \<in> set (cfg_Policies shadowed_config).
     \<not> only_blank (pol_SourceZones policy) \<and> \<not> only_blank (pol_DestinationZones policy)"
  by code_simp+

theorem unreachable_policy_never_decides_witness:
  "dec_PolicyID (Evaluate shadowed_program (example_view\<lparr>v_SourceIP := Addr4 0x0A000007\<rparr>)) \<noteq> ''host''"
  by (rule unreachable_policy_never_decides [OF shadowed_facts(1,2,3) _ shadowed_facts(4)]) simp

theorem unreachable_policy_is_redundant_witness:
  "\<exists>q. Compile (shadowed_config\<lparr>cfg_Policies :=
        filter (\<lambda>r. pol_ID r \<noteq> ''host'') (cfg_Policies shadowed_config)\<rparr>) 7 = Inr q
     \<and> (\<forall>view. Evaluate q view = Evaluate shadowed_program view)"
  by (rule unreachable_policy_is_redundant [OF shadowed_facts])

text \<open>
  The hypothesis on blank zones is needed: a zone list with only blank entries compiles to any
  zone, but the diagnosis compares the blank texts themselves.
\<close>

lemma blank_zone_cover_unsound:
  "stringSelectorsCover [''dmz'', ''''] [''''] \<and> zone_selected [''''] ''lan''
   \<and> \<not> zone_selected [''dmz'', ''''] ''lan''"
  by (simp add: stringSelectorsCover_def zone_selected_def EqualFold_def TrimSpace_def isSpace_def
      ToLower_def lower_char_def)

end
