(* ===== verification/Tls_Exclusions.thy ===== *)
theory Tls_Exclusions
imports Connectivity
begin

text \<open>
  TLS exclusions of the request gate: the canonical form of a DNS pattern
  (\<open>internal/config/request_gate.go\<close>), the canonical selectors of an exclusion with the relation
  of one exclusion covering another (\<open>internal/config/tls_exclusion.go\<close>), and the compiled rules
  that the gate matches against a server name and an original destination
  (\<open>internal/connectivity/request_gate.go\<close>).
\<close>

section \<open>DNS patterns\<close>

definition HasPrefix :: "string \<Rightarrow> string \<Rightarrow> bool" where
  "HasPrefix s p \<longleftrightarrow> take (length p) s = p"

definition HasSuffix :: "string \<Rightarrow> string \<Rightarrow> bool" where
  "HasSuffix s p \<longleftrightarrow> length p \<le> length s \<and> drop (length s - length p) s = p"

definition TrimPrefix :: "string \<Rightarrow> string \<Rightarrow> string" where
  "TrimPrefix s p = (if HasPrefix s p then drop (length p) s else s)"

definition TrimSuffix :: "string \<Rightarrow> string \<Rightarrow> string" where
  "TrimSuffix s p = (if HasSuffix s p then take (length s - length p) s else s)"

datatype DomainError = InvalidDNSName | InvalidDNSLabel | InvalidDNSCharacter

definition dns_char :: "char \<Rightarrow> bool" where
  "dns_char c =
     (let n = byte_of c in (97 \<le> n \<and> n \<le> 122) \<or> (48 \<le> n \<and> n \<le> 57) \<or> c = CHR ''-'')"

definition check_label :: "string \<Rightarrow> DomainError + string" where
  "check_label label =
     (if label = [] \<or> int (length label) > 63 \<or> hd label = CHR ''-'' \<or> last label = CHR ''-''
      then Inl InvalidDNSLabel
      else if \<not> list_all dns_char label then Inl InvalidDNSCharacter
      else Inr label)"

definition canonicalTLSDomain :: "string \<Rightarrow> DomainError + string" where
  "canonicalTLSDomain raw =
     (let v = ToLower (TrimSuffix raw ''.'');
          wildcard = HasPrefix v ''*.'';
          v = (if wildcard then TrimPrefix v ''*.'' else v) in
      if v = [] \<or> int (length v) > 253 \<or> CHR ''.'' \<notin> set v then Inl InvalidDNSName
      else
        (case map_err check_label (Split (CHR ''.'') v) of
           Inl e \<Rightarrow> Inl e
         | Inr _ \<Rightarrow> Inr (if wildcard then ''*.'' @ v else v)))"

definition tlsDomainCovers :: "string \<Rightarrow> string \<Rightarrow> bool" where
  "tlsDomainCovers earlier later =
     (if earlier = later then True
      else if \<not> HasPrefix earlier ''*.'' then False
      else
        let apex = TrimPrefix earlier ''*.'';
            later = (if HasPrefix later ''*.'' then TrimPrefix later ''*.'' else later) in
        HasSuffix later (''.'' @ apex))"

definition TLSDomainMatchesCanonical :: "string \<Rightarrow> string \<Rightarrow> bool" where
  "TLSDomainMatchesCanonical pat host =
     (case canonicalTLSDomain host of
        Inl _ \<Rightarrow> False
      | Inr canonical \<Rightarrow> \<not> HasPrefix canonical ''*.'' \<and> tlsDomainCovers pat canonical)"

section \<open>Canonical selectors\<close>

record tlsExclusionSelectors =
  txs_Domains :: "string list"
  txs_CIDRs :: "string list"
  txs_Ports :: "int list"

datatype SelectorError =
    SelectorDomain string DomainError
  | SelectorCIDR string
  | SelectorPort int

definition selector_domain :: "string \<Rightarrow> SelectorError + string" where
  "selector_domain raw =
     (case canonicalTLSDomain raw of Inl e \<Rightarrow> Inl (SelectorDomain raw e) | Inr d \<Rightarrow> Inr d)"

definition selector_cidr :: "string \<Rightarrow> SelectorError + string" where
  "selector_cidr raw =
     (case ParsePrefix raw of
        None \<Rightarrow> Inl (SelectorCIDR raw) | Some p \<Rightarrow> Inr (Prefix_String (Masked p)))"

definition selector_port :: "int \<Rightarrow> SelectorError + int" where
  "selector_port port = (if port < 1 \<or> port > 65535 then Inl (SelectorPort port) else Inr port)"

text \<open>Each group passes through a Go set and is then sorted.\<close>

definition canonicalTLSExclusion :: "TLSExclusion \<Rightarrow> SelectorError + tlsExclusionSelectors" where
  "canonicalTLSExclusion exclusion =
     (case map_err selector_domain (tx_Domains exclusion) of
        Inl e \<Rightarrow> Inl e
      | Inr domains \<Rightarrow>
          (case map_err selector_cidr (tx_DestinationCIDRs exclusion) of
             Inl e \<Rightarrow> Inl e
           | Inr cidrs \<Rightarrow>
               (case map_err selector_port (tx_Ports exclusion) of
                  Inl e \<Rightarrow> Inl e
                | Inr ports \<Rightarrow>
                    Inr \<lparr>txs_Domains = sort (remdups domains), txs_CIDRs = sort (remdups cidrs),
                         txs_Ports = sort (remdups ports)\<rparr>)))"

section \<open>Covering\<close>

definition tlsDomainGroupCovers :: "string list \<Rightarrow> string list \<Rightarrow> bool" where
  "tlsDomainGroupCovers earlier later =
     (if earlier = [] then True
      else if later = [] then False
      else list_all (\<lambda>wanted. list_ex (\<lambda>candidate. tlsDomainCovers candidate wanted) earlier) later)"

definition ParsePrefix_or_zero :: "string \<Rightarrow> Prefix" where
  "ParsePrefix_or_zero s = (case ParsePrefix s of None \<Rightarrow> PrefixZero | Some p \<Rightarrow> p)"

definition tlsCIDRCovers :: "string \<Rightarrow> string \<Rightarrow> bool" where
  "tlsCIDRCovers raw wanted =
     (let candidate = ParsePrefix_or_zero raw; wantedPrefix = ParsePrefix_or_zero wanted in
      BitLen (PfxAddr candidate) = BitLen (PfxAddr wantedPrefix)
      \<and> PfxBits candidate \<le> PfxBits wantedPrefix
      \<and> Contains candidate (PfxAddr wantedPrefix))"

definition tlsCIDRGroupCovers :: "string list \<Rightarrow> string list \<Rightarrow> bool" where
  "tlsCIDRGroupCovers earlier later =
     (if earlier = [] then True
      else if later = [] then False
      else list_all (\<lambda>wanted. list_ex (\<lambda>raw. tlsCIDRCovers raw wanted) earlier) later)"

definition tlsPortGroupCovers :: "int list \<Rightarrow> int list \<Rightarrow> bool" where
  "tlsPortGroupCovers earlier later =
     (if earlier = [] then True
      else if later = [] then False
      else list_all (\<lambda>port. port \<in> set earlier) later)"

definition tlsExclusionCovers :: "tlsExclusionSelectors \<Rightarrow> tlsExclusionSelectors \<Rightarrow> bool" where
  "tlsExclusionCovers earlier later \<longleftrightarrow>
     tlsDomainGroupCovers (txs_Domains earlier) (txs_Domains later)
     \<and> tlsCIDRGroupCovers (txs_CIDRs earlier) (txs_CIDRs later)
     \<and> tlsPortGroupCovers (txs_Ports earlier) (txs_Ports later)"

section \<open>Duplicate and shadowed exclusions\<close>

text \<open>
  \<open>json.Marshal\<close> at the four types it is used for. The field \<open>js_selectors\<close> encodes one exclusion,
  \<open>js_exclusions\<close> the ordered list, and the other two the keys of profiles and policies.
\<close>

record ProfileKey =
  pk_IDSIPSEnabled :: bool
  pk_TLSMode :: TLSMode
  pk_Inspection :: "InspectionProfile option"
  pk_RequestGate :: "RequestGateProfile option"
  pk_Exclusions :: string

record PolicyKey =
  ek_Enabled :: bool
  ek_SourceZones :: "string list"
  ek_DestinationZones :: "string list"
  ek_SourceAddresses :: "string list"
  ek_DestinationAddresses :: "string list"
  ek_Services :: "string list"
  ek_Applications :: "string list"
  ek_ApplicationMatchMode :: string
  ek_SecurityProfileID :: string
  ek_ProfileSemantics :: string
  ek_MinimumRisk :: "int option"
  ek_MaximumRisk :: "int option"
  ek_Action :: string
  ek_Scope :: string

record Json =
  js_selectors :: "tlsExclusionSelectors \<Rightarrow> string"
  js_exclusions :: "tlsExclusionSelectors list \<Rightarrow> string"
  js_profile :: "ProfileKey \<Rightarrow> string"
  js_policy :: "PolicyKey \<Rightarrow> string"

definition tlsExclusionEqual :: "Json \<Rightarrow> tlsExclusionSelectors \<Rightarrow> tlsExclusionSelectors \<Rightarrow> bool" where
  "tlsExclusionEqual json a b \<longleftrightarrow> js_selectors json a = js_selectors json b"

datatype ExclusionDiagnostic =
    DuplicateExclusionID string
  | ExactDuplicateExclusion string string
  | ShadowedExclusion string string

text \<open>The enabled exclusions before the current one that have a canonical form, with their identifiers.\<close>

type_synonym priorExclusion = "string \<times> tlsExclusionSelectors"

definition covered_diagnostic ::
  "Json \<Rightarrow> priorExclusion list \<Rightarrow> string \<Rightarrow> tlsExclusionSelectors \<Rightarrow> ExclusionDiagnostic list" where
  "covered_diagnostic json earlier exclusion_id selector =
     (case find (\<lambda>previous. tlsExclusionCovers (snd previous) selector) earlier of
        None \<Rightarrow> []
      | Some previous \<Rightarrow>
          if tlsExclusionEqual json (snd previous) selector
          then [ExactDuplicateExclusion exclusion_id (fst previous)]
          else [ShadowedExclusion exclusion_id (fst previous)])"

fun semantic_loop ::
  "Json \<Rightarrow> string list \<Rightarrow> priorExclusion list \<Rightarrow> TLSExclusion list \<Rightarrow> ExclusionDiagnostic list" where
  "semantic_loop json seenIDs earlier [] = []"
| "semantic_loop json seenIDs earlier (exclusion # exclusions) =
     (if tx_ID exclusion \<in> set seenIDs then [DuplicateExclusionID (tx_ID exclusion)] else [])
     @ (if \<not> tx_Enabled exclusion
        then semantic_loop json (tx_ID exclusion # seenIDs) earlier exclusions
        else
          (case canonicalTLSExclusion exclusion of
             Inl _ \<Rightarrow> semantic_loop json (tx_ID exclusion # seenIDs) earlier exclusions
           | Inr selector \<Rightarrow>
               covered_diagnostic json earlier (tx_ID exclusion) selector
               @ semantic_loop json (tx_ID exclusion # seenIDs)
                   (earlier @ [(tx_ID exclusion, selector)]) exclusions))"

definition TLSExclusionSemanticErrors :: "Json \<Rightarrow> Config \<Rightarrow> ExclusionDiagnostic list" where
  "TLSExclusionSemanticErrors json c =
     (if \<not> UsesM4 c then [] else semantic_loop json [] [] (cfg_TLSExclusions c))"

definition effective_exclusion :: "TLSExclusion \<Rightarrow> (string \<times> SelectorError) + tlsExclusionSelectors" where
  "effective_exclusion exclusion =
     (case canonicalTLSExclusion exclusion of Inl e \<Rightarrow> Inl (tx_ID exclusion, e) | Inr v \<Rightarrow> Inr v)"

definition TLSExclusionEffectiveKey :: "Json \<Rightarrow> Config \<Rightarrow> (string \<times> SelectorError) + string" where
  "TLSExclusionEffectiveKey json c =
     (if \<not> UsesM4 c then Inr ''''
      else
        (case map_err effective_exclusion (filter tx_Enabled (cfg_TLSExclusions c)) of
           Inl e \<Rightarrow> Inl e
         | Inr selectors \<Rightarrow> Inr (js_exclusions json selectors)))"

section \<open>Compiled exclusions\<close>

record AddrPort =
  ap_Addr :: Addr
  ap_Port :: u16

definition exclusion_cidr :: "string \<Rightarrow> unit + Prefix" where
  "exclusion_cidr raw = (case ParsePrefix raw of None \<Rightarrow> Inl () | Some p \<Rightarrow> Inr (Masked p))"

definition compile_exclusion :: "TLSExclusion \<Rightarrow> CompileError + TLSExclusionRule" where
  "compile_exclusion item =
     (case map_err canonicalTLSDomain (tx_Domains item) of
        Inl _ \<Rightarrow> Inl (InvalidTLSExclusion (tx_ID item))
      | Inr domains \<Rightarrow>
          (case map_err exclusion_cidr (tx_DestinationCIDRs item) of
             Inl _ \<Rightarrow> Inl (InvalidTLSExclusion (tx_ID item))
           | Inr cidrs \<Rightarrow>
               Inr \<lparr>txr_ID = tx_ID item, txr_Reason = tx_Reason item, txr_Domains = domains,
                    txr_CIDRs = cidrs, txr_Ports = map word_of_int (tx_Ports item)\<rparr>))"

definition compileTLSExclusions :: "TLSExclusion list \<Rightarrow> CompileError + TLSExclusionRule list" where
  "compileTLSExclusions exclusions = map_err compile_exclusion (filter tx_Enabled exclusions)"

definition TLSExclusionRule_matches :: "TLSExclusionRule \<Rightarrow> string \<Rightarrow> AddrPort \<Rightarrow> bool" where
  "TLSExclusionRule_matches rule host originalDestination =
     (if txr_Domains rule \<noteq> []
         \<and> \<not> list_ex (\<lambda>pat. TLSDomainMatchesCanonical pat host) (txr_Domains rule) then False
      else if txr_CIDRs rule \<noteq> []
         \<and> \<not> list_ex (\<lambda>p. Contains p (ap_Addr originalDestination)) (txr_CIDRs rule) then False
      else if txr_Ports rule \<noteq> []
      then list_ex (\<lambda>port. port = ap_Port originalDestination) (txr_Ports rule)
      else True)"

definition MatchTLSExclusion :: "RequestGatePlan \<Rightarrow> string \<Rightarrow> AddrPort \<Rightarrow> TLSExclusionRule option" where
  "MatchTLSExclusion plan host originalDestination =
     (if \<not> gp_Enabled plan \<or> \<not> Addr_IsValid (ap_Addr originalDestination) then None
      else
        (case gp_exclusions plan of
           None \<Rightarrow> None
         | Some rules \<Rightarrow> find (\<lambda>rule. TLSExclusionRule_matches rule host originalDestination) rules))"

definition TLSExclusionRules :: "RequestGatePlan \<Rightarrow> TLSExclusionRule list" where
  "TLSExclusionRules plan = (case gp_exclusions plan of None \<Rightarrow> [] | Some rules \<Rightarrow> rules)"

section \<open>Canonical patterns\<close>

lemma HasPrefix_iff: "HasPrefix s p \<longleftrightarrow> (\<exists>t. s = p @ t)"
  by (auto simp: HasPrefix_def) (metis append_take_drop_id)

lemma HasSuffix_iff: "HasSuffix s p \<longleftrightarrow> (\<exists>t. s = t @ p)"
  by (auto simp: HasSuffix_def) (metis append_take_drop_id)

lemma TrimPrefix_append [simp]: "TrimPrefix (p @ t) p = t"
  by (simp add: TrimPrefix_def HasPrefix_def)

lemma TrimPrefix_star [simp]: "TrimPrefix (CHR ''*'' # CHR ''.'' # t) ''*.'' = t"
  using TrimPrefix_append [of "''*.''"] by simp

lemma HasPrefix_star [simp]: "HasPrefix (CHR ''*'' # CHR ''.'' # t) ''*.''"
  by (simp add: HasPrefix_iff)

lemma tlsDomainCovers_iff:
  "tlsDomainCovers earlier later \<longleftrightarrow>
     earlier = later
     \<or> (\<exists>apex t. earlier = ''*.'' @ apex
          \<and> (if HasPrefix later ''*.'' then later = ''*.'' @ t @ ''.'' @ apex
             else later = t @ ''.'' @ apex))"
proof (cases "HasPrefix later ''*.''")
  case True
  then obtain u where "later = ''*.'' @ u" by (auto simp: HasPrefix_iff)
  then show ?thesis
    by (auto simp: tlsDomainCovers_def HasPrefix_iff HasSuffix_iff)
next
  case False
  then show ?thesis
    by (auto simp: tlsDomainCovers_def HasPrefix_iff HasSuffix_iff)
qed

lemma tlsDomainCovers_trans:
  assumes "tlsDomainCovers earlier later" "tlsDomainCovers later host" "\<not> HasPrefix host ''*.''"
  shows "tlsDomainCovers earlier host"
proof (cases "later = host")
  case True
  with assms(1) show ?thesis by simp
next
  case False
  with assms(2,3) obtain apex t where a: "later = ''*.'' @ apex" "host = t @ ''.'' @ apex"
    by (auto simp: tlsDomainCovers_iff)
  show ?thesis
  proof (cases "earlier = later")
    case True
    with assms(2) show ?thesis by simp
  next
    case False
    with assms(1) a(1) obtain top u where "earlier = ''*.'' @ top" "apex = u @ ''.'' @ top"
      by (auto simp: tlsDomainCovers_iff)
    with a(2) assms(3) show ?thesis
      by (subst tlsDomainCovers_iff) (auto intro: exI [of _ "t @ ''.'' @ u"])
  qed
qed

lemma domain_match_mono:
  "tlsDomainCovers earlier later \<Longrightarrow> TLSDomainMatchesCanonical later host
   \<Longrightarrow> TLSDomainMatchesCanonical earlier host"
  by (auto simp: TLSDomainMatchesCanonical_def intro: tlsDomainCovers_trans split: sum.splits)

lemma ToLower_dns: "list_all dns_char s \<Longrightarrow> ToLower s = s"
proof -
  have "lower_char c = c" if "dns_char c" for c
    using that by (auto simp: dns_char_def lower_char_def Let_def)
  then show "list_all dns_char s \<Longrightarrow> ToLower s = s"
    by (auto simp: ToLower_def list_all_iff intro: map_idI)
qed

lemma Split_parts:
  "x \<in> set s \<longleftrightarrow> (x = c \<and> 1 < length (Split c s)) \<or> (\<exists>w \<in> set (Split c s). x \<in> set w)"
proof (induction s)
  case (Cons a s)
  then show ?case
    by (cases "Split c s") (auto split: if_splits)
qed simp

lemma last_Split: "s \<noteq> [] \<Longrightarrow> last (Split c s) \<noteq> [] \<Longrightarrow> last s = last (last (Split c s))"
proof (induction s)
  case (Cons a s)
  have "Split c s = [[]] \<longleftrightarrow> s = []" by (cases s) (auto split: list.splits)
  with Cons show ?case by (auto split: list.splits if_splits)
qed simp

definition dns_name :: "string \<Rightarrow> bool" where
  "dns_name v \<longleftrightarrow>
     v \<noteq> [] \<and> length v \<le> 253 \<and> CHR ''.'' \<in> set v
     \<and> (\<forall>l \<in> set (Split (CHR ''.'') v). check_label l = Inr l)"

lemma check_label_Inr: "check_label l = Inr m \<Longrightarrow> m = l"
  by (auto simp: check_label_def split: if_splits)

lemma check_labels:
  "(case map_err check_label ls of Inl e \<Rightarrow> Inl e | Inr _ \<Rightarrow> Inr v) = Inr w \<longleftrightarrow>
     (\<forall>l \<in> set ls. check_label l = Inr l) \<and> w = v"
proof (induction ls)
  case (Cons l ls)
  show ?case
  proof (cases "check_label l")
    case (Inr m)
    then show ?thesis
      using Cons check_label_Inr [OF Inr] by (cases "map_err check_label ls") auto
  qed simp
qed auto

lemma dns_name_chars: "dns_name v \<Longrightarrow> c \<in> set v \<Longrightarrow> dns_char c \<or> c = CHR ''.''"
  using Split_parts [of c v "CHR ''.''"]
  by (fastforce simp: dns_name_def check_label_def list_all_iff split: if_splits)

lemma dns_name_lower: "dns_name v \<Longrightarrow> ToLower v = v"
proof -
  assume v: "dns_name v"
  have "lower_char c = c" if "c \<in> set v" for c
    using dns_name_chars [OF v that] by (auto simp: dns_char_def lower_char_def Let_def)
  then show "ToLower v = v" by (auto simp: ToLower_def intro: map_idI)
qed

lemma dns_name_last: "dns_name v \<Longrightarrow> last v \<noteq> CHR ''.''"
proof -
  assume v: "dns_name v"
  then have l: "check_label (last (Split (CHR ''.'') v)) = Inr (last (Split (CHR ''.'') v))"
    by (simp add: dns_name_def)
  then have ne: "last (Split (CHR ''.'') v) \<noteq> []" "list_all dns_char (last (Split (CHR ''.'') v))"
    by (auto simp: check_label_def split: if_splits)
  then have "dns_char (last (last (Split (CHR ''.'') v)))"
    by (simp add: list_all_iff)
  moreover have "last v = last (last (Split (CHR ''.'') v))"
    using last_Split [OF _ ne(1)] v by (simp add: dns_name_def)
  ultimately show ?thesis by (auto simp: dns_char_def)
qed

lemma dns_name_star: "dns_name v \<Longrightarrow> \<not> HasPrefix v ''*.''"
  using dns_name_chars [of v "CHR ''*''"] by (auto simp: HasPrefix_iff dns_char_def)

lemma TrimSuffix_dot: "s \<noteq> [] \<Longrightarrow> last s \<noteq> CHR ''.'' \<Longrightarrow> TrimSuffix s ''.'' = s"
  by (auto simp: TrimSuffix_def HasSuffix_iff)

lemma canonicalTLSDomain_Inr:
  "canonicalTLSDomain raw = Inr c \<longleftrightarrow>
     (let v = ToLower (TrimSuffix raw ''.'') in
      c = v \<and> dns_name (if HasPrefix v ''*.'' then TrimPrefix v ''*.'' else v))"
proof -
  have trim: "''*.'' @ TrimPrefix v ''*.'' = v" if "HasPrefix v ''*.''" for v
    using that by (auto simp: HasPrefix_iff)
  show ?thesis
    by (cases "HasPrefix (ToLower (TrimSuffix raw ''.'')) ''*.''")
      (auto simp: canonicalTLSDomain_def Let_def check_labels dns_name_def trim simp del: append_Cons)
qed

lemma canonical_fixpoint:
  "canonicalTLSDomain c = Inr c \<longleftrightarrow> dns_name c \<or> (\<exists>v. c = ''*.'' @ v \<and> dns_name v)"
proof
  assume "canonicalTLSDomain c = Inr c"
  then show "dns_name c \<or> (\<exists>v. c = ''*.'' @ v \<and> dns_name v)"
    by (auto simp: canonicalTLSDomain_Inr Let_def HasPrefix_iff split: if_splits)
next
  assume "dns_name c \<or> (\<exists>v. c = ''*.'' @ v \<and> dns_name v)"
  then show "canonicalTLSDomain c = Inr c"
  proof
    assume c: "dns_name c"
    then have "TrimSuffix c ''.'' = c"
      by (intro TrimSuffix_dot dns_name_last) (simp_all add: dns_name_def)
    with c show ?thesis
      by (simp add: canonicalTLSDomain_Inr dns_name_lower dns_name_star)
  next
    assume "\<exists>v. c = ''*.'' @ v \<and> dns_name v"
    then obtain v where v: "c = ''*.'' @ v" "dns_name v" by blast
    then have "v \<noteq> []" by (simp add: dns_name_def)
    with v have "TrimSuffix c ''.'' = c"
      by (simp add: TrimSuffix_dot dns_name_last)
    moreover have "ToLower c = c"
      using v by (simp add: ToLower_def dns_name_lower [unfolded ToLower_def] lower_char_def)
    ultimately show ?thesis
      using v by (simp add: canonicalTLSDomain_Inr)
  qed
qed

lemma canonicalTLSDomain_idem: "canonicalTLSDomain raw = Inr c \<Longrightarrow> canonicalTLSDomain c = Inr c"
  by (subst canonical_fixpoint) (auto simp: canonicalTLSDomain_Inr Let_def HasPrefix_iff split: if_splits)

lemma dns_name_subdomain:
  assumes b: "dns_name b" "length b \<le> 251" and x: "x = CHR ''a'' \<or> x = CHR ''b''"
  shows "dns_name (x # ''.'' @ b)"
proof -
  have lab: "check_label [x] = Inr [x]"
    using x by (auto simp: check_label_def dns_char_def)
  have "Split (CHR ''.'') (x # ''.'' @ b) = [x] # Split (CHR ''.'') b"
    using x Split_sep [of "CHR ''.''" "[x]" b] by auto
  with b lab show ?thesis
    by (simp add: dns_name_def)
qed

lemma match_dns_name: "dns_name h \<Longrightarrow> TLSDomainMatchesCanonical pat h \<longleftrightarrow> tlsDomainCovers pat h"
  by (simp add: TLSDomainMatchesCanonical_def canonical_fixpoint [THEN iffD2] dns_name_star)

lemma wildcard_member:
  assumes b: "dns_name b" "length b \<le> 251" and x: "x = CHR ''a'' \<or> x = CHR ''b''"
  shows "TLSDomainMatchesCanonical (''*.'' @ b) (x # ''.'' @ b)"
  using dns_name_star [OF dns_name_subdomain [OF assms]] match_dns_name [OF dns_name_subdomain [OF assms]]
  by (auto simp: tlsDomainCovers_iff intro: exI [of _ "[x]"])

lemma covers_wildcard_members:
  assumes b: "dns_name b" "length b \<le> 251"
    and all: "\<And>host. TLSDomainMatchesCanonical (''*.'' @ b) host \<Longrightarrow> TLSDomainMatchesCanonical earlier host"
  shows "tlsDomainCovers earlier (''*.'' @ b)"
proof -
  have m: "tlsDomainCovers earlier (x # ''.'' @ b)" "\<not> HasPrefix (x # ''.'' @ b) ''*.''"
    if "x = CHR ''a'' \<or> x = CHR ''b''" for x
  proof -
    note h = dns_name_subdomain [OF b that]
    show "tlsDomainCovers earlier (x # ''.'' @ b)"
      using all [OF wildcard_member [OF b that]] by (simp only: match_dns_name [OF h])
    show "\<not> HasPrefix (x # ''.'' @ b) ''*.''" by (rule dns_name_star [OF h])
  qed
  note ma = m [OF disjI1 [OF refl]] and mb = m [OF disjI2 [OF refl]]
  have "earlier \<noteq> CHR ''a'' # ''.'' @ b"
    using mb by (auto simp: tlsDomainCovers_iff)
  then obtain apex t where e: "earlier = ''*.'' @ apex" "CHR ''a'' # ''.'' @ b = t @ ''.'' @ apex"
    using ma by (auto simp: tlsDomainCovers_iff)
  then obtain u where u: "t = CHR ''a'' # u" "''.'' @ b = u @ ''.'' @ apex" by (cases t) auto
  show ?thesis
  proof (cases u)
    case Nil
    with u e show ?thesis by (simp add: tlsDomainCovers_iff)
  next
    case (Cons _ w)
    with u have "b = w @ ''.'' @ apex" by simp
    with e show ?thesis by (auto simp: tlsDomainCovers_iff)
  qed
qed

text \<open>
  C32: between canonical patterns the covering test is exact: an earlier pattern covers a later one
  exactly when every server name the later one matches is matched by the earlier one. The bound
  on the length leaves out the wildcards so long that no name can be under them.
\<close>

theorem domain_cover_exact:
  assumes "canonicalTLSDomain a = Inr earlier" "canonicalTLSDomain b = Inr later" "length later \<le> 253"
  shows "tlsDomainCovers earlier later \<longleftrightarrow>
    (\<forall>host. TLSDomainMatchesCanonical later host \<longrightarrow> TLSDomainMatchesCanonical earlier host)"
proof (rule iffI)
  assume all: "\<forall>host. TLSDomainMatchesCanonical later host \<longrightarrow> TLSDomainMatchesCanonical earlier host"
  consider "dns_name later" | v where "later = ''*.'' @ v" "dns_name v"
    using canonicalTLSDomain_idem [OF assms(2)] by (auto simp: canonical_fixpoint)
  then show "tlsDomainCovers earlier later"
  proof cases
    case 1
    then have "TLSDomainMatchesCanonical later later"
      by (simp add: match_dns_name tlsDomainCovers_def)
    with all have "TLSDomainMatchesCanonical earlier later" by blast
    with 1 show ?thesis by (simp add: match_dns_name)
  next
    case 2
    then show ?thesis
      using covers_wildcard_members [of v earlier] all assms(3) by simp
  qed
qed (auto intro: domain_match_mono)

theorem domain_cover_exact_witness:
  "canonicalTLSDomain ''*.Example.COM.'' = Inr ''*.example.com''
   \<and> canonicalTLSDomain ''*.eu.example.com'' = Inr ''*.eu.example.com''
   \<and> TLSDomainMatchesCanonical ''*.eu.example.com'' ''WWW.eu.example.com''
   \<and> TLSDomainMatchesCanonical ''*.example.com'' ''WWW.eu.example.com''"
proof -
  have a: "canonicalTLSDomain ''*.Example.COM.'' = Inr ''*.example.com''" by code_simp
  have b: "canonicalTLSDomain ''*.eu.example.com'' = Inr ''*.eu.example.com''" by code_simp
  have "tlsDomainCovers ''*.example.com'' ''*.eu.example.com''" by code_simp
  moreover have "TLSDomainMatchesCanonical ''*.eu.example.com'' ''WWW.eu.example.com''" by code_simp
  ultimately show ?thesis using domain_cover_exact [OF a b] a b by simp
qed

section \<open>Covered exclusions\<close>

lemma map_err_set: "map_err f xs = Inr ys \<Longrightarrow> set ys = {y. \<exists>x \<in> set xs. f x = Inr y}"
  by (induction xs arbitrary: ys) (auto split: sum.splits)

lemma map_err_Nil_iff: "map_err f xs = Inr ys \<Longrightarrow> ys = [] \<longleftrightarrow> xs = []"
  by (auto dest: map_err_length)

lemma covering_cidr:
  assumes "ParsePrefix (Prefix_String p) = Some p" "ParsePrefix (Prefix_String q) = Some q"
    "tlsCIDRCovers (Prefix_String p) (Prefix_String q)" "Contains q a"
  shows "Contains p a"
  using assms(3,4) by (auto simp: tlsCIDRCovers_def ParsePrefix_or_zero_def assms(1,2) intro: Contains_cover)

lemma selector_Inr:
  "selector_domain raw = Inr d \<longleftrightarrow> canonicalTLSDomain raw = Inr d"
  "selector_cidr raw = Inr t \<longleftrightarrow> (\<exists>p. ParsePrefix raw = Some p \<and> t = Prefix_String (Masked p))"
  "exclusion_cidr raw = Inr q \<longleftrightarrow> (\<exists>p. ParsePrefix raw = Some p \<and> q = Masked p)"
  by (auto simp: selector_domain_def selector_cidr_def exclusion_cidr_def split: sum.splits option.splits)

text \<open>The canonical selectors and the compiled rule of an exclusion hold the same groups.\<close>

lemma exclusion_forms:
  assumes "canonicalTLSExclusion e = Inr s" "compile_exclusion e = Inr r"
  shows "set (txs_Domains s) = set (txr_Domains r)"
    and "set (txs_CIDRs s) = Prefix_String ` set (txr_CIDRs r)"
    and "set (txs_Ports s) = set (tx_Ports e)" "\<forall>p \<in> set (tx_Ports e). 1 \<le> p \<and> p \<le> 65535"
    and "set (txr_CIDRs r) = {Masked p |p raw. raw \<in> set (tx_DestinationCIDRs e) \<and> ParsePrefix raw = Some p}"
    and "txr_Ports r = map word_of_int (tx_Ports e)"
proof -
  obtain ds cs ps where c: "map_err selector_domain (tx_Domains e) = Inr ds"
      "map_err selector_cidr (tx_DestinationCIDRs e) = Inr cs" "map_err selector_port (tx_Ports e) = Inr ps"
      "s = \<lparr>txs_Domains = sort (remdups ds), txs_CIDRs = sort (remdups cs), txs_Ports = sort (remdups ps)\<rparr>"
    using assms(1) by (auto simp: canonicalTLSExclusion_def split: sum.splits)
  obtain ds' cs' where r: "map_err canonicalTLSDomain (tx_Domains e) = Inr ds'"
      "map_err exclusion_cidr (tx_DestinationCIDRs e) = Inr cs'" "txr_Domains r = ds'" "txr_CIDRs r = cs'"
      "txr_Ports r = map word_of_int (tx_Ports e)"
    using assms(2) by (auto simp: compile_exclusion_def split: sum.splits)
  show "set (txs_Domains s) = set (txr_Domains r)"
    using map_err_set [OF c(1)] map_err_set [OF r(1)] c(4) r(3)
    by (simp add: selector_Inr)
  show cidrs: "set (txr_CIDRs r) = {Masked p |p raw. raw \<in> set (tx_DestinationCIDRs e) \<and> ParsePrefix raw = Some p}"
    using map_err_set [OF r(2)] r(4) by (auto simp: selector_Inr)
  have "set (txs_CIDRs s) = {Prefix_String (Masked p) |p raw. raw \<in> set (tx_DestinationCIDRs e) \<and> ParsePrefix raw = Some p}"
    using map_err_set [OF c(2)] c(4) by (auto simp: selector_Inr)
  with cidrs show "set (txs_CIDRs s) = Prefix_String ` set (txr_CIDRs r)" by auto
  have "qs = xs \<and> (\<forall>p \<in> set xs. 1 \<le> p \<and> p \<le> 65535)" if "map_err selector_port xs = Inr qs" for xs qs
    using that by (induction xs arbitrary: qs) (auto simp: selector_port_def split: sum.splits if_splits)
  from this [OF c(3)] show "set (txs_Ports s) = set (tx_Ports e)" "\<forall>p \<in> set (tx_Ports e). 1 \<le> p \<and> p \<le> 65535"
    using c(4) by auto
  show "txr_Ports r = map word_of_int (tx_Ports e)" by (rule r(5))
qed

lemma exclusion_cover:
  assumes e: "canonicalTLSExclusion e = Inr s" "compile_exclusion e = Inr r"
    and e': "canonicalTLSExclusion e' = Inr s'" "compile_exclusion e' = Inr r'"
    and cov: "tlsExclusionCovers s s'" and m: "TLSExclusionRule_matches r' host d"
  shows "TLSExclusionRule_matches r host d"
proof -
  note f = exclusion_forms [OF e(1,2)] and f' = exclusion_forms [OF e'(1,2)]
  have empty: "txs_Domains s = [] \<longleftrightarrow> txr_Domains r = []" "txs_CIDRs s = [] \<longleftrightarrow> txr_CIDRs r = []"
      "txs_Ports s = [] \<longleftrightarrow> txr_Ports r = []" "txs_Domains s' = [] \<longleftrightarrow> txr_Domains r' = []"
      "txs_CIDRs s' = [] \<longleftrightarrow> txr_CIDRs r' = []" "txs_Ports s' = [] \<longleftrightarrow> txr_Ports r' = []"
    using f f' by (metis image_is_empty set_empty, metis image_is_empty set_empty,
        metis list.map_disc_iff set_empty, metis image_is_empty set_empty,
        metis image_is_empty set_empty, metis list.map_disc_iff set_empty)
  have printed: "ParsePrefix (Prefix_String q) = Some q"
    if "q \<in> set (txr_CIDRs r) \<union> set (txr_CIDRs r')" for q
    using that unfolding f(5) f'(5) by (auto intro: ParsePrefix_String wf_Masked wf_ParsePrefix)
  have "list_ex (\<lambda>pat. TLSDomainMatchesCanonical pat host) (txr_Domains r)" if "txr_Domains r \<noteq> []"
    using cov m that
    by (auto simp: tlsExclusionCovers_def tlsDomainGroupCovers_def TLSExclusionRule_matches_def empty
        list_ex_iff list_all_iff f(1) f'(1) intro: domain_match_mono split: if_splits)
  moreover have "list_ex (\<lambda>p. Contains p (ap_Addr d)) (txr_CIDRs r)" if ne: "txr_CIDRs r \<noteq> []"
  proof -
    obtain q where q: "q \<in> set (txr_CIDRs r')" "Contains q (ap_Addr d)"
      using cov m ne
      by (auto simp: tlsExclusionCovers_def tlsCIDRGroupCovers_def TLSExclusionRule_matches_def empty
          list_ex_iff split: if_splits)
    then obtain p where "p \<in> set (txr_CIDRs r)" "tlsCIDRCovers (Prefix_String p) (Prefix_String q)"
      using cov ne
      by (auto simp: tlsExclusionCovers_def tlsCIDRGroupCovers_def empty list_all_iff list_ex_iff f(2) f'(2)
          split: if_splits)
    with q show ?thesis
      using covering_cidr [of p q] printed by (auto simp: list_ex_iff)
  qed
  moreover have "list_ex (\<lambda>port. port = ap_Port d) (txr_Ports r)" if "txr_Ports r \<noteq> []"
    using cov m that
    by (auto simp: tlsExclusionCovers_def tlsPortGroupCovers_def TLSExclusionRule_matches_def empty
        list_ex_iff list_all_iff f(3,6) f'(3,6) split: if_splits)
  ultimately show ?thesis by (auto simp: TLSExclusionRule_matches_def)
qed

lemma find_SomeD: "find P xs = Some x \<Longrightarrow> x \<in> set xs \<and> P x"
  by (induction xs) (auto split: if_splits)

definition covered_by :: "TLSExclusion \<Rightarrow> TLSExclusion \<Rightarrow> bool" where
  "covered_by e e' \<longleftrightarrow>
     tx_Enabled e' \<and> (\<exists>s s'. canonicalTLSExclusion e = Inr s \<and> canonicalTLSExclusion e' = Inr s'
       \<and> tlsExclusionCovers s' s)"

lemma semantic_loop_covered:
  assumes "x \<in> set (semantic_loop json seenIDs earlier es)"
    "x = ExactDuplicateExclusion i j \<or> x = ShadowedExclusion i j"
    "\<forall>(k, s) \<in> set earlier. \<exists>e \<in> set before. tx_ID e = k \<and> tx_Enabled e \<and> canonicalTLSExclusion e = Inr s"
  shows "\<exists>as e bs e'. es = as @ e # bs \<and> tx_ID e = i \<and> tx_Enabled e
     \<and> e' \<in> set before \<union> set as \<and> tx_ID e' = j \<and> covered_by e e'"
  using assms
proof (induction es arbitrary: seenIDs earlier before)
  case (Cons e es)
  have step: "?case" if later: "x \<in> set (semantic_loop json (tx_ID e # seenIDs) earlier' es)"
    "\<forall>(k, s) \<in> set earlier'. \<exists>e \<in> set before'. tx_ID e = k \<and> tx_Enabled e \<and> canonicalTLSExclusion e = Inr s"
    and sub: "set before' \<subseteq> insert e (set before)" for earlier' before'
  proof -
    obtain as f bs e' where f: "es = as @ f # bs" "tx_ID f = i" "tx_Enabled f"
        "e' \<in> set before' \<union> set as" "tx_ID e' = j" "covered_by f e'"
      using Cons.IH [OF later(1) Cons.prems(2) later(2)] by blast
    have "e' \<in> set before \<union> set (e # as)" using f(4) sub by auto
    then show ?thesis
      using f(1-3,5,6) by (intro exI [of _ "e # as"] exI [of _ f] exI [of _ bs] exI [of _ e'] conjI) simp_all
  qed
  show ?case
  proof (cases "tx_Enabled e")
    case False
    then have "x \<in> set (semantic_loop json (tx_ID e # seenIDs) earlier es)"
      using Cons.prems(1,2) by (auto split: if_splits)
    then show ?thesis by (rule step [OF _ Cons.prems(3)]) blast
  next
    case en: True
    show ?thesis
    proof (cases "canonicalTLSExclusion e")
      case (Inl err)
      then have "x \<in> set (semantic_loop json (tx_ID e # seenIDs) earlier es)"
        using Cons.prems(1,2) en by (auto split: if_splits)
      then show ?thesis by (rule step [OF _ Cons.prems(3)]) blast
    next
      case (Inr s)
      then consider "x \<in> set (covered_diagnostic json earlier (tx_ID e) s)"
        | "x \<in> set (semantic_loop json (tx_ID e # seenIDs) (earlier @ [(tx_ID e, s)]) es)"
        using Cons.prems(1,2) en by (auto split: if_splits)
      then show ?thesis
      proof cases
        case 1
        then obtain k s' where find: "find (\<lambda>previous. tlsExclusionCovers (snd previous) s) earlier = Some (k, s')"
            and k: "i = tx_ID e" "j = k"
          using Cons.prems(2)
          by (cases "find (\<lambda>previous. tlsExclusionCovers (snd previous) s) earlier")
            (auto simp: covered_diagnostic_def split: if_splits)
        have k: "(k, s') \<in> set earlier" "tlsExclusionCovers s' s" "i = tx_ID e" "j = k"
          using find_SomeD [OF find] k by simp_all
        then obtain e' where "e' \<in> set before" "tx_ID e' = k" "tx_Enabled e'" "canonicalTLSExclusion e' = Inr s'"
          using Cons.prems(3) by blast
        with k en Inr show ?thesis
          by (intro exI [of _ "[]"] exI [of _ e] exI [of _ es] exI [of _ e']) (auto simp: covered_by_def)
      next
        case 2
        show ?thesis
          by (rule step [OF 2, of "e # before"]) (use Cons.prems(3) en Inr in auto)
      qed
    qed
  qed
qed simp

interpretation exclusions: first_match
    "\<lambda>rules (host, d). find (\<lambda>rule. TLSExclusionRule_matches rule host d) rules"
    "\<lambda>rule (host, d). TLSExclusionRule_matches rule host d" Some None
  by unfold_locales (simp_all split: prod.splits)

lemma remove_covered_exclusion:
  assumes comp: "compileTLSExclusions (as @ e # bs) = Inr rules" and e: "tx_Enabled e"
    and e': "e' \<in> set as" "covered_by e e'"
  obtains rules' where "compileTLSExclusions (as @ bs) = Inr rules'"
    and "\<And>host d. find (\<lambda>rule. TLSExclusionRule_matches rule host d) rules'
                  = find (\<lambda>rule. TLSExclusionRule_matches rule host d) rules"
proof -
  let ?en = "filter tx_Enabled"
  obtain ra r rb where rs: "rules = ra @ r # rb" "map_err compile_exclusion (?en as) = Inr ra"
      "compile_exclusion e = Inr r" "map_err compile_exclusion (?en bs) = Inr rb"
    using comp e
    by (auto simp: compileTLSExclusions_def map_err_Inr_iff list_all2_append1 list_all2_Cons1)
  have new: "compileTLSExclusions (as @ bs) = Inr (ra @ rb)"
    using rs by (simp add: compileTLSExclusions_def map_err_Inr_iff list_all2_appendI)
  obtain s s' where c: "canonicalTLSExclusion e = Inr s" "canonicalTLSExclusion e' = Inr s'"
      "tlsExclusionCovers s' s" "tx_Enabled e'"
    using e'(2) by (auto simp: covered_by_def)
  obtain r' where r': "r' \<in> set ra" "compile_exclusion e' = Inr r'"
    using rs(2) e'(1) c(4) list_all2_mem [of _ "?en as" ra e'] by (auto simp: map_err_Inr_iff)
  have "find (\<lambda>rule. TLSExclusionRule_matches rule host d) (ra @ rb)
      = find (\<lambda>rule. TLSExclusionRule_matches rule host d) rules" for host d
  proof -
    have "TLSExclusionRule_matches r host d \<Longrightarrow> \<exists>a \<in> set ra. TLSExclusionRule_matches a host d"
      using exclusion_cover [OF c(2) r'(2) c(1) rs(3) c(3)] r'(1) by blast
    then show ?thesis
      using exclusions.eval_remove_covered [of r "(host, d)" ra rb] by (simp add: rs(1))
  qed
  with new show thesis by (rule that)
qed

text \<open>
  C31: an exclusion that the configuration check reports as shadowed by, or an exact duplicate of, a
  preceding one is redundant: the list without it compiles too, and every gate plan then
  finds the same exclusion for every server name and original destination.
\<close>

theorem reported_exclusion_is_redundant:
  assumes "x \<in> set (TLSExclusionSemanticErrors json c)"
    "x = ExactDuplicateExclusion i j \<or> x = ShadowedExclusion i j"
    "compileTLSExclusions (cfg_TLSExclusions c) = Inr rules"
  shows "\<exists>as e bs rules'. cfg_TLSExclusions c = as @ e # bs \<and> tx_ID e = i
    \<and> compileTLSExclusions (as @ bs) = Inr rules'
    \<and> (\<forall>plan host d. MatchTLSExclusion (plan\<lparr>gp_exclusions := Some rules'\<rparr>) host d
                    = MatchTLSExclusion (plan\<lparr>gp_exclusions := Some rules\<rparr>) host d)"
proof -
  have "x \<in> set (semantic_loop json [] [] (cfg_TLSExclusions c))"
    using assms(1) by (auto simp: TLSExclusionSemanticErrors_def split: if_splits)
  from semantic_loop_covered [OF this assms(2), of "[]"]
  obtain as e bs e' where e: "cfg_TLSExclusions c = as @ e # bs" "tx_ID e = i" "tx_Enabled e"
      "e' \<in> set as" "covered_by e e'" by auto
  obtain rules' where "compileTLSExclusions (as @ bs) = Inr rules'"
    and "\<And>host d. find (\<lambda>rule. TLSExclusionRule_matches rule host d) rules'
                  = find (\<lambda>rule. TLSExclusionRule_matches rule host d) rules"
    using remove_covered_exclusion [OF _ e(3) e(4,5)] assms(3) unfolding e(1) by blast
  with e(1,2) show ?thesis
    by (intro exI [of _ as] exI [of _ e] exI [of _ bs] exI [of _ rules']) (simp add: MatchTLSExclusion_def)
qed

definition example_json :: Json where
  "example_json =
     \<lparr>js_selectors = (\<lambda>s. concat (txs_Domains s) @ concat (txs_CIDRs s) @ concat (map show_int (txs_Ports s))),
      js_exclusions = (\<lambda>ss. concat (map (\<lambda>s. concat (txs_Domains s)) ss)),
      js_profile = pk_TLSMode, js_policy = ek_Action\<rparr>"

definition example_exclusion :: "string \<Rightarrow> string list \<Rightarrow> string list \<Rightarrow> TLSExclusion" where
  "example_exclusion i domains cidrs =
     \<lparr>tx_ID = i, tx_Name = '''', tx_Domains = domains, tx_DestinationCIDRs = cidrs, tx_Ports = [443],
      tx_Enabled = True, tx_Reason = ''pinned''\<rparr>"

definition excluded_config :: Config where
  "excluded_config =
     example_config\<lparr>cfg_RequestGate := Some (DefaultRequestGateConfig\<lparr>rg_Enabled := True\<rparr>),
       cfg_TLSExclusions := [example_exclusion ''all'' [''*.Example.COM.''] [''203.0.113.0/24''],
                             example_exclusion ''eu'' [''*.eu.example.com''] [''203.0.113.128/25'']]\<rparr>"

definition excluded_rules :: "TLSExclusionRule list" where
  "excluded_rules =
     (let rule = \<lambda>i d p. \<lparr>txr_ID = i, txr_Reason = ''pinned'', txr_Domains = [d], txr_CIDRs = [p],
                          txr_Ports = [443]\<rparr> in
      [rule ''all'' ''*.example.com'' \<lparr>PfxAddr = Addr4 0xCB007100, PfxBits = 24\<rparr>,
       rule ''eu'' ''*.eu.example.com'' \<lparr>PfxAddr = Addr4 0xCB007180, PfxBits = 25\<rparr>])"

theorem reported_exclusion_is_redundant_witness:
  "ShadowedExclusion ''eu'' ''all'' \<in> set (TLSExclusionSemanticErrors example_json excluded_config)
   \<and> compileTLSExclusions (cfg_TLSExclusions excluded_config) = Inr excluded_rules
   \<and> (\<exists>as e bs rules'. cfg_TLSExclusions excluded_config = as @ e # bs \<and> tx_ID e = ''eu''
    \<and> compileTLSExclusions (as @ bs) = Inr rules'
    \<and> (\<forall>plan host d. MatchTLSExclusion (plan\<lparr>gp_exclusions := Some rules'\<rparr>) host d
                    = MatchTLSExclusion (plan\<lparr>gp_exclusions := Some excluded_rules\<rparr>) host d))"
proof -
  have r: "ShadowedExclusion ''eu'' ''all'' \<in> set (TLSExclusionSemanticErrors example_json excluded_config)"
    by code_simp
  have c: "compileTLSExclusions (cfg_TLSExclusions excluded_config) = Inr excluded_rules" by code_simp
  show ?thesis
    using reported_exclusion_is_redundant [OF r disjI2 [OF refl] c] r c by blast
qed

end
