(* ===== verification/Gate_Config.thy ===== *)
theory Gate_Config
imports Reachability Session_Types Tls_Exclusions
begin

text \<open>
  Validation of the inspection and request-gate parts of a configuration
  (\<open>internal/config/inspection.go\<close>, \<open>internal/config/request_gate.go\<close>) and the effective keys that
  find exact duplicate policies (\<open>internal/config/policy_canonical.go\<close>). A message is a
  constructor with the values it prints.
\<close>

section \<open>Effective keys of policies\<close>

definition canonicalStrings :: "string list \<Rightarrow> string list" where
  "canonicalStrings raws =
     sort (dedup (filter (\<lambda>v. v \<noteq> '''') (map (\<lambda>v. ToLower (TrimSpace v)) raws)))"

definition canonicalAddress :: "string \<Rightarrow> string" where
  "canonicalAddress raw =
     (let v = TrimSpace raw in
      case ParsePrefix v of
        Some p \<Rightarrow> Prefix_String (Masked p)
      | None \<Rightarrow>
          (case ParseAddr v of
             Some address \<Rightarrow> Prefix_String (PrefixFrom address (BitLen address))
           | None \<Rightarrow> v))"

definition canonicalAddresses :: "string list \<Rightarrow> string list" where
  "canonicalAddresses raws = sort (dedup (filter (\<lambda>v. v \<noteq> '''') (map canonicalAddress raws)))"

definition canonicalScope :: "string \<Rightarrow> string" where
  "canonicalScope v = (let v = ToUpper (TrimSpace v) in if v = '''' then ''SESSION'' else v)"

definition profileEffectiveKey :: "Json \<Rightarrow> SecurityProfile \<Rightarrow> string \<Rightarrow> string" where
  "profileEffectiveKey json profile exclusionsKey =
     (let gated = (case prof_RequestGate profile of
             None \<Rightarrow> False | Some g \<Rightarrow> exclusionsKey \<noteq> '''' \<and> rgp_Enabled g) in
      js_profile json
        \<lparr>pk_IDSIPSEnabled = prof_IDSIPSEnabled profile, pk_TLSMode = prof_TLSMode profile,
         pk_Inspection = prof_Inspection profile,
         pk_RequestGate = (if gated then prof_RequestGate profile else None),
         pk_Exclusions = (if gated then exclusionsKey else '''')\<rparr>)"

definition ProfileEffectiveKey :: "Json \<Rightarrow> SecurityProfile \<Rightarrow> string" where
  "ProfileEffectiveKey json profile = profileEffectiveKey json profile ''''"

datatype KeyError = KeyService string ServiceError | KeyExclusion string SelectorError

definition gate_enabled :: "SecurityProfile \<Rightarrow> bool" where
  "gate_enabled profile = (case prof_RequestGate profile of None \<Rightarrow> False | Some g \<Rightarrow> rgp_Enabled g)"

definition profile_semantics :: "Json \<Rightarrow> Config \<Rightarrow> SecurityProfile \<Rightarrow> KeyError + string" where
  "profile_semantics json c profile =
     (if UsesM4 c \<and> gate_enabled profile
      then (case TLSExclusionEffectiveKey json c of
              Inl (i, e) \<Rightarrow> Inl (KeyExclusion i e)
            | Inr exclusionsKey \<Rightarrow> Inr (profileEffectiveKey json profile exclusionsKey))
      else Inr (ProfileEffectiveKey json profile))"

definition policy_key_value :: "SecurityPolicy \<Rightarrow> string list \<Rightarrow> PolicyKey" where
  "policy_key_value policy services =
     \<lparr>ek_Enabled = pol_Enabled policy,
      ek_SourceZones = canonicalStrings (pol_SourceZones policy),
      ek_DestinationZones = canonicalStrings (pol_DestinationZones policy),
      ek_SourceAddresses = canonicalAddresses (pol_SourceAddresses policy),
      ek_DestinationAddresses = canonicalAddresses (pol_DestinationAddresses policy),
      ek_Services = services,
      ek_Applications = canonicalStrings (pol_Applications policy),
      ek_ApplicationMatchMode = ToUpper (TrimSpace (pol_ApplicationMatchMode policy)),
      ek_SecurityProfileID = TrimSpace (pol_SecurityProfileID policy),
      ek_ProfileSemantics = '''',
      ek_MinimumRisk = pol_MinimumRisk policy, ek_MaximumRisk = pol_MaximumRisk policy,
      ek_Action = ToUpper (TrimSpace (pol_Action policy)),
      ek_Scope = canonicalScope (pol_Scope policy)\<rparr>"

text \<open>The value that \<open>effectivePolicyKey\<close> encodes.\<close>

definition effective_key :: "Json \<Rightarrow> Config option \<Rightarrow> SecurityPolicy \<Rightarrow> KeyError + PolicyKey" where
  "effective_key json c policy =
     (case CanonicalServiceList (pol_Services policy) of
        Inl e \<Rightarrow> Inl (KeyService (pol_ID policy) e)
      | Inr services \<Rightarrow>
          let key = policy_key_value policy services in
          (case c of
             None \<Rightarrow> Inr key
           | Some c \<Rightarrow>
               if pol_SecurityProfileID policy = '''' then Inr key
               else
                 (case find (\<lambda>profile. prof_ID profile = pol_SecurityProfileID policy) (cfg_Profiles c) of
                    None \<Rightarrow> Inr key
                  | Some profile \<Rightarrow>
                      (case profile_semantics json c profile of
                         Inl e \<Rightarrow> Inl e
                       | Inr profileKey \<Rightarrow>
                           Inr (key\<lparr>ek_ProfileSemantics := profileKey, ek_SecurityProfileID := ''''\<rparr>)))))"

definition effectivePolicyKey :: "Json \<Rightarrow> Config option \<Rightarrow> SecurityPolicy \<Rightarrow> KeyError + string" where
  "effectivePolicyKey json c policy =
     (case effective_key json c policy of Inl e \<Rightarrow> Inl e | Inr key \<Rightarrow> Inr (js_policy json key))"

definition PolicyEffectiveKey :: "Json \<Rightarrow> SecurityPolicy \<Rightarrow> KeyError + string" where
  "PolicyEffectiveKey json policy = effectivePolicyKey json None policy"

definition EffectivePolicyKey :: "Json \<Rightarrow> Config \<Rightarrow> SecurityPolicy \<Rightarrow> KeyError + string" where
  "EffectivePolicyKey json c policy = effectivePolicyKey json (Some c) policy"

fun duplicate_loop ::
  "(SecurityPolicy \<Rightarrow> KeyError + string) \<Rightarrow> (string, SecurityPolicy) fmap \<Rightarrow> SecurityPolicy list
   \<Rightarrow> PolicyDiagnostic list" where
  "duplicate_loop key seen [] = []"
| "duplicate_loop key seen (policy # policies) =
     (case key policy of
        Inl _ \<Rightarrow> duplicate_loop key seen policies
      | Inr k \<Rightarrow>
          (case fmlookup seen k of
             Some prior \<Rightarrow>
               ExactDuplicate (pol_ID policy) (pol_ID prior) (pol_Priority prior)
               # duplicate_loop key seen policies
           | None \<Rightarrow> duplicate_loop key (fmupd k policy seen) policies))"

definition exactDuplicatePolicyErrors ::
  "Json \<Rightarrow> Config option \<Rightarrow> SecurityPolicy list \<Rightarrow> PolicyDiagnostic list" where
  "exactDuplicatePolicyErrors json c policies =
     duplicate_loop
       (case c of None \<Rightarrow> PolicyEffectiveKey json | Some c \<Rightarrow> EffectivePolicyKey json c) fmempty
       (sort_key (\<lambda>p. (pol_Priority p, pol_ID p)) policies)"

definition ExactDuplicatePolicyErrors :: "Json \<Rightarrow> SecurityPolicy list \<Rightarrow> PolicyDiagnostic list" where
  "ExactDuplicatePolicyErrors json policies = exactDuplicatePolicyErrors json None policies"

definition ExactDuplicatePolicyErrorsForConfig :: "Json \<Rightarrow> Config \<Rightarrow> PolicyDiagnostic list" where
  "ExactDuplicatePolicyErrorsForConfig json c = exactDuplicatePolicyErrors json (Some c) (cfg_Policies c)"

section \<open>Inspection\<close>

datatype InspectionDiagnostic =
    LimitNegative string
  | LimitExceeds string int
  | TimeoutBelow int
  | EventExceedsQueueBytes
  | EventExceedsSecurityBytes
  | ProfileModeInvalid string string
  | ProfileModeOff string
  | ProfileFailMode string
  | ProfileRuleset string string
  | ProfileIDSIPSDisabled string
  | ProfileDPI string
  | ProfileOutsideM3 string
  | ProfileTLSDecrypt string
  | ProfileFailClosed string
  | PolicyInspectionDisabled string
  | PolicyRestrictionAction string
  | PolicyRestrictionScope string
  | PolicyRestrictionMode string
  | PolicyMatchMode string string
  | PolicyApplication string string
  | PolicyRiskThreshold string
  | PolicyWithoutProfile string
  | PolicyProfileWithoutInspection string
  | PolicyProfileNotIPS string

abbreviation ApplicationMatchRestrictL3Allow :: string where
  "ApplicationMatchRestrictL3Allow \<equiv> ''RESTRICT_L3_ALLOW''"
abbreviation InspectionFailOpen :: string where "InspectionFailOpen \<equiv> ''OPEN''"
abbreviation BuiltinM3RulesetID :: string where "BuiltinM3RulesetID \<equiv> ''m3-builtin-v1''"

definition supportedM3Applications :: "string list" where
  "supportedM3Applications = [''HTTP'', ''TLS'', ''DNS'', ''SSH'']"

text \<open>An error appended when a condition holds.\<close>

definition err_if :: "bool \<Rightarrow> 'e \<Rightarrow> 'e list" where
  "err_if b e = (if b then [e] else [])"

definition limit_values :: "InspectionLimits \<Rightarrow> (string \<times> int \<times> int) list" where
  "limit_values l =
     [(''eve_line_bytes'', lim_EVELineBytes l, 4194304),
      (''normalized_event_bytes'', lim_NormalizedEventBytes l, 16384),
      (''observation_queue_items'', lim_ObservationQueueItems l, 10000),
      (''observation_queue_bytes'', lim_ObservationQueueBytes l, 33554432),
      (''security_events'', lim_SecurityEvents l, 10000),
      (''security_event_bytes'', lim_SecurityEventBytes l, 33554432),
      (''correlation_pending'', lim_CorrelationPending l, 4096),
      (''correlation_wait_ms'', lim_CorrelationWaitMillis l, 5000),
      (''recent_sessions'', lim_RecentSessions l, 5000),
      (''recent_session_ttl_seconds'', lim_RecentSessionTTLSeconds l, 60),
      (''app_detection_timeout_ms'', lim_AppDetectionTimeoutMillis l, 30000)]"

definition validate_limits :: "InspectionLimits \<Rightarrow> InspectionDiagnostic list" where
  "validate_limits l =
     concat (map (\<lambda>(name, v, _). err_if (v < 0) (LimitNegative name)) (limit_values l))
     @ concat (map (\<lambda>(name, v, maximum). err_if (v > maximum) (LimitExceeds name maximum)) (limit_values l))
     @ err_if (lim_AppDetectionTimeoutMillis l > 0 \<and> lim_AppDetectionTimeoutMillis l < 1000)
         (TimeoutBelow 1000)
     @ err_if (lim_NormalizedEventBytes l > lim_ObservationQueueBytes l \<and> lim_ObservationQueueBytes l > 0)
         EventExceedsQueueBytes
     @ err_if (lim_NormalizedEventBytes l > lim_SecurityEventBytes l \<and> lim_SecurityEventBytes l > 0)
         EventExceedsSecurityBytes"

definition profilesByID :: "SecurityProfile list \<Rightarrow> (string, SecurityProfile) fmap" where
  "profilesByID profiles = fold (\<lambda>p. fmupd (prof_ID p) p) profiles fmempty"

definition validate_profile :: "Config \<Rightarrow> SecurityProfile \<Rightarrow> InspectionDiagnostic list" where
  "validate_profile c profile =
     (case prof_Inspection profile of
        None \<Rightarrow> []
      | Some ip \<Rightarrow>
          err_if (\<not> InspectionMode_Valid (ip_Mode ip)) (ProfileModeInvalid (prof_ID profile) (ip_Mode ip))
          @ err_if (ip_Mode ip = InspectionModeOff) (ProfileModeOff (prof_ID profile))
          @ err_if (\<not> EqualFold (TrimSpace (ip_FailMode ip)) InspectionFailOpen)
              (ProfileFailMode (prof_ID profile))
          @ err_if (ip_RulesetID ip \<noteq> BuiltinM3RulesetID) (ProfileRuleset (prof_ID profile) (ip_RulesetID ip))
          @ err_if (\<not> prof_IDSIPSEnabled profile) (ProfileIDSIPSDisabled (prof_ID profile))
          @ err_if (prof_DPIEnabled profile) (ProfileDPI (prof_ID profile))
          @ err_if (prof_DNSSecurityEnabled profile \<or> prof_URLFilteringEnabled profile
                    \<or> prof_ThreatIntelEnabled profile \<or> prof_BehaviorEnabled profile
                    \<or> prof_MLDetectionEnabled profile) (ProfileOutsideM3 (prof_ID profile))
          @ err_if (prof_TLSMode profile = TLSDecrypt \<and> \<not> (UsesM4 c \<and> gate_enabled profile))
              (ProfileTLSDecrypt (prof_ID profile))
          @ err_if (prof_InspectionRequired profile \<or> prof_InspectionFailureAction profile = DecisionDrop
                    \<or> prof_InspectionFailureAction profile = DecisionReject)
              (ProfileFailClosed (prof_ID profile)))"

definition profile_is_M3 :: "(string, SecurityProfile) fmap \<Rightarrow> SecurityPolicy \<Rightarrow> bool" where
  "profile_is_M3 profiles policy =
     (case fmlookup profiles (pol_SecurityProfileID policy) of
        None \<Rightarrow> False
      | Some profile \<Rightarrow>
          (case prof_Inspection profile of None \<Rightarrow> False | Some ip \<Rightarrow> ip_Mode ip \<noteq> InspectionModeOff))"

definition validate_restriction :: "SecurityPolicy \<Rightarrow> InspectionDiagnostic list" where
  "validate_restriction policy =
     (let mode = ToUpper (TrimSpace (pol_ApplicationMatchMode policy)) in
      (if pol_Applications policy \<noteq> []
       then err_if (pol_Action policy \<noteq> DecisionAllow) (PolicyRestrictionAction (pol_ID policy))
            @ err_if (ToUpper (TrimSpace (pol_Scope policy)) \<noteq> ''SESSION'' \<and> TrimSpace (pol_Scope policy) \<noteq> '''')
                (PolicyRestrictionScope (pol_ID policy))
            @ err_if (mode \<noteq> ApplicationMatchRestrictL3Allow) (PolicyRestrictionMode (pol_ID policy))
       else [])
      @ err_if (pol_ApplicationMatchMode policy \<noteq> '''' \<and> mode \<noteq> ApplicationMatchRestrictL3Allow)
          (PolicyMatchMode (pol_ID policy) (pol_ApplicationMatchMode policy))
      @ concat (map (\<lambda>raw. err_if (ToUpper (TrimSpace raw) \<notin> set supportedM3Applications)
          (PolicyApplication (pol_ID policy) raw)) (pol_Applications policy))
      @ err_if (pol_MinimumRisk policy \<noteq> None \<or> pol_MaximumRisk policy \<noteq> None)
          (PolicyRiskThreshold (pol_ID policy)))"

definition validate_policy_profile ::
  "(string, SecurityProfile) fmap \<Rightarrow> SecurityPolicy \<Rightarrow> InspectionDiagnostic list" where
  "validate_policy_profile profiles policy =
     (if pol_SecurityProfileID policy = '''' then [PolicyWithoutProfile (pol_ID policy)]
      else
        (case Option.bind (fmlookup profiles (pol_SecurityProfileID policy)) prof_Inspection of
           None \<Rightarrow> [PolicyProfileWithoutInspection (pol_ID policy)]
         | Some ip \<Rightarrow>
             err_if (pol_Applications policy \<noteq> [] \<and> ip_Mode ip \<noteq> InspectionModeIPS)
               (PolicyProfileNotIPS (pol_ID policy))))"

definition validate_policy ::
  "Config \<Rightarrow> (string, SecurityProfile) fmap \<Rightarrow> SecurityPolicy \<Rightarrow> InspectionDiagnostic list" where
  "validate_policy c profiles policy =
     (if \<not> pol_Enabled policy then []
      else if \<not> (pol_Applications policy \<noteq> [] \<or> pol_ApplicationMatchMode policy \<noteq> ''''
                 \<or> profile_is_M3 profiles policy) then []
      else if \<not> UsesM3 c then [PolicyInspectionDisabled (pol_ID policy)]
      else validate_restriction policy @ validate_policy_profile profiles policy)"

definition ValidateInspection :: "Config \<Rightarrow> InspectionDiagnostic list" where
  "ValidateInspection c =
     (case cfg_Inspection c of None \<Rightarrow> [] | Some i \<Rightarrow> validate_limits (ic_Limits i))
     @ concat (map (validate_profile c) (cfg_Profiles c))
     @ concat (map (validate_policy c (profilesByID (cfg_Profiles c))) (cfg_Policies c))"

section \<open>Request gate\<close>

datatype GateDiagnostic =
    GateRange string int int
  | GatePortsEqual
  | GateRuleset string
  | GatePerClient
  | GateDecompressedBody
  | GateFailModeInvalid string
  | GateOversizeAction string
  | GateEncodingAction string
  | GateBlockQUIC string
  | GatePolicyNotAllow string
  | GatePolicyNoTCP string
  | TooManyExclusions
  | TooManySelectors string
  | ExclusionTextTooLong string
  | ExclusionIdentifier string
  | ExclusionWithoutReason string
  | ExclusionMatchesAll string
  | ExclusionDomain string string DomainError
  | ExclusionCIDR string string
  | ExclusionPort string int
  | ExclusionOrder ExclusionDiagnostic

definition GateFailMode_Valid :: "GateFailMode \<Rightarrow> bool" where
  "GateFailMode_Valid m \<longleftrightarrow> m = GateFailOpen \<or> m = GateFailClose"

definition validGatePartialAction :: "string \<Rightarrow> bool" where
  "validGatePartialAction action \<longleftrightarrow> action = ''BLOCK'' \<or> action = ''ALLOW_PARTIAL''"

definition hasRequestGateTCPService :: "string list \<Rightarrow> bool" where
  "hasRequestGateTCPService services \<longleftrightarrow>
     services = []
     \<or> list_ex (\<lambda>raw. case ParseServiceSelector raw of Inl _ \<Rightarrow> False | Inr s \<Rightarrow> sel_Protocol s = ''tcp'') services"

definition check_range :: "string \<Rightarrow> int \<Rightarrow> int \<Rightarrow> int \<Rightarrow> GateDiagnostic list" where
  "check_range name v minimum maximum =
     err_if (v < minimum \<or> v > maximum) (GateRange name minimum maximum)"

definition validate_gate_limits :: "RequestGateConfig \<Rightarrow> GateDiagnostic list" where
  "validate_gate_limits g =
     check_range ''listen_http_port'' (rg_ListenHTTPPort g) 1 65535
     @ check_range ''listen_https_port'' (rg_ListenHTTPSPort g) 1 65535
     @ err_if (rg_ListenHTTPPort g = rg_ListenHTTPSPort g) GatePortsEqual
     @ err_if (\<not> ValidateIdentifier (rg_RulesetID g)) (GateRuleset (rg_RulesetID g))
     @ check_range ''worker_count'' (rg_WorkerCount g) 1 4
     @ check_range ''queue_items'' (rg_QueueItems g) 1 1024
     @ check_range ''queue_bytes'' (rg_QueueBytes g) 65536 33554432
     @ check_range ''max_concurrent_requests'' (rg_MaxConcurrentRequests g) 1 1024
     @ check_range ''max_per_client_requests'' (rg_MaxPerClientRequests g) 1 1024
     @ err_if (rg_MaxPerClientRequests g > rg_MaxConcurrentRequests g) GatePerClient
     @ check_range ''max_http2_streams'' (rg_MaxHTTP2Streams g) 1 256
     @ check_range ''max_header_bytes'' (rg_MaxHeaderBytes g) 1024 65536
     @ check_range ''max_header_count'' (rg_MaxHeaderCount g) 1 256
     @ check_range ''max_url_bytes'' (rg_MaxURLBytes g) 256 16384
     @ check_range ''max_raw_body_bytes'' (rg_MaxRawBodyBytes g) 1 1048576
     @ check_range ''max_decompressed_body_bytes'' (rg_MaxDecompressedBodyBytes g) 1 4194304
     @ err_if (rg_MaxDecompressedBodyBytes g < rg_MaxRawBodyBytes g) GateDecompressedBody
     @ check_range ''max_decompression_ratio'' (rg_MaxDecompressionRatio g) 1 100
     @ check_range ''request_timeout_ms'' (rg_RequestTimeoutMillis g) 100 30000
     @ check_range ''client_hello_bytes'' (rg_ClientHelloBytes g) 1024 65536
     @ check_range ''client_hello_timeout_ms'' (rg_ClientHelloTimeoutMillis g) 100 5000
     @ check_range ''leaf_cache_entries'' (rg_LeafCacheEntries g) 1 4096
     @ check_range ''leaf_cache_ttl_seconds'' (rg_LeafCacheTTLSeconds g) 60 86400"

definition validate_gate_profile :: "SecurityProfile \<Rightarrow> GateDiagnostic list" where
  "validate_gate_profile profile =
     (case prof_RequestGate profile of
        None \<Rightarrow> []
      | Some gate \<Rightarrow>
          if \<not> rgp_Enabled gate then []
          else
            err_if (\<not> GateFailMode_Valid (rgp_FailMode gate)) (GateFailModeInvalid (prof_ID profile))
            @ err_if (\<not> validGatePartialAction (rgp_OversizeAction gate)) (GateOversizeAction (prof_ID profile))
            @ err_if (\<not> validGatePartialAction (rgp_UnsupportedEncodingAction gate))
                (GateEncodingAction (prof_ID profile))
            @ err_if (rgp_BlockQUIC gate \<and> prof_TLSMode profile \<noteq> TLSDecrypt) (GateBlockQUIC (prof_ID profile)))"

definition validate_gate_policy ::
  "(string, SecurityProfile) fmap \<Rightarrow> SecurityPolicy \<Rightarrow> GateDiagnostic list" where
  "validate_gate_policy profiles policy =
     (if pol_SecurityProfileID policy = '''' then []
      else
        (case fmlookup profiles (pol_SecurityProfileID policy) of
           None \<Rightarrow> []
         | Some profile \<Rightarrow>
             if \<not> gate_enabled profile \<or> \<not> pol_Enabled policy then []
             else
               err_if (pol_Action policy \<noteq> DecisionAllow \<or> canonicalScope (pol_Scope policy) \<noteq> ''SESSION'')
                 (GatePolicyNotAllow (pol_ID policy))
               @ err_if (\<not> hasRequestGateTCPService (pol_Services policy)) (GatePolicyNoTCP (pol_ID policy))))"

definition exclusion_domain_errors :: "TLSExclusion \<Rightarrow> GateDiagnostic list" where
  "exclusion_domain_errors e =
     concat (map (\<lambda>raw. case canonicalTLSDomain raw of
        Inl err \<Rightarrow> [ExclusionDomain (tx_ID e) raw err] | Inr _ \<Rightarrow> []) (tx_Domains e))"

definition validate_exclusion :: "TLSExclusion \<Rightarrow> GateDiagnostic list" where
  "validate_exclusion e =
     (if \<not> tx_Enabled e then []
      else
        err_if (int (length (tx_Domains e)) > 64 \<or> int (length (tx_DestinationCIDRs e)) > 64
                \<or> int (length (tx_Ports e)) > 64) (TooManySelectors (tx_ID e))
        @ err_if (int (length (tx_Reason e)) > 512 \<or> int (length (tx_Name e)) > 256)
            (ExclusionTextTooLong (tx_ID e))
        @ err_if (\<not> ValidateIdentifier (tx_ID e)) (ExclusionIdentifier (tx_ID e))
        @ err_if (TrimSpace (tx_Reason e) = '''') (ExclusionWithoutReason (tx_ID e))
        @ err_if (tx_Domains e = [] \<and> tx_DestinationCIDRs e = [] \<and> tx_Ports e = [])
            (ExclusionMatchesAll (tx_ID e))
        @ exclusion_domain_errors e
        @ concat (map (\<lambda>raw. err_if (ParsePrefix raw = None) (ExclusionCIDR (tx_ID e) raw)) (tx_DestinationCIDRs e))
        @ concat (map (\<lambda>port. err_if (port < 1 \<or> port > 65535) (ExclusionPort (tx_ID e) port)) (tx_Ports e)))"

definition ValidateRequestGate :: "Json \<Rightarrow> Config \<Rightarrow> GateDiagnostic list" where
  "ValidateRequestGate json c =
     (if \<not> UsesM4 c then []
      else
        validate_gate_limits (EffectiveRequestGateConfig c)
        @ concat (map validate_gate_profile (cfg_Profiles c))
        @ concat (map (validate_gate_policy (profilesByID (cfg_Profiles c))) (cfg_Policies c))
        @ err_if (int (length (cfg_TLSExclusions c)) > 1024) TooManyExclusions
        @ concat (map validate_exclusion (cfg_TLSExclusions c))
        @ map ExclusionOrder (TLSExclusionSemanticErrors json c))"

section \<open>Validated exclusions\<close>

lemma err_if_Nil [simp]: "err_if b e = [] \<longleftrightarrow> \<not> b"
  by (simp add: err_if_def)

lemma map_err_total: "\<forall>x \<in> set xs. \<exists>y. f x = Inr y \<Longrightarrow> \<exists>ys. map_err f xs = Inr ys"
  by (induction xs) auto

lemma validated_groups:
  assumes "validate_exclusion e = []" "tx_Enabled e"
  shows "\<forall>raw \<in> set (tx_Domains e). \<exists>d. canonicalTLSDomain raw = Inr d"
    and "\<forall>raw \<in> set (tx_DestinationCIDRs e). \<exists>p. ParsePrefix raw = Some p"
    and "\<forall>p \<in> set (tx_Ports e). 1 \<le> p \<and> p \<le> 65535"
    and "tx_Domains e \<noteq> [] \<or> tx_DestinationCIDRs e \<noteq> [] \<or> tx_Ports e \<noteq> []"
proof -
  have d: "exclusion_domain_errors e = []"
    and c: "\<forall>raw \<in> set (tx_DestinationCIDRs e). \<not> ParsePrefix raw = None"
    and p: "\<forall>p \<in> set (tx_Ports e). \<not> (p < 1 \<or> p > 65535)"
    and n: "\<not> (tx_Domains e = [] \<and> tx_DestinationCIDRs e = [] \<and> tx_Ports e = [])"
    using assms by (simp_all add: validate_exclusion_def)
  show "\<forall>raw \<in> set (tx_Domains e). \<exists>d. canonicalTLSDomain raw = Inr d"
  proof
    fix raw
    assume "raw \<in> set (tx_Domains e)"
    with d show "\<exists>d. canonicalTLSDomain raw = Inr d"
      by (cases "canonicalTLSDomain raw") (auto simp: exclusion_domain_errors_def)
  qed
  show "\<forall>raw \<in> set (tx_DestinationCIDRs e). \<exists>p. ParsePrefix raw = Some p" using c by auto
  show "\<forall>p \<in> set (tx_Ports e). 1 \<le> p \<and> p \<le> 65535" using p by auto
  show "tx_Domains e \<noteq> [] \<or> tx_DestinationCIDRs e \<noteq> [] \<or> tx_Ports e \<noteq> []" using n by auto
qed

lemma validated_exclusion_compiles:
  assumes "validate_exclusion e = []" "tx_Enabled e"
  obtains r where "compile_exclusion e = Inr r" "map uint (txr_Ports r) = tx_Ports e"
    "txr_Domains r \<noteq> [] \<or> txr_CIDRs r \<noteq> [] \<or> txr_Ports r \<noteq> []"
proof -
  note v = validated_groups [OF assms]
  obtain ds where ds: "map_err canonicalTLSDomain (tx_Domains e) = Inr ds"
    using map_err_total [OF v(1)] by blast
  have "\<forall>raw \<in> set (tx_DestinationCIDRs e). \<exists>p. exclusion_cidr raw = Inr p"
    using v(2) by (fastforce simp: selector_Inr)
  then obtain cs where cs: "map_err exclusion_cidr (tx_DestinationCIDRs e) = Inr cs"
    using map_err_total by blast
  have "map uint (map (word_of_int :: int \<Rightarrow> u16) (tx_Ports e)) = tx_Ports e"
    using v(3) by (auto simp: uint_word_of_int intro!: map_idI)
  then show thesis
    using that v(4) ds cs map_err_Nil_iff [OF ds] map_err_Nil_iff [OF cs]
    by (simp add: compile_exclusion_def)
qed

text \<open>
  C34: validation is enough for compilation of the exclusions: when the request gate validates, every
  enabled exclusion compiles, no port is changed by the narrowing to 16 bits, and none of the
  compiled rules is without a condition.
\<close>

theorem validated_exclusions_compile:
  assumes "ValidateRequestGate json c = []" "UsesM4 c"
  shows "\<exists>rules. compileTLSExclusions (cfg_TLSExclusions c) = Inr rules
    \<and> map (\<lambda>r. map uint (txr_Ports r)) rules = map tx_Ports (filter tx_Enabled (cfg_TLSExclusions c))
    \<and> list_all (\<lambda>r. txr_Domains r \<noteq> [] \<or> txr_CIDRs r \<noteq> [] \<or> txr_Ports r \<noteq> []) rules"
proof -
  have "\<exists>rules. map_err compile_exclusion es = Inr rules
      \<and> map (\<lambda>r. map uint (txr_Ports r)) rules = map tx_Ports es
      \<and> list_all (\<lambda>r. txr_Domains r \<noteq> [] \<or> txr_CIDRs r \<noteq> [] \<or> txr_Ports r \<noteq> []) rules"
    if "\<forall>e \<in> set es. validate_exclusion e = [] \<and> tx_Enabled e" for es
    using that
  proof (induction es)
    case (Cons e es)
    obtain r where "compile_exclusion e = Inr r" "map uint (txr_Ports r) = tx_Ports e"
        "txr_Domains r \<noteq> [] \<or> txr_CIDRs r \<noteq> [] \<or> txr_Ports r \<noteq> []"
      using validated_exclusion_compiles [of e] Cons.prems by auto
    with Cons show ?case by auto
  qed simp
  from this [of "filter tx_Enabled (cfg_TLSExclusions c)"] show ?thesis
    using assms by (simp add: ValidateRequestGate_def compileTLSExclusions_def)
qed

text \<open>A valid configuration: the reported duplicate of \<open>excluded_config\<close> removed.\<close>

definition gated_profile :: SecurityProfile where
  "gated_profile =
     \<lparr>prof_ID = ''gate'', prof_Name = '''', prof_IDSIPSEnabled = False, prof_DPIEnabled = False,
      prof_DNSSecurityEnabled = False, prof_URLFilteringEnabled = False, prof_ThreatIntelEnabled = False,
      prof_BehaviorEnabled = False, prof_MLDetectionEnabled = False, prof_TLSMode = TLSDecrypt,
      prof_MinimumBlockRisk = 0, prof_LoggingLevel = '''', prof_InspectionRequired = False,
      prof_InspectionFailureAction = '''', prof_Inspection = None,
      prof_RequestGate = Some \<lparr>rgp_Enabled = True, rgp_FailMode = GateFailClose, rgp_OversizeAction = ''BLOCK'',
        rgp_UnsupportedEncodingAction = ''BLOCK'', rgp_BlockQUIC = True\<rparr>\<rparr>"

definition gated_config :: Config where
  "gated_config =
     excluded_config\<lparr>cfg_Profiles := [gated_profile],
       cfg_Policies := [example_policy\<lparr>pol_SecurityProfileID := ''gate'', pol_Services := [''tcp:443'', ''tcp:8443'']\<rparr>],
       cfg_TLSExclusions := take 1 (cfg_TLSExclusions excluded_config)\<rparr>"

theorem validated_exclusions_compile_witness:
  "ValidateRequestGate example_json gated_config = [] \<and> UsesM4 gated_config
   \<and> (\<exists>rules. compileTLSExclusions (cfg_TLSExclusions gated_config) = Inr rules
      \<and> map (\<lambda>r. map uint (txr_Ports r)) rules = map tx_Ports (filter tx_Enabled (cfg_TLSExclusions gated_config)))"
proof -
  have "ValidateRequestGate example_json gated_config = []" "UsesM4 gated_config" by code_simp+
  then show ?thesis using validated_exclusions_compile by blast
qed

end
