(* ===== verification/Config_Validation.thy ===== *)
theory Config_Validation
imports Gate_Config
begin

text \<open>
  The structural validation of a configuration (\<open>Validator.Validate\<close> of
  \<open>internal/config/manager.go\<close>) with the checks it calls in \<open>internal/domain/types.go\<close>. An error
  message is a value of a diagnostic type with what the message shows. The validator reads addresses
  with \<open>package net\<close>, the compiler with \<open>package net/netip\<close>; the theory closes with the exact
  condition under which a validated configuration compiles.
\<close>

section \<open>Defaults\<close>

definition Defaults :: Config where
  "Defaults =
     \<lparr>cfg_Interfaces = [], cfg_Zones = [], cfg_Routes = [], cfg_NATRules = [], cfg_Policies = [],
      cfg_Profiles = [], cfg_MaxSessions = 50000, cfg_MaxEventsQueue = 10000,
      cfg_MaxHTTPBodyInspection = 65536, cfg_MaxHTTPHeaderSize = 32768, cfg_MaxURLLength = 8192,
      cfg_MaxMLInputLength = 65536, cfg_MLTimeoutMillis = 200, cfg_RequestInspectionTimeoutMillis = 2000,
      cfg_DefaultDeny = True, cfg_Inspection = None, cfg_RequestGate = None, cfg_TLSExclusions = []\<rparr>"

section \<open>Package net\<close>

text \<open>
  The 16-byte form every parsed \<open>net.IP\<close> has, \<open>To4\<close> on it, and an \<open>IPNet\<close> whose address and mask
  have 4 or 16 bytes, with the length of the mask.
\<close>

definition As16 :: "Addr \<Rightarrow> 128 word" where
  "As16 a =
     (case a of AddrZero \<Rightarrow> 0 | Addr4 v \<Rightarrow> or (push_bit 32 0xffff) (ucast v) | Addr6 w _ \<Rightarrow> w)"

definition To4 :: "128 word \<Rightarrow> 32 word option" where
  "To4 w = (if drop_bit 32 w = 0xffff then Some (ucast w) else None)"

datatype IPNet = Net4 "32 word" int | Net16 "128 word" int

definition IPNet_Ones :: "IPNet \<Rightarrow> int" where
  "IPNet_Ones n = (case n of Net4 _ ones \<Rightarrow> ones | Net16 _ ones \<Rightarrow> ones)"

definition IPNet_To4 :: "IPNet \<Rightarrow> 32 word option" where
  "IPNet_To4 n = (case n of Net4 v _ \<Rightarrow> Some v | Net16 w _ \<Rightarrow> To4 w)"

definition same_top :: "int \<Rightarrow> 'a::len word \<Rightarrow> 'a word \<Rightarrow> bool" where
  "same_top ones v w \<longleftrightarrow> drop_bit (LENGTH('a) - nat ones) v = drop_bit (LENGTH('a) - nat ones) w"

definition IPNet_Contains :: "IPNet \<Rightarrow> 128 word \<Rightarrow> bool" where
  "IPNet_Contains n ip =
     (case n of
        Net4 v ones \<Rightarrow> (case To4 ip of None \<Rightarrow> False | Some x \<Rightarrow> same_top ones v x)
      | Net16 w ones \<Rightarrow>
          (case (To4 w, To4 ip) of
             (Some v, Some x) \<Rightarrow> same_top (ones - 96) v x
           | (None, None) \<Rightarrow> same_top ones w ip
           | _ \<Rightarrow> False))"

text \<open>The leading digits of a text, with their value below \<open>0xFFFFFF\<close> and their number.\<close>

definition dtoi :: "string \<Rightarrow> (int \<times> nat) option" where
  "dtoi s =
     (let ds = takeWhile isDigit s in
      if ds = [] \<or> digits_val ds \<ge> 0xFFFFFF then None else Some (digits_val ds, length ds))"

definition ParseIP :: "string \<Rightarrow> 128 word option" where
  "ParseIP s =
     (case ParseAddr s of
        None \<Rightarrow> None
      | Some a \<Rightarrow> if Addr_Zone a \<noteq> '''' then None else Some (As16 a))"

definition addr_net :: "Addr \<Rightarrow> int \<Rightarrow> IPNet" where
  "addr_net a ones =
     (case a of
        Addr4 v \<Rightarrow> Net4 (keep_top (nat ones) v) ones
      | _ \<Rightarrow> Net16 (keep_top (nat ones) (As16 a)) ones)"

definition ParseCIDR :: "string \<Rightarrow> (128 word \<times> IPNet) option" where
  "ParseCIDR s =
     (let addr = takeWhile (\<lambda>c. c \<noteq> CHR ''/'') s; rest = dropWhile (\<lambda>c. c \<noteq> CHR ''/'') s in
      case rest of
        [] \<Rightarrow> None
      | _ # ones \<Rightarrow>
          (case ParseAddr addr of
             None \<Rightarrow> None
           | Some a \<Rightarrow>
               if Addr_Zone a \<noteq> '''' then None
               else
                 (case dtoi ones of
                    None \<Rightarrow> None
                  | Some (n, i) \<Rightarrow>
                      if i \<noteq> length ones \<or> n < 0 \<or> n > BitLen a then None
                      else Some (As16 a, addr_net a n))))"

section \<open>Single values\<close>

definition ValidateCIDR :: "string \<Rightarrow> bool" where
  "ValidateCIDR s \<longleftrightarrow> s \<noteq> '''' \<and> ParseCIDR s \<noteq> None"

definition ValidateIP :: "string \<Rightarrow> bool" where
  "ValidateIP s \<longleftrightarrow> s \<noteq> '''' \<and> ParseIP s \<noteq> None"

definition linuxInterfaceName :: "string \<Rightarrow> bool" where
  "linuxInterfaceName name =
     (case name of
        [] \<Rightarrow> False
      | c # cs \<Rightarrow>
          is_alnum c \<and> length cs \<le> 14
          \<and> list_all (\<lambda>d. is_alnum d \<or> d = CHR ''_'' \<or> d = CHR ''.'' \<or> d = CHR ''-'') cs)"

definition validateAddressFamily :: "string \<Rightarrow> bool \<Rightarrow> bool" where
  "validateAddressFamily s ipv6 =
     (case ParseCIDR s of None \<Rightarrow> False | Some (ip, _) \<Rightarrow> (To4 ip = None) = ipv6)"

definition validateIPv4CIDR :: "string \<Rightarrow> bool" where
  "validateIPv4CIDR s = (case ParseCIDR s of None \<Rightarrow> False | Some (ip, _) \<Rightarrow> To4 ip \<noteq> None)"

definition validateIPv4 :: "string \<Rightarrow> bool" where
  "validateIPv4 s = (case ParseIP s of None \<Rightarrow> False | Some ip \<Rightarrow> To4 ip \<noteq> None)"

definition validateIPv4AddressOrCIDR :: "string \<Rightarrow> bool" where
  "validateIPv4AddressOrCIDR s =
     (if CHR ''/'' \<in> set s then validateIPv4CIDR s else validateIPv4 s)"

definition validateM1Service :: "string \<Rightarrow> bool" where
  "validateM1Service s \<longleftrightarrow> parseM1ServiceSelector s \<noteq> None"

definition validateRouteFamily :: "Route \<Rightarrow> bool" where
  "validateRouteFamily route =
     (case ParseCIDR (rt_DestinationCIDR route) of
        None \<Rightarrow> True
      | Some (_, destination) \<Rightarrow>
          if rt_Gateway route = '''' then True
          else
            (case ParseIP (rt_Gateway route) of
               None \<Rightarrow> True
             | Some gateway \<Rightarrow> (IPNet_To4 destination = None) = (To4 gateway = None)))"

text \<open>
  The longest prefix of an interface or of an enabled route that contains the address decides its
  zone; the first of equal length stays.
\<close>

definition better_zone :: "128 word \<Rightarrow> string \<times> IPNet \<Rightarrow> int \<times> string \<Rightarrow> int \<times> string" where
  "better_zone target e best =
     (if IPNet_Contains (snd e) target \<and> IPNet_Ones (snd e) > fst best
      then (IPNet_Ones (snd e), fst e) else best)"

definition interface_nets :: "Interface \<Rightarrow> (string \<times> IPNet) list" where
  "interface_nets i =
     concat (map (\<lambda>s. case ParseCIDR s of None \<Rightarrow> [] | Some (_, n) \<Rightarrow> [(if_ZoneID i, n)])
       (if_IPv4Addresses i))"

definition route_net :: "(string, Interface) fmap \<Rightarrow> Route \<Rightarrow> (string \<times> IPNet) list" where
  "route_net interfaces route =
     (if \<not> rt_Enabled route then []
      else
        (case ParseCIDR (rt_DestinationCIDR route) of
           None \<Rightarrow> []
         | Some (_, n) \<Rightarrow>
             if IPNet_To4 n = None then []
             else [(case fmlookup interfaces (rt_InterfaceID route) of
                      None \<Rightarrow> '''' | Some i \<Rightarrow> if_ZoneID i, n)]))"

definition ipv4BelongsToZone :: "string \<Rightarrow> string \<Rightarrow> Config \<Rightarrow> bool" where
  "ipv4BelongsToZone address zone c =
     (case ParseIP address of
        None \<Rightarrow> False
      | Some target \<Rightarrow>
          if To4 target = None then False
          else
            (case fold (better_zone target)
                    (concat (map interface_nets (cfg_Interfaces c))
                     @ concat (map (route_net (interfacesByID (cfg_Interfaces c))) (cfg_Routes c)))
                    (- 1, '''') of
               (bestPrefix, bestZone) \<Rightarrow> bestPrefix \<ge> 0 \<and> bestZone = zone))"


section \<open>Diagnostics\<close>

datatype InterfaceProblem =
    InterfaceIdentifier | InterfaceDuplicate | InterfaceSystemName string
  | InterfaceSystemAssigned string string | InterfaceUnknownZone string | InterfaceMTU
  | InterfaceModeInvalid InterfaceMode | InterfaceIPv4 string | InterfaceIPv6 string
  | VLANNoParent | VLANUnknownParent string | VLANParentMode string | VLANParentDown string
  | VLANParentMTU string | VLANRange | VLANDuplicate string string | VLANFields | VLANParentAddressed

datatype RouteProblem =
    RouteIdentifier | RouteDuplicate | RouteCIDR string | RouteGateway string
  | RouteUnknownInterface | RouteWithoutTarget | RouteMetric | RouteFamily

datatype NATProblem =
    NATIdentifier | NATDuplicate | NATType string | NATProtocol string | NATPorts | NATPriority
  | NATWithoutZones | NATZoneWithoutInterface string | NATPriorityTaken int string
  | NATUnknownZone string | NATPort int | NATNetwork string | NATAddress string | DNATWithoutAddress
  | DNATOutsideZone string | SNATWithoutAddress | MasqueradeAddress | DNATBinding string string

datatype PolicyProblem =
    PolicyIdentifier | PolicyDuplicate | PolicyPriorityTaken int string | PolicyPriority
  | PolicyAction | PolicyActionScope | PolicyMinimumRisk | PolicyMaximumRisk
  | PolicyUnknownZone string | PolicyZoneWithoutInterface string | PolicyAddress string
  | PolicyServiceInvalid string | PolicyUnknownProfile string

datatype ProfileProblem =
    ProfileIdentifier | ProfileDuplicate | ProfileTLSMode | ProfileBlockRisk | ProfileFailureAction

datatype ConfigDiagnostic =
    ZoneIdentifier string
  | ZoneDuplicate string
  | InInterface string InterfaceProblem
  | InRoute string RouteProblem
  | InNAT string NATProblem
  | InPolicy string PolicyProblem
  | InProfile string ProfileProblem
  | LimitsNotPositive
  | InInspection InspectionDiagnostic
  | InRequestGate GateDiagnostic

section \<open>The loops of the validator\<close>

text \<open>
  Each loop carries the maps it fills: the identifiers seen, and the maps from a key to the
  identifier that took it first, which a later one overwrites.
\<close>

definition taken :: "('k, string) fmap \<Rightarrow> 'k \<Rightarrow> (string \<Rightarrow> 'e) \<Rightarrow> 'e list" where
  "taken m key e = (case fmlookup m key of None \<Rightarrow> [] | Some prior \<Rightarrow> [e prior])"

fun validate_zones :: "string list \<Rightarrow> Zone list \<Rightarrow> ConfigDiagnostic list" where
  "validate_zones zoneIDs [] = []"
| "validate_zones zoneIDs (z # zs) =
     err_if (\<not> ValidateIdentifier (zone_ID z)) (ZoneIdentifier (zone_ID z))
     @ err_if (zone_ID z \<in> set zoneIDs) (ZoneDuplicate (zone_ID z))
     @ validate_zones (zone_ID z # zoneIDs) zs"

fun validate_interfaces ::
  "string list \<Rightarrow> string list \<Rightarrow> (string, string) fmap \<Rightarrow> Interface list \<Rightarrow> ConfigDiagnostic list" where
  "validate_interfaces zoneIDs ifaceIDs systemIfaces [] = []"
| "validate_interfaces zoneIDs ifaceIDs systemIfaces (i # is) =
     map (InInterface (if_ID i))
       (err_if (\<not> ValidateIdentifier (if_ID i)) InterfaceIdentifier
        @ err_if (if_ID i \<in> set ifaceIDs) InterfaceDuplicate
        @ (if \<not> linuxInterfaceName (if_SystemName i) then [InterfaceSystemName (if_SystemName i)]
           else taken systemIfaces (if_SystemName i) (InterfaceSystemAssigned (if_SystemName i)))
        @ err_if (if_ZoneID i \<noteq> '''' \<and> if_ZoneID i \<notin> set zoneIDs) (InterfaceUnknownZone (if_ZoneID i))
        @ err_if (if_MTU i \<noteq> 0 \<and> (if_MTU i < 576 \<or> if_MTU i > 65535)) InterfaceMTU
        @ err_if (\<not> InterfaceMode_Valid (if_Mode i)) (InterfaceModeInvalid (if_Mode i))
        @ map InterfaceIPv4 (filter (\<lambda>a. \<not> validateAddressFamily a False) (if_IPv4Addresses i))
        @ map InterfaceIPv6 (filter (\<lambda>a. \<not> validateAddressFamily a True) (if_IPv6Addresses i)))
     @ validate_interfaces zoneIDs (if_ID i # ifaceIDs)
         (if linuxInterfaceName (if_SystemName i) then fmupd (if_SystemName i) (if_ID i) systemIfaces
          else systemIfaces) is"

definition vlan_binding :: "Interface \<Rightarrow> string" where
  "vlan_binding i = if_ParentInterfaceID i @ ''/'' @ show_int (if_VLANID i)"

definition validate_parent :: "(string, Interface) fmap \<Rightarrow> Interface \<Rightarrow> InterfaceProblem list" where
  "validate_parent byID i =
     (if if_ParentInterfaceID i = '''' then [VLANNoParent]
      else
        (case fmlookup byID (if_ParentInterfaceID i) of
           None \<Rightarrow> [VLANUnknownParent (if_ParentInterfaceID i)]
         | Some parent \<Rightarrow>
             if if_Mode parent \<noteq> InterfaceVLANParent then [VLANParentMode (if_ParentInterfaceID i)]
             else
               err_if (if_AdminState i \<and> \<not> if_AdminState parent) (VLANParentDown (if_ParentInterfaceID i))
               @ err_if (if_MTU i > 0 \<and> if_MTU parent > 0 \<and> if_MTU i > if_MTU parent)
                   (VLANParentMTU (if_ParentInterfaceID i))))"

fun validate_vlans ::
  "(string, Interface) fmap \<Rightarrow> (string, string) fmap \<Rightarrow> Interface list \<Rightarrow> ConfigDiagnostic list" where
  "validate_vlans byID vlanBindings [] = []"
| "validate_vlans byID vlanBindings (i # is) =
     map (InInterface (if_ID i))
       ((if if_Mode i = InterfaceVLANSub
         then validate_parent byID i
              @ err_if (if_VLANID i < 1 \<or> if_VLANID i > 4094) VLANRange
              @ taken vlanBindings (vlan_binding i) (VLANDuplicate (vlan_binding i))
         else err_if (if_ParentInterfaceID i \<noteq> '''' \<or> if_VLANID i \<noteq> 0) VLANFields)
        @ err_if (if_Mode i = InterfaceVLANParent
                  \<and> (if_ZoneID i \<noteq> '''' \<or> if_IPv4Addresses i \<noteq> [] \<or> if_IPv6Addresses i \<noteq> []))
            VLANParentAddressed)
     @ validate_vlans byID
         (if if_Mode i = InterfaceVLANSub then fmupd (vlan_binding i) (if_ID i) vlanBindings
          else vlanBindings) is"

fun validate_routes :: "string list \<Rightarrow> string list \<Rightarrow> Route list \<Rightarrow> ConfigDiagnostic list" where
  "validate_routes ifaceIDs routeIDs [] = []"
| "validate_routes ifaceIDs routeIDs (r # rs) =
     map (InRoute (rt_ID r))
       (err_if (\<not> ValidateIdentifier (rt_ID r)) RouteIdentifier
        @ err_if (rt_ID r \<in> set routeIDs) RouteDuplicate
        @ err_if (\<not> ValidateCIDR (rt_DestinationCIDR r)) (RouteCIDR (rt_DestinationCIDR r))
        @ err_if (rt_Gateway r \<noteq> '''' \<and> \<not> ValidateIP (rt_Gateway r)) (RouteGateway (rt_Gateway r))
        @ err_if (rt_InterfaceID r \<noteq> '''' \<and> rt_InterfaceID r \<notin> set ifaceIDs) RouteUnknownInterface
        @ err_if (rt_Enabled r \<and> rt_InterfaceID r = '''' \<and> rt_Gateway r = '''') RouteWithoutTarget
        @ err_if (rt_Metric r < 0) RouteMetric
        @ err_if (\<not> validateRouteFamily r) RouteFamily)
     @ validate_routes ifaceIDs (rt_ID r # routeIDs) rs"


definition nat_priority_key :: "NATRule \<Rightarrow> string" where
  "nat_priority_key n =
     (if ToUpper (nat_Type n) = ''DNAT'' then ''prerouting'' else ''postrouting'')
     @ ''/'' @ show_int (nat_Priority n)"

definition validate_nat_enabled ::
  "string list \<Rightarrow> (string, string) fmap \<Rightarrow> NATRule \<Rightarrow> NATProblem list" where
  "validate_nat_enabled zoneHasInterface natPriorities n =
     (if \<not> nat_Enabled n then []
      else
        err_if (nat_Priority n < 0) NATPriority
        @ err_if (nat_SourceZone n = '''' \<or> nat_DestinationZone n = '''') NATWithoutZones
        @ map NATZoneWithoutInterface
            (filter (\<lambda>zone. zone \<noteq> '''' \<and> zone \<notin> set zoneHasInterface) [nat_SourceZone n, nat_DestinationZone n])
        @ taken natPriorities (nat_priority_key n) (NATPriorityTaken (nat_Priority n)))"

definition validate_nat_translation :: "Config \<Rightarrow> NATRule \<Rightarrow> NATProblem list" where
  "validate_nat_translation c n =
     (let natType = ToUpper (nat_Type n) in
      (if natType = ''DNAT'' \<and> nat_TranslatedAddress n = '''' then [DNATWithoutAddress]
       else err_if (natType = ''DNAT'' \<and> nat_DestinationZone n \<noteq> ''''
                    \<and> \<not> ipv4BelongsToZone (nat_TranslatedAddress n) (nat_DestinationZone n) c)
              (DNATOutsideZone (nat_DestinationZone n)))
      @ err_if (natType = ''SNAT'' \<and> nat_TranslatedAddress n = '''') SNATWithoutAddress
      @ err_if (natType = ''MASQUERADE'' \<and> (nat_TranslatedAddress n \<noteq> '''' \<or> nat_TranslatedPort n \<noteq> 0))
          MasqueradeAddress)"

definition validate_nat ::
  "Config \<Rightarrow> string list \<Rightarrow> string list \<Rightarrow> string list \<Rightarrow> (string, string) fmap \<Rightarrow> NATRule \<Rightarrow> NATProblem list" where
  "validate_nat c zoneIDs zoneHasInterface natIDs natPriorities n =
     (let natType = ToUpper (nat_Type n); protocol = ToLower (nat_Protocol n) in
      err_if (\<not> ValidateIdentifier (nat_ID n)) NATIdentifier
      @ err_if (nat_ID n \<in> set natIDs) NATDuplicate
      @ err_if (natType \<noteq> ''SNAT'' \<and> natType \<noteq> ''MASQUERADE'' \<and> natType \<noteq> ''DNAT'') (NATType (nat_Type n))
      @ err_if (protocol \<noteq> '''' \<and> protocol \<noteq> ''tcp'' \<and> protocol \<noteq> ''udp'' \<and> protocol \<noteq> ''icmp'')
          (NATProtocol (nat_Protocol n))
      @ err_if ((nat_OriginalPort n \<noteq> 0 \<or> nat_TranslatedPort n \<noteq> 0) \<and> protocol \<noteq> ''tcp'' \<and> protocol \<noteq> ''udp'')
          NATPorts
      @ validate_nat_enabled zoneHasInterface natPriorities n
      @ map NATUnknownZone
          (filter (\<lambda>z. z \<noteq> '''' \<and> z \<notin> set zoneIDs) [nat_SourceZone n, nat_DestinationZone n])
      @ err_if (\<not> ValidatePort (nat_OriginalPort n) True) (NATPort (nat_OriginalPort n))
      @ err_if (\<not> ValidatePort (nat_TranslatedPort n) True) (NATPort (nat_TranslatedPort n))
      @ err_if (nat_SourceNetwork n \<noteq> '''' \<and> \<not> validateIPv4CIDR (nat_SourceNetwork n))
          (NATNetwork (nat_SourceNetwork n))
      @ err_if (nat_DestinationNetwork n \<noteq> '''' \<and> \<not> validateIPv4CIDR (nat_DestinationNetwork n))
          (NATNetwork (nat_DestinationNetwork n))
      @ err_if (nat_TranslatedAddress n \<noteq> '''' \<and> \<not> validateIPv4 (nat_TranslatedAddress n))
          (NATAddress (nat_TranslatedAddress n))
      @ validate_nat_translation c n)"

fun validate_nats ::
  "Config \<Rightarrow> string list \<Rightarrow> string list \<Rightarrow> string list \<Rightarrow> (string, string) fmap \<Rightarrow> NATRule list
   \<Rightarrow> ConfigDiagnostic list" where
  "validate_nats c zoneIDs zoneHasInterface natIDs natPriorities [] = []"
| "validate_nats c zoneIDs zoneHasInterface natIDs natPriorities (n # ns) =
     map (InNAT (nat_ID n)) (validate_nat c zoneIDs zoneHasInterface natIDs natPriorities n)
     @ validate_nats c zoneIDs zoneHasInterface (nat_ID n # natIDs)
         (if nat_Enabled n then fmupd (nat_priority_key n) (nat_ID n) natPriorities else natPriorities) ns"

definition nat_binding :: "NATRule \<Rightarrow> string" where
  "nat_binding n =
     join ''|'' [nat_SourceZone n, nat_SourceNetwork n, nat_DestinationNetwork n,
                 ToLower (nat_Protocol n), show_int (nat_OriginalPort n)]"

fun validate_nat_bindings :: "(string, string) fmap \<Rightarrow> NATRule list \<Rightarrow> ConfigDiagnostic list" where
  "validate_nat_bindings natBindings [] = []"
| "validate_nat_bindings natBindings (n # ns) =
     (if \<not> nat_Enabled n \<or> \<not> EqualFold (nat_Type n) ''DNAT'' then validate_nat_bindings natBindings ns
      else
        map (InNAT (nat_ID n)) (taken natBindings (nat_binding n) (DNATBinding (nat_binding n)))
        @ validate_nat_bindings (fmupd (nat_binding n) (nat_ID n) natBindings) ns)"

definition policy_zone :: "string list \<Rightarrow> string list \<Rightarrow> bool \<Rightarrow> string \<Rightarrow> PolicyProblem list" where
  "policy_zone zoneIDs zoneHasInterface enabled z =
     (if z \<notin> set zoneIDs then [PolicyUnknownZone z]
      else err_if (enabled \<and> z \<notin> set zoneHasInterface) (PolicyZoneWithoutInterface z))"

definition risk_outside :: "int option \<Rightarrow> bool" where
  "risk_outside risk = (case risk of None \<Rightarrow> False | Some r \<Rightarrow> r < 0 \<or> r > 100)"

definition validate_policy_item ::
  "string list \<Rightarrow> string list \<Rightarrow> string list \<Rightarrow> (int, string) fmap \<Rightarrow> SecurityPolicy \<Rightarrow> PolicyProblem list" where
  "validate_policy_item zoneIDs zoneHasInterface ids priorities p =
     err_if (\<not> ValidateIdentifier (pol_ID p)) PolicyIdentifier
     @ err_if (pol_ID p \<in> set ids) PolicyDuplicate
     @ taken priorities (pol_Priority p) (PolicyPriorityTaken (pol_Priority p))
     @ err_if (pol_Priority p < 0) PolicyPriority
     @ (if \<not> Decision_Valid (pol_Action p) then [PolicyAction]
        else err_if (pol_Enabled p \<and> pol_Action p \<noteq> DecisionAllow \<and> pol_Action p \<noteq> DecisionDrop
                     \<and> pol_Action p \<noteq> DecisionReject) PolicyActionScope)
     @ err_if (risk_outside (pol_MinimumRisk p)) PolicyMinimumRisk
     @ err_if (risk_outside (pol_MaximumRisk p)) PolicyMaximumRisk
     @ concat (map (policy_zone zoneIDs zoneHasInterface (pol_Enabled p))
         (pol_SourceZones p @ pol_DestinationZones p))
     @ map PolicyAddress (filter (\<lambda>a. \<not> validateIPv4AddressOrCIDR a)
         (pol_SourceAddresses p @ pol_DestinationAddresses p))
     @ map PolicyServiceInvalid (filter (\<lambda>s. \<not> validateM1Service s) (pol_Services p))"

fun validate_policies ::
  "string list \<Rightarrow> string list \<Rightarrow> string list \<Rightarrow> (int, string) fmap \<Rightarrow> SecurityPolicy list
   \<Rightarrow> ConfigDiagnostic list" where
  "validate_policies zoneIDs zoneHasInterface ids priorities [] = []"
| "validate_policies zoneIDs zoneHasInterface ids priorities (p # ps) =
     map (InPolicy (pol_ID p)) (validate_policy_item zoneIDs zoneHasInterface ids priorities p)
     @ validate_policies zoneIDs zoneHasInterface (pol_ID p # ids)
         (fmupd (pol_Priority p) (pol_ID p) priorities) ps"

fun validate_profiles :: "string list \<Rightarrow> SecurityProfile list \<Rightarrow> ConfigDiagnostic list" where
  "validate_profiles profileIDs [] = []"
| "validate_profiles profileIDs (p # ps) =
     map (InProfile (prof_ID p))
       (err_if (\<not> ValidateIdentifier (prof_ID p)) ProfileIdentifier
        @ err_if (prof_ID p \<in> set profileIDs) ProfileDuplicate
        @ err_if (\<not> TLSMode_Valid (prof_TLSMode p)) ProfileTLSMode
        @ err_if (prof_MinimumBlockRisk p < 0 \<or> prof_MinimumBlockRisk p > 100) ProfileBlockRisk
        @ err_if (prof_InspectionFailureAction p \<noteq> '''' \<and> \<not> Decision_Valid (prof_InspectionFailureAction p))
            ProfileFailureAction)
     @ validate_profiles (prof_ID p # profileIDs) ps"

definition resource_limits :: "Config \<Rightarrow> int list" where
  "resource_limits c =
     [cfg_MaxSessions c, cfg_MaxEventsQueue c, cfg_MaxHTTPBodyInspection c, cfg_MaxHTTPHeaderSize c,
      cfg_MaxURLLength c, cfg_MaxMLInputLength c, cfg_MLTimeoutMillis c,
      cfg_RequestInspectionTimeoutMillis c]"

definition Validate :: "Json \<Rightarrow> Config \<Rightarrow> ConfigDiagnostic list" where
  "Validate json c =
     (let zoneIDs = map zone_ID (cfg_Zones c);
          ifaceIDs = map if_ID (cfg_Interfaces c);
          zoneHasInterface = filter (\<lambda>z. z \<noteq> '''') (map if_ZoneID (cfg_Interfaces c));
          profileIDs = map prof_ID (cfg_Profiles c) in
      validate_zones [] (cfg_Zones c)
      @ validate_interfaces zoneIDs [] fmempty (cfg_Interfaces c)
      @ validate_vlans (interfacesByID (cfg_Interfaces c)) fmempty (cfg_Interfaces c)
      @ validate_routes ifaceIDs [] (cfg_Routes c)
      @ validate_nats c zoneIDs zoneHasInterface [] fmempty (cfg_NATRules c)
      @ validate_nat_bindings fmempty (cfg_NATRules c)
      @ validate_policies zoneIDs zoneHasInterface [] fmempty (cfg_Policies c)
      @ validate_profiles [] (cfg_Profiles c)
      @ concat (map (\<lambda>p. map (InPolicy (pol_ID p))
          (err_if (pol_SecurityProfileID p \<noteq> '''' \<and> pol_SecurityProfileID p \<notin> set profileIDs)
            (PolicyUnknownProfile (pol_SecurityProfileID p)))) (cfg_Policies c))
      @ err_if (list_ex (\<lambda>n. n \<le> 0) (resource_limits c)) LimitsNotPositive
      @ map InInspection (ValidateInspection c)
      @ map InRequestGate (ValidateRequestGate json c))"


text \<open>The configuration a gateway without a file starts from is valid.\<close>

lemma Defaults_valid: "Validate json Defaults = []"
  by (simp add: Validate_def Defaults_def ValidateInspection_def ValidateRequestGate_def UsesM4_def
      resource_limits_def)

end
