(* ===== verification/Config_Checks.thy ===== *)
theory Config_Checks
imports Config_Validation
begin

text \<open>
  What validation is worth to the compiler. The validator reads a prefix with \<open>net.ParseCIDR\<close>, which
  accepts a length with leading zeros, the compiler with \<open>netip.ParsePrefix\<close>, which does not; that
  is the only difference between what validates and what compiles.
\<close>

section \<open>The two readings of an address\<close>

definition zero_padded :: "string \<Rightarrow> bool" where
  "zero_padded s =
     (case dropWhile (\<lambda>c. c \<noteq> CHR ''/'') s of
        _ # d # _ # _ \<Rightarrow> d = CHR ''0''
      | _ \<Rightarrow> False)"

lemma dtoi_all:
  assumes "dtoi s = Some (n, length s)"
  shows "s \<noteq> []" "list_all isDigit s" "n = digits_val s" "Atoi s = Some n"
proof -
  have l: "length (takeWhile isDigit s) = length s" using assms by (auto simp: dtoi_def Let_def split: if_splits)
  then have t: "takeWhile isDigit s = s" by (metis takeWhile_eq_take take_all order_refl)
  then show d: "list_all isDigit s" by (metis list_all_iff set_takeWhileD)
  show s: "s \<noteq> []" "n = digits_val s" using assms t by (auto simp: dtoi_def Let_def split: if_splits)
  have "digits_val s < 0xFFFFFF" using assms t by (auto simp: dtoi_def Let_def split: if_splits)
  then show "Atoi s = Some n" using s d by (simp add: Atoi_def ParseInt64_digits)
qed

lemma digit_leading: "isDigit c \<Longrightarrow> byte_of c < 49 \<or> 57 < byte_of c \<longleftrightarrow> c = CHR ''0''"
proof -
  assume "isDigit c"
  then have "byte_of c < 49 \<or> 57 < byte_of c \<longleftrightarrow> byte_of c = byte_of (CHR ''0'')"
    by (auto simp: isDigit_def Let_def)
  then show ?thesis by (simp only: byte_of_inject)
qed

lemma ParseCIDR_Some:
  assumes "ParseCIDR s = Some r"
  obtains ip bits a n where "s = ip @ CHR ''/'' # bits" "CHR ''/'' \<notin> set ip" "ParseAddr ip = Some a"
    "Addr_Zone a = []" "bits \<noteq> []" "list_all isDigit bits" "Atoi bits = Some n" "0 \<le> n" "n \<le> BitLen a"
proof -
  let ?P = "\<lambda>c. c \<noteq> CHR ''/''"
  obtain c bits where d: "dropWhile ?P s = c # bits"
    using assms by (cases "dropWhile ?P s") (auto simp: ParseCIDR_def)
  have c: "c = CHR ''/''" using d dropWhile_eq_Cons_conv [of ?P s c bits] by simp
  obtain a n where a: "ParseAddr (takeWhile ?P s) = Some a" "Addr_Zone a = []" "dtoi bits = Some (n, length bits)"
      "0 \<le> n" "n \<le> BitLen a"
    using assms d by (auto simp: ParseCIDR_def split: option.splits if_splits)
  have "s = takeWhile ?P s @ CHR ''/'' # bits" using takeWhile_dropWhile_id [of ?P s] by (simp add: c d)
  moreover have "CHR ''/'' \<notin> set (takeWhile ?P s)" by (auto dest: set_takeWhileD)
  ultimately show thesis by (rule that [OF _ _ a(1,2) dtoi_all(1,2,4) [OF a(3)] a(4,5)])
qed

lemma ParsePrefix_split:
  assumes "CHR ''/'' \<notin> set bits" "ParseAddr ip = Some a" "Addr_Zone a = []"
  shows "ParsePrefix (ip @ CHR ''/'' # bits) =
    (if 1 < length bits \<and> (byte_of (hd bits) < 49 \<or> 57 < byte_of (hd bits)) then None
     else case Atoi bits of None \<Rightarrow> None
       | Some n \<Rightarrow> if n < 0 \<or> BitLen a < n then None else Some (PrefixFrom a n))"
proof -
  have "takeWhile (\<lambda>c. c \<noteq> CHR ''/'') (rev (ip @ CHR ''/'' # bits)) = rev bits"
    using assms(1) by (auto simp: takeWhile_tail)
  then show ?thesis
    using assms(2,3) ParseAddr_nonzero [OF assms(2)]
    by (cases a) (auto simp: ParsePrefix_def Let_def Is6_def BitLen_def split: option.splits)
qed

lemma no_slash_digits: "list_all isDigit bits \<Longrightarrow> CHR ''/'' \<notin> set bits"
  by (auto simp: list_all_iff isDigit_def Let_def)

lemma address_chars:
  assumes "ParseAddr s = Some a" "Addr_Zone a = []" "c \<in> set s"
  shows "\<not> isSpace c" "c \<noteq> CHR ''/''"
  using ParseAddr_chars [OF assms(1,3)] assms(2) by (auto simp: isHex_def isDigit_def isSpace_def Let_def)

lemma cidr_reading:
  assumes "ParseCIDR s = Some r"
  shows "TrimSpace s = s" "ParsePrefix s = None \<longleftrightarrow> zero_padded s" "ParseAddr s = None"
proof -
  from assms obtain ip bits a n where s: "s = ip @ CHR ''/'' # bits" "CHR ''/'' \<notin> set ip" "ParseAddr ip = Some a"
    "Addr_Zone a = []" "bits \<noteq> []" "list_all isDigit bits" "Atoi bits = Some n" "0 \<le> n" "n \<le> BitLen a"
    by (rule ParseCIDR_Some)
  show "TrimSpace s = s"
    using address_chars(1) [OF s(3,4)] s(6)
    by (intro TrimSpace_id) (auto simp: s(1) list_all_iff isDigit_not_space isSpace_def isDigit_def Let_def)
  have d: "dropWhile (\<lambda>c. c \<noteq> CHR ''/'') s = CHR ''/'' # bits" using s(2) by (auto simp: s(1) dropWhile_append3)
  have z: "zero_padded s \<longleftrightarrow> 1 < length bits \<and> hd bits = CHR ''0''"
    by (auto simp: zero_padded_def d split: list.splits)
  show "ParsePrefix s = None \<longleftrightarrow> zero_padded s"
    using digit_leading [of "hd bits"] s(5,6,8,9)
    by (simp add: s(1) [symmetric] z ParsePrefix_split [OF no_slash_digits [OF s(6)] s(3,4), folded s(1)] s(7) list_all_iff)
  show "ParseAddr s = None"
  proof (rule ccontr)
    assume "ParseAddr s \<noteq> None"
    then obtain b where "ParseAddr s = Some b" by auto
    with ParseAddr_chars [of s b "CHR ''/''"] have "CHR ''%'' \<in> set s"
      by (auto simp: s(1) isHex_def isDigit_def Let_def)
    then show False
      using ParseAddr_chars [OF s(3), of "CHR ''%''"] s(4,6)
      by (auto simp: s(1) isHex_def isDigit_def Let_def list_all_iff)
  qed
qed

lemma validated_address:
  assumes "validateIPv4AddressOrCIDR raw"
  shows "prefixes_of [raw] = None \<longleftrightarrow> zero_padded raw"
proof (cases "CHR ''/'' \<in> set raw")
  case True
  with assms obtain r where r: "ParseCIDR raw = Some r"
    by (auto simp: validateIPv4AddressOrCIDR_def validateIPv4CIDR_def split: option.splits)
  have "raw \<noteq> ''''" using True by auto
  with cidr_reading [OF r] show ?thesis by (auto split: option.splits)
next
  case False
  with assms obtain a where a: "ParseAddr raw = Some a" "Addr_Zone a = []"
    by (auto simp: validateIPv4AddressOrCIDR_def validateIPv4_def ParseIP_def split: option.splits if_splits)
  have "TrimSpace raw = raw" using address_chars(1) [OF a] by (auto intro!: TrimSpace_id simp: list_all_iff)
  moreover have "dropWhile (\<lambda>c. c \<noteq> CHR ''/'') raw = []" using False by (auto simp: dropWhile_eq_Nil_conv)
  then have "\<not> zero_padded raw" by (simp only: zero_padded_def list.case not_False_eq_True)
  ultimately show ?thesis using a(1) by (auto split: option.splits)
qed


section \<open>Validation and compilation\<close>

lemma prefixes_of_None:
  "prefixes_of raws = None \<longleftrightarrow> (\<exists>raw \<in> set raws. prefixes_of [raw] = None)"
proof (induction raws)
  case (Cons raw raws)
  have "prefixes_of (raw # raws) = None \<longleftrightarrow> prefixes_of [raw] = None \<or> prefixes_of raws = None"
    by (auto simp: Let_def split: option.splits)
  with Cons show ?case by auto
qed simp

lemma parseService_total: "validateM1Service raw \<Longrightarrow> parseService raw \<noteq> None"
  using wf_ParseServiceSelector [of raw]
  by (auto simp: validateM1Service_def parseM1ServiceSelector_def parseService_def wf_ServiceSelector_def
      ParseProtocol_def TrimSpace_def isSpace_def ToLower_def lower_char_def split: sum.splits if_splits)

lemma compile_services_total:
  "list_all validateM1Service raws \<Longrightarrow> \<exists>ss. compile_services policy raws = Inr ss"
proof (induction raws)
  case (Cons raw raws)
  then show ?case using parseService_total [of raw] by (auto split: option.splits)
qed simp

lemma validated_rule:
  assumes "validate_policy_item zoneIDs zoneHasInterface ids priorities p = []" "pol_Enabled p"
  shows "(\<exists>r. compile_rule p = Inr r) \<longleftrightarrow>
    (\<forall>raw \<in> set (pol_SourceAddresses p @ pol_DestinationAddresses p). \<not> zero_padded raw)"
proof -
  have action: "pol_Action p = DecisionAllow \<or> pol_Action p = DecisionDrop \<or> pol_Action p = DecisionReject"
    using assms by (auto simp: validate_policy_item_def split: if_splits)
  have addresses: "\<forall>raw \<in> set (pol_SourceAddresses p @ pol_DestinationAddresses p). validateIPv4AddressOrCIDR raw"
    and services: "list_all validateM1Service (pol_Services p)"
    using assms(1) by (auto simp: validate_policy_item_def filter_empty_conv list_all_iff)
  obtain ss where ss: "compile_services (pol_ID p) (pol_Services p) = Inr ss"
    using compile_services_total [OF services] by blast
  have "prefixes_of raws = None \<longleftrightarrow> (\<exists>raw \<in> set raws. zero_padded raw)"
    if "set raws \<subseteq> set (pol_SourceAddresses p @ pol_DestinationAddresses p)" for raws
    using that addresses validated_address unfolding prefixes_of_None [of raws] by blast
  from this [of "pol_SourceAddresses p"] this [of "pol_DestinationAddresses p"]
  have "prefixes_of (pol_SourceAddresses p) \<noteq> None \<and> prefixes_of (pol_DestinationAddresses p) \<noteq> None
      \<longleftrightarrow> (\<forall>raw \<in> set (pol_SourceAddresses p @ pol_DestinationAddresses p). \<not> zero_padded raw)"
    by auto
  moreover have "(\<exists>r. compile_rule p = Inr r) \<longleftrightarrow>
      prefixes_of (pol_SourceAddresses p) \<noteq> None \<and> prefixes_of (pol_DestinationAddresses p) \<noteq> None"
    using action ss by (auto simp: compile_rule_def split: option.splits)
  ultimately show ?thesis by simp
qed

lemma validated_policies:
  assumes "validate_policies zoneIDs zoneHasInterface ids priorities ps = []"
  shows "distinct (map pol_Priority ps) \<and> pol_Priority ` set ps \<inter> fset (fmdom priorities) = {}
    \<and> distinct (map pol_ID ps) \<and> pol_ID ` set ps \<inter> set ids = {}
    \<and> (\<forall>p \<in> set ps. \<exists>ids priorities. validate_policy_item zoneIDs zoneHasInterface ids priorities p = [])"
  using assms
proof (induction ps arbitrary: ids priorities)
  case (Cons p ps)
  have p: "validate_policy_item zoneIDs zoneHasInterface ids priorities p = []"
    and ps: "validate_policies zoneIDs zoneHasInterface (pol_ID p # ids)
      (fmupd (pol_Priority p) (pol_ID p) priorities) ps = []"
    using Cons.prems by auto
  have "taken priorities (pol_Priority p) (PolicyPriorityTaken (pol_Priority p)) = []" "pol_ID p \<notin> set ids"
    using p by (simp_all add: validate_policy_item_def)
  then have "pol_Priority p |\<notin>| fmdom priorities" "pol_ID p \<notin> set ids"
    by (auto simp: taken_def fmdom_notI split: option.splits)
  with Cons.IH [OF ps] p show ?case by auto
qed simp

lemma Compile_Inr_iff:
  "(\<exists>program. Compile c generation = Inr program) \<longleftrightarrow>
     distinct (map pol_Priority (cfg_Policies c))
     \<and> (\<forall>p \<in> set (cfg_Policies c). pol_Enabled p \<longrightarrow> (\<exists>r. compile_rule p = Inr r))"
proof -
  have "(\<exists>program. Compile c generation = Inr program) \<longleftrightarrow>
      (\<exists>rules. compile_rules [] (sort_key pol_Priority (cfg_Policies c)) = Inr rules)"
    by (auto simp: Compile_def Let_def split: sum.splits)
  also have "\<dots> \<longleftrightarrow> distinct (map pol_Priority (sort_key pol_Priority (cfg_Policies c)))
      \<and> (\<exists>rules. map_err compile_rule (filter pol_Enabled (sort_key pol_Priority (cfg_Policies c))) = Inr rules)"
    by (simp add: compile_rules_Inr)
  also have "distinct (map pol_Priority (sort_key pol_Priority (cfg_Policies c)))
      \<longleftrightarrow> distinct (map pol_Priority (cfg_Policies c))"
    by (simp add: distinct_map distinct_sort)
  also have "(\<exists>rules. map_err compile_rule ps = Inr rules) \<longleftrightarrow> (\<forall>p \<in> set ps. \<exists>r. compile_rule p = Inr r)" for ps
    by (induction ps) (auto split: sum.splits)
  finally show ?thesis by auto
qed

text \<open>
  C7: the compiler accepts a validated configuration unless an enabled policy names a prefix whose
  length is written with a leading zero, and rejects it then: no other error of the compiler is left
  after validation, for any generation.
\<close>

theorem validated_config_compiles:
  assumes "Validate json c = []"
  shows "(\<exists>program. Compile c generation = Inr program) \<longleftrightarrow>
    (\<forall>p \<in> set (cfg_Policies c). pol_Enabled p \<longrightarrow>
      (\<forall>raw \<in> set (pol_SourceAddresses p @ pol_DestinationAddresses p). \<not> zero_padded raw))"
proof -
  have "validate_policies (map zone_ID (cfg_Zones c))
      (filter (\<lambda>z. z \<noteq> '''') (map if_ZoneID (cfg_Interfaces c))) [] fmempty (cfg_Policies c) = []"
    using assms by (simp add: Validate_def Let_def)
  note v = validated_policies [OF this]
  note dist = v [THEN conjunct1] and items = v [THEN conjunct2, THEN conjunct2, THEN conjunct2, THEN conjunct2]
  have "(\<exists>r. compile_rule p = Inr r) \<longleftrightarrow>
      (\<forall>raw \<in> set (pol_SourceAddresses p @ pol_DestinationAddresses p). \<not> zero_padded raw)"
    if p: "p \<in> set (cfg_Policies c)" "pol_Enabled p" for p
  proof -
    obtain ids priorities where "validate_policy_item (map zone_ID (cfg_Zones c))
        (filter (\<lambda>z. z \<noteq> '''') (map if_ZoneID (cfg_Interfaces c))) ids priorities p = []"
      using bspec [OF items p(1)] by (elim exE)
    from validated_rule [OF this p(2)] show ?thesis .
  qed
  then show ?thesis using dist by (simp add: Compile_Inr_iff cong: ball_cong)
qed

definition lan_interface :: Interface where
  "lan_interface =
     \<lparr>if_ID = ''lan0'', if_Name = '''', if_SystemName = ''eth1'', if_MACAddress = '''', if_ZoneID = ''LAN'',
      if_Mode = InterfaceL3, if_ParentInterfaceID = '''', if_VLANID = 0, if_IPv4Addresses = [''10.0.0.1/24''],
      if_IPv6Addresses = [], if_MTU = 1500, if_AdminState = True, if_LinkState = '''', if_RxPackets = 0,
      if_TxPackets = 0, if_RxBytes = 0, if_TxBytes = 0\<rparr>"

definition lan_config :: Config where
  "lan_config =
     example_config\<lparr>cfg_Interfaces :=
         [lan_interface, lan_interface\<lparr>if_ID := ''wan0'', if_SystemName := ''eth0'', if_ZoneID := ''WAN'',
            if_IPv4Addresses := [''203.0.113.2/30'']\<rparr>],
       cfg_Zones := [\<lparr>zone_ID = ''LAN'', zone_Name = '''', zone_Description = ''''\<rparr>,
                     \<lparr>zone_ID = ''WAN'', zone_Name = '''', zone_Description = ''''\<rparr>],
       cfg_Routes := [\<lparr>rt_ID = ''default'', rt_DestinationCIDR = ''0.0.0.0/0'', rt_Gateway = ''203.0.113.1'',
         rt_InterfaceID = ''wan0'', rt_Metric = 0, rt_Enabled = True, rt_Description = ''''\<rparr>],
       cfg_NATRules := [\<lparr>nat_ID = ''web'', nat_Name = '''', nat_Type = ''dnat'', nat_SourceZone = ''WAN'',
         nat_DestinationZone = ''LAN'', nat_SourceNetwork = '''', nat_DestinationNetwork = ''203.0.113.2/32'',
         nat_Protocol = ''TCP'', nat_OriginalPort = 443, nat_TranslatedAddress = ''10.0.0.7'',
         nat_TranslatedPort = 8443, nat_Enabled = True, nat_Priority = 1\<rparr>],
       cfg_MaxSessions := 1, cfg_MaxEventsQueue := 1, cfg_MaxHTTPBodyInspection := 1,
       cfg_MaxHTTPHeaderSize := 1, cfg_MaxURLLength := 1, cfg_MaxMLInputLength := 1,
       cfg_MLTimeoutMillis := 1, cfg_RequestInspectionTimeoutMillis := 1\<rparr>"

lemma lan_config_valid: "Validate example_json lan_config = []"
  by code_simp

theorem validated_config_compiles_witness:
  "Validate example_json lan_config = [] \<and> (\<exists>program. Compile lan_config 7 = Inr program)"
proof -
  have "list_all (\<lambda>p. list_all (\<lambda>raw. \<not> zero_padded raw) (pol_SourceAddresses p @ pol_DestinationAddresses p))
      (cfg_Policies lan_config)" by code_simp
  with validated_config_compiles [OF lan_config_valid, of 7] lan_config_valid show ?thesis
    by (simp add: list_all_iff)
qed

text \<open>A configuration that passes validation and that the compiler rejects.\<close>

definition padded_config :: Config where
  "padded_config =
     lan_config\<lparr>cfg_Policies := [example_policy\<lparr>pol_SourceAddresses := [''10.0.0.0/08'']\<rparr>]\<rparr>"

lemma padded_config_rejected:
  "Validate example_json padded_config = [] \<and> Compile padded_config generation = Inl (PolicySourceAddresses ''web'')"
proof
  show "Validate example_json padded_config = []" by code_simp
  have "compile_rules [] (sort_key pol_Priority (cfg_Policies padded_config)) = Inl (PolicySourceAddresses ''web'')"
    by code_simp
  then show "Compile padded_config generation = Inl (PolicySourceAddresses ''web'')"
    by (simp add: Compile_def Let_def)
qed

end
