(* ===== verification/Config_Manager.thy ===== *)
theory Config_Manager
imports Config_Checks
begin

text \<open>
  The manager of the candidate and the running configuration (\<open>internal/config/manager.go\<close>, \<open>editor.go\<close>
  and \<open>file.go\<close>): editing, validation badge, commit and rollback with activation of the data plane,
  persistence and restart. JSON, the hash and the name of the platform are fields of \<open>ConfigEnv\<close>; the
  outcome of each system call is a field of the I/O records; the activation that a commit is given is a
  function on the state of the data plane. A run is a sequence of method calls, each one step. In the
  code \<open>activationMu\<close> orders the commits and rollbacks, but \<open>mu\<close> is released while the activation
  runs, so an edit of the candidate can fall inside a commit; such an edit writes the candidate, its
  badge and its file only, and is not modelled at that point.
\<close>

section \<open>State\<close>

record ConfigVersion =
  cv_Version :: u64
  cv_Author :: string
  cv_Timestamp :: gotime
  cv_Comment :: string
  cv_Checksum :: string

definition ConfigVersionZero :: ConfigVersion where
  "ConfigVersionZero =
     \<lparr>cv_Version = 0, cv_Author = '''', cv_Timestamp = 0, cv_Comment = '''', cv_Checksum = ''''\<rparr>"

record candidateValidation =
  vd_checksum :: string
  vd_valid :: bool
  vd_checked :: bool

definition candidateValidationZero :: candidateValidation where
  "candidateValidationZero = \<lparr>vd_checksum = '''', vd_valid = False, vd_checked = False\<rparr>"

record Manager =
  mg_running :: Config
  mg_candidate :: Config
  mg_version :: ConfigVersion
  mg_previous :: "Config option"
  mg_validation :: candidateValidation
  mg_persistEditor :: bool

text \<open>The contents of \<open>running.json\<close> and of \<open>candidate.json\<close>, and of the directory that holds them.\<close>

record StoredRunning =
  sr_Config :: Config
  sr_Version :: ConfigVersion
  sr_Previous :: "Config option"

record StoredEditor =
  se_SchemaVersion :: int
  se_Running :: "Config option"
  se_Version :: "ConfigVersion option"
  se_Candidate :: "Config option"

record 'p Disk =
  dk_running :: "'p option"
  dk_candidate :: "'p option"

record 'p ConfigEnv =
  ce_json :: Json
  ce_Marshal :: "Config \<Rightarrow> string option"
  ce_Sum256 :: "string \<Rightarrow> u8 list"
  ce_MarshalRunning :: "StoredRunning \<Rightarrow> 'p option"
  ce_UnmarshalRunning :: "'p \<Rightarrow> StoredRunning option"
  ce_UnmarshalFile :: "'p \<Rightarrow> (Config option \<times> ConfigVersion option) option"
  ce_MarshalEditor :: "StoredEditor \<Rightarrow> 'p option"
  ce_UnmarshalEditor :: "'p \<Rightarrow> StoredEditor option"
  ce_GOOS :: string

record PersistIO =
  pio_Open :: bool
  pio_Write :: bool
  pio_Sync :: bool
  pio_Close :: bool
  pio_Rename :: bool
  pio_OpenDir :: bool
  pio_SyncDir :: bool
  pio_Chmod :: bool

datatype PersistError =
    PersistEncode | PersistOpen | PersistWrite | PersistSync | PersistClose | PersistRename
  | PersistOpenDir | PersistSyncDir | PersistChmod

datatype ManagerError =
    VersionConflict u64 u64
  | InvalidCandidate "ConfigDiagnostic list"
  | SemanticErrors "PolicyDiagnostic list"
  | GenerationExhausted
  | ChecksumFailed
  | ActivationFailed
  | PersistFailed PersistError
  | RestoreFailed ManagerError
  | NoPrevious

section \<open>Digests and persistence\<close>

definition checksum :: "'p ConfigEnv \<Rightarrow> Config \<Rightarrow> string option" where
  "checksum env c = map_option (\<lambda>b. EncodeToString (ce_Sum256 env b)) (ce_Marshal env c)"

definition configDigest :: "'p ConfigEnv \<Rightarrow> Config \<Rightarrow> string" where
  "configDigest env c = (case checksum env c of None \<Rightarrow> '''' | Some digest \<Rightarrow> digest)"

definition incrementVersion :: "u64 \<Rightarrow> u64 option" where
  "incrementVersion current = (if current = - 1 then None else Some (current + 1))"

definition persist ::
  "'p ConfigEnv \<Rightarrow> PersistIO \<Rightarrow> Config \<Rightarrow> ConfigVersion \<Rightarrow> Config option \<Rightarrow> 'p Disk
   \<Rightarrow> 'p Disk \<times> PersistError option" where
  "persist env io c v previous disk =
     (case ce_MarshalRunning env \<lparr>sr_Config = c, sr_Version = v, sr_Previous = previous\<rparr> of
        None \<Rightarrow> (disk, Some PersistEncode)
      | Some payload \<Rightarrow>
          if \<not> pio_Open io then (disk, Some PersistOpen)
          else if \<not> pio_Write io then (disk, Some PersistWrite)
          else if \<not> pio_Sync io \<and> ce_GOOS env \<noteq> ''windows'' then (disk, Some PersistSync)
          else if \<not> pio_Close io then (disk, Some PersistClose)
          else if \<not> pio_Rename io then (disk, Some PersistRename)
          else
            let disk = disk\<lparr>dk_running := Some payload\<rparr> in
            if pio_OpenDir io \<and> \<not> pio_SyncDir io \<and> ce_GOOS env \<noteq> ''windows''
            then (disk, Some PersistSyncDir)
            else if \<not> pio_Chmod io then (disk, Some PersistChmod)
            else (disk, None))"

definition persistEditorLocked ::
  "'p ConfigEnv \<Rightarrow> PersistIO \<Rightarrow> Manager \<Rightarrow> Config \<Rightarrow> Config \<Rightarrow> ConfigVersion \<Rightarrow> 'p Disk
   \<Rightarrow> 'p Disk \<times> PersistError option" where
  "persistEditorLocked env io m candidate running version disk =
     (if \<not> mg_persistEditor m then (disk, None)
      else
        (case ce_MarshalEditor env \<lparr>se_SchemaVersion = 1, se_Running = Some running,
                se_Version = Some version, se_Candidate = Some candidate\<rparr> of
           None \<Rightarrow> (disk, Some PersistEncode)
         | Some payload \<Rightarrow>
             if \<not> pio_Open io then (disk, Some PersistOpen)
             else if \<not> pio_Chmod io then (disk, Some PersistChmod)
             else if \<not> pio_Write io then (disk, Some PersistWrite)
             else if \<not> pio_Sync io \<and> ce_GOOS env \<noteq> ''windows'' then (disk, Some PersistSync)
             else if \<not> pio_Close io then (disk, Some PersistClose)
             else if \<not> pio_Rename io then (disk, Some PersistRename)
             else
               let disk = disk\<lparr>dk_candidate := Some payload\<rparr> in
               if \<not> pio_OpenDir io then (disk, Some PersistOpenDir)
               else if \<not> pio_SyncDir io \<and> ce_GOOS env \<noteq> ''windows'' then (disk, Some PersistSyncDir)
               else (disk, None)))"

section \<open>Starting\<close>

datatype LoadError =
    ReadFailed | MkdirFailed | DecodeFailed | RunningInvalid | PreviousInvalid | EnvelopeInvalid
  | BaseInvalid | NotARunningFile | ChecksumMismatch | ConfigInvalid "ConfigDiagnostic list"

text \<open>\<open>readable = False\<close>: reading fails with an error other than that there is no file.\<close>

definition load :: "'p ConfigEnv \<Rightarrow> bool \<Rightarrow> 'p Disk \<Rightarrow> Manager \<Rightarrow> LoadError + Manager" where
  "load env readable disk m =
     (if \<not> readable then Inl ReadFailed
      else
        (case dk_running disk of
           None \<Rightarrow> Inr m
         | Some payload \<Rightarrow>
             (case ce_UnmarshalRunning env payload of
                None \<Rightarrow> Inl DecodeFailed
              | Some v \<Rightarrow>
                  if Validate (ce_json env) (sr_Config v) \<noteq> [] then Inl RunningInvalid
                  else
                    let m = m\<lparr>mg_running := sr_Config v, mg_candidate := sr_Config v,
                              mg_version := sr_Version v\<rparr> in
                    (case sr_Previous v of
                       None \<Rightarrow> Inr m
                     | Some previous \<Rightarrow>
                         if Validate (ce_json env) previous \<noteq> [] then Inl PreviousInvalid
                         else Inr (m\<lparr>mg_previous := Some previous\<rparr>)))))"

definition NewManager :: "'p ConfigEnv \<Rightarrow> bool \<Rightarrow> bool \<Rightarrow> 'p Disk \<Rightarrow> Config \<Rightarrow> LoadError + Manager" where
  "NewManager env mkdir readable disk initial =
     (if \<not> mkdir then Inl MkdirFailed
      else load env readable disk
        \<lparr>mg_running = initial, mg_candidate = initial, mg_version = ConfigVersionZero,
         mg_previous = None, mg_validation = candidateValidationZero, mg_persistEditor = False\<rparr>)"

definition NewEditorManager ::
  "'p ConfigEnv \<Rightarrow> bool \<Rightarrow> bool \<Rightarrow> bool \<Rightarrow> 'p Disk \<Rightarrow> Config \<Rightarrow> LoadError + Manager" where
  "NewEditorManager env mkdir readable editable disk initial =
     (case NewManager env mkdir readable disk initial of
        Inl e \<Rightarrow> Inl e
      | Inr m \<Rightarrow>
          if \<not> editable then Inl ReadFailed
          else
            (case dk_candidate disk of
               None \<Rightarrow> Inr (m\<lparr>mg_persistEditor := True\<rparr>)
             | Some payload \<Rightarrow>
                 (case ce_UnmarshalEditor env payload of
                    None \<Rightarrow> Inl DecodeFailed
                  | Some stored \<Rightarrow>
                      if se_SchemaVersion stored \<noteq> 1 then Inl EnvelopeInvalid
                      else
                        (case (se_Running stored, se_Version stored, se_Candidate stored) of
                           (Some running, Some version, Some candidate) \<Rightarrow>
                             if Validate (ce_json env) running \<noteq> [] then Inl BaseInvalid
                             else Inr (m\<lparr>mg_running := running, mg_version := version,
                                         mg_candidate := candidate, mg_persistEditor := True\<rparr>)
                         | _ \<Rightarrow> Inl EnvelopeInvalid))))"

definition LoadRunningFile ::
  "'p ConfigEnv \<Rightarrow> 'p option \<Rightarrow> LoadError + Config \<times> ConfigVersion" where
  "LoadRunningFile env file =
     (case file of
        None \<Rightarrow> Inl ReadFailed
      | Some payload \<Rightarrow>
          (case ce_UnmarshalFile env payload of
             None \<Rightarrow> Inl DecodeFailed
           | Some (Some c, Some v) \<Rightarrow>
               if Validate (ce_json env) c \<noteq> [] then Inl (ConfigInvalid (Validate (ce_json env) c))
               else if checksum env c = None \<or> cv_Checksum v \<noteq> '''' \<and> checksum env c \<noteq> Some (cv_Checksum v)
               then Inl ChecksumMismatch
               else Inr (c, v)
           | Some _ \<Rightarrow> Inl NotARunningFile))"


definition LoadFile :: "'p ConfigEnv \<Rightarrow> ('p \<Rightarrow> Config option) \<Rightarrow> 'p option \<Rightarrow> LoadError + Config" where
  "LoadFile env unmarshal file =
     (case file of
        None \<Rightarrow> Inl ReadFailed
      | Some payload \<Rightarrow>
          (case unmarshal payload of
             None \<Rightarrow> Inl DecodeFailed
           | Some c \<Rightarrow>
               if Validate (ce_json env) c \<noteq> [] then Inl (ConfigInvalid (Validate (ce_json env) c))
               else Inr c))"

section \<open>Editing\<close>

datatype CandidateProblem =
    NormalizeService string ServiceError
  | PersistCandidate PersistError
  | InvalidConfig ConfigDiagnostic

definition normalize_policy :: "SecurityPolicy \<Rightarrow> ServiceError + SecurityPolicy" where
  "normalize_policy p =
     (case CanonicalServiceList (pol_Services p) of
        Inl e \<Rightarrow> Inl e
      | Inr services \<Rightarrow>
          Inr (p\<lparr>pol_Services := services,
                 pol_SourceZones := canonicalStrings (pol_SourceZones p),
                 pol_DestinationZones := canonicalStrings (pol_DestinationZones p),
                 pol_SourceAddresses := canonicalAddresses (pol_SourceAddresses p),
                 pol_DestinationAddresses := canonicalAddresses (pol_DestinationAddresses p),
                 pol_Applications := canonicalStrings (pol_Applications p)\<rparr>))"

definition normalizeCandidateServices :: "Config \<Rightarrow> Config \<times> CandidateProblem list" where
  "normalizeCandidateServices c =
     (c\<lparr>cfg_Policies :=
          map (\<lambda>p. case normalize_policy p of Inl _ \<Rightarrow> p | Inr q \<Rightarrow> q) (cfg_Policies c)\<rparr>,
      concat (map (\<lambda>p. case normalize_policy p of Inl e \<Rightarrow> [NormalizeService (pol_ID p) e] | Inr _ \<Rightarrow> [])
        (cfg_Policies c)))"

definition SetCandidate ::
  "'p ConfigEnv \<Rightarrow> PersistIO \<Rightarrow> Config \<Rightarrow> Manager \<Rightarrow> 'p Disk \<Rightarrow> Manager \<times> 'p Disk \<times> CandidateProblem list" where
  "SetCandidate env io c m disk =
     (case normalizeCandidateServices c of
        (normalized, normalizationErrors) \<Rightarrow>
          let c = (if normalizationErrors = [] then normalized else c) in
          (case persistEditorLocked env io m c (mg_running m) (mg_version m) disk of
             (disk, Some e) \<Rightarrow> (m, disk, normalizationErrors @ [PersistCandidate e])
           | (disk, None) \<Rightarrow>
               (m\<lparr>mg_candidate := c, mg_validation := candidateValidationZero\<rparr>, disk,
                normalizationErrors @ map InvalidConfig (Validate (ce_json env) c))))"

definition SetCandidateIfValid ::
  "'p ConfigEnv \<Rightarrow> PersistIO \<Rightarrow> Config \<Rightarrow> Manager \<Rightarrow> 'p Disk \<Rightarrow> Manager \<times> 'p Disk \<times> CandidateProblem list" where
  "SetCandidateIfValid env io c m disk =
     (case normalizeCandidateServices c of
        (normalized, normalizationErrors) \<Rightarrow>
          if normalizationErrors \<noteq> [] then (m, disk, normalizationErrors)
          else if Validate (ce_json env) normalized \<noteq> []
          then (m, disk, map InvalidConfig (Validate (ce_json env) normalized))
          else
            (case persistEditorLocked env io m normalized (mg_running m) (mg_version m) disk of
               (disk, Some e) \<Rightarrow> (m, disk, [PersistCandidate e])
             | (disk, None) \<Rightarrow>
                 (m\<lparr>mg_candidate := normalized, mg_validation := candidateValidationZero\<rparr>, disk, [])))"

definition checked_validation :: "'p ConfigEnv \<Rightarrow> Config \<Rightarrow> bool \<Rightarrow> candidateValidation" where
  "checked_validation env c valid =
     \<lparr>vd_checksum = configDigest env c, vd_valid = valid, vd_checked = True\<rparr>"

definition SyncRunning ::
  "'p ConfigEnv \<Rightarrow> PersistIO \<Rightarrow> Config \<Rightarrow> ConfigVersion \<Rightarrow> Manager \<Rightarrow> 'p Disk
   \<Rightarrow> Manager \<times> 'p Disk \<times> PersistError option" where
  "SyncRunning env io c v m disk =
     (let untouched = configDigest env (mg_candidate m) = configDigest env (mg_running m);
          m = m\<lparr>mg_running := c, mg_version := v\<rparr>;
          m = (if untouched then m\<lparr>mg_candidate := c\<rparr> else m);
          m = (if configDigest env (mg_candidate m) = configDigest env c
               then m\<lparr>mg_validation := checked_validation env c True\<rparr> else m) in
      case persistEditorLocked env io m (mg_candidate m) (mg_running m) (mg_version m) disk of
        (disk, err) \<Rightarrow> (m, disk, err))"

definition SyncRollback ::
  "'p ConfigEnv \<Rightarrow> PersistIO \<Rightarrow> Config \<Rightarrow> ConfigVersion \<Rightarrow> Manager \<Rightarrow> 'p Disk
   \<Rightarrow> Manager \<times> 'p Disk \<times> PersistError option" where
  "SyncRollback env io c v m disk =
     (let m = m\<lparr>mg_running := c, mg_candidate := c, mg_version := v,
                mg_validation := checked_validation env c True\<rparr> in
      case persistEditorLocked env io m (mg_candidate m) (mg_running m) (mg_version m) disk of
        (disk, err) \<Rightarrow> (m, disk, err))"

definition MarkCandidateValidation :: "'p ConfigEnv \<Rightarrow> bool \<Rightarrow> Manager \<Rightarrow> Manager" where
  "MarkCandidateValidation env valid m =
     m\<lparr>mg_validation := checked_validation env (mg_candidate m) valid\<rparr>"

definition MarkCandidateValidationFor :: "'p ConfigEnv \<Rightarrow> Config \<Rightarrow> bool \<Rightarrow> Manager \<Rightarrow> Manager \<times> bool" where
  "MarkCandidateValidationFor env candidate valid m =
     (if configDigest env (mg_candidate m) \<noteq> configDigest env candidate then (m, False)
      else (m\<lparr>mg_validation := checked_validation env candidate valid\<rparr>, True))"

definition CandidateValidation :: "'p ConfigEnv \<Rightarrow> Manager \<Rightarrow> string \<times> string \<times> string \<times> bool" where
  "CandidateValidation env m =
     (let candidateChecksum = configDigest env (mg_candidate m);
          checkedChecksum = vd_checksum (mg_validation m) in
      if vd_checked (mg_validation m) \<and> checkedChecksum = candidateChecksum then
        if vd_valid (mg_validation m) then (''VALID'', candidateChecksum, checkedChecksum, True)
        else (''INVALID'', candidateChecksum, checkedChecksum, False)
      else if Validate (ce_json env) (mg_candidate m) \<noteq> []
      then (''INVALID'', candidateChecksum, checkedChecksum, False)
      else if vd_checked (mg_validation m) then (''STALE'', candidateChecksum, checkedChecksum, False)
      else (''NOT_RUN'', candidateChecksum, checkedChecksum, False))"

definition ValidateCandidate :: "'p ConfigEnv \<Rightarrow> Manager \<Rightarrow> ConfigDiagnostic list" where
  "ValidateCandidate env m = Validate (ce_json env) (mg_candidate m)"

section \<open>Activation\<close>

text \<open>
  The \<open>apply\<close> function of a commit, on the state of the data plane; \<open>False\<close> is an error, after
  which that state may be anything.
\<close>

type_synonym 'd apply_fn = "Config \<Rightarrow> u64 \<Rightarrow> 'd \<Rightarrow> 'd \<times> bool"

definition restoreAppliedGeneration ::
  "'d apply_fn \<Rightarrow> Config \<Rightarrow> u64 \<Rightarrow> ManagerError \<Rightarrow> 'd \<Rightarrow> 'd \<times> ManagerError" where
  "restoreAppliedGeneration app previous generation cause d =
     (case app previous generation d of
        (d, True) \<Rightarrow> (d, cause)
      | (d, False) \<Rightarrow> (d, RestoreFailed cause))"

definition commit_errors :: "'p ConfigEnv \<Rightarrow> u64 \<Rightarrow> Manager \<Rightarrow> ManagerError option" where
  "commit_errors env expected m =
     (let candidate = mg_candidate m;
          semanticErrors = ExactDuplicatePolicyErrorsForConfig (ce_json env) candidate
            @ M3UnreachablePolicyErrors candidate in
      if expected \<noteq> cv_Version (mg_version m) then Some (VersionConflict expected (cv_Version (mg_version m)))
      else if Validate (ce_json env) candidate \<noteq> [] then Some (InvalidCandidate (Validate (ce_json env) candidate))
      else if semanticErrors \<noteq> [] then Some (SemanticErrors semanticErrors)
      else None)"

text \<open>
  The part that commit and rollback share: activate the target, persist it, and restore the old
  configuration with the old generation if one of them fails. \<open>app = None\<close> is a nil function.
\<close>

definition activate ::
  "'p ConfigEnv \<Rightarrow> PersistIO \<Rightarrow> 'd apply_fn option \<Rightarrow> Config \<Rightarrow> ConfigVersion \<Rightarrow> Manager \<Rightarrow> 'p Disk \<Rightarrow> 'd
   \<Rightarrow> 'p Disk \<times> 'd \<times> ManagerError option" where
  "activate env io app target v m disk d =
     (case app of
        None \<Rightarrow>
          (case persist env io target v (Some (mg_running m)) disk of
             (disk, err) \<Rightarrow> (disk, d, map_option PersistFailed err))
      | Some f \<Rightarrow>
          (case f target (cv_Version v) d of
             (d, False) \<Rightarrow>
               (case restoreAppliedGeneration f (mg_running m) (cv_Version (mg_version m)) ActivationFailed d of
                  (d, err) \<Rightarrow> (disk, d, Some err))
           | (d, True) \<Rightarrow>
               (case persist env io target v (Some (mg_running m)) disk of
                  (disk, Some err) \<Rightarrow>
                    (case restoreAppliedGeneration f (mg_running m) (cv_Version (mg_version m))
                            (PersistFailed err) d of
                       (d, err) \<Rightarrow> (disk, d, Some err))
                | (disk, None) \<Rightarrow> (disk, d, None))))"


definition Commit ::
  "'p ConfigEnv \<Rightarrow> PersistIO \<Rightarrow> gotime \<Rightarrow> string \<Rightarrow> string \<Rightarrow> u64 \<Rightarrow> Manager \<Rightarrow> 'p Disk
   \<Rightarrow> Manager \<times> 'p Disk \<times> ConfigVersion \<times> ManagerError option" where
  "Commit env io now author comment expected m disk =
     (case commit_errors env expected m of
        Some e \<Rightarrow> (m, disk, mg_version m, Some e)
      | None \<Rightarrow>
          (case incrementVersion (cv_Version (mg_version m)) of
             None \<Rightarrow> (m, disk, mg_version m, Some GenerationExhausted)
           | Some next_version \<Rightarrow>
               (case checksum env (mg_candidate m) of
                  None \<Rightarrow> (m, disk, mg_version m, Some ChecksumFailed)
                | Some digest \<Rightarrow>
                    let v = \<lparr>cv_Version = next_version, cv_Author = author, cv_Timestamp = now,
                             cv_Comment = comment, cv_Checksum = digest\<rparr> in
                    (case persist env io (mg_candidate m) v (Some (mg_running m)) disk of
                       (disk, Some err) \<Rightarrow> (m, disk, mg_version m, Some (PersistFailed err))
                     | (disk, None) \<Rightarrow>
                         (m\<lparr>mg_previous := Some (mg_running m), mg_running := mg_candidate m, mg_version := v,
                            mg_validation := checked_validation env (mg_candidate m) True\<rparr>, disk, v, None)))))"

definition CommitWithGeneration ::
  "'p ConfigEnv \<Rightarrow> PersistIO \<Rightarrow> gotime \<Rightarrow> string \<Rightarrow> string \<Rightarrow> u64 \<Rightarrow> 'd apply_fn option
   \<Rightarrow> Manager \<Rightarrow> 'p Disk \<Rightarrow> 'd \<Rightarrow> Manager \<times> 'p Disk \<times> 'd \<times> ConfigVersion \<times> ManagerError option" where
  "CommitWithGeneration env io now author comment expected app m disk d =
     (case commit_errors env expected m of
        Some e \<Rightarrow> (m, disk, d, mg_version m, Some e)
      | None \<Rightarrow>
          (case incrementVersion (cv_Version (mg_version m)) of
             None \<Rightarrow> (m, disk, d, mg_version m, Some GenerationExhausted)
           | Some next_version \<Rightarrow>
               (case checksum env (mg_candidate m) of
                  None \<Rightarrow> (m, disk, d, mg_version m, Some ChecksumFailed)
                | Some digest \<Rightarrow>
                    let v = \<lparr>cv_Version = next_version, cv_Author = author, cv_Timestamp = now,
                             cv_Comment = comment, cv_Checksum = digest\<rparr> in
                    (case activate env io app (mg_candidate m) v m disk d of
                       (disk, d, Some err) \<Rightarrow> (m, disk, d, mg_version m, Some err)
                     | (disk, d, None) \<Rightarrow>
                         (m\<lparr>mg_previous := Some (mg_running m), mg_running := mg_candidate m, mg_version := v,
                            mg_validation := checked_validation env (mg_candidate m) True\<rparr>, disk, d, v, None)))))"

definition CommitWithApply ::
  "'p ConfigEnv \<Rightarrow> PersistIO \<Rightarrow> gotime \<Rightarrow> string \<Rightarrow> string \<Rightarrow> u64 \<Rightarrow> (Config \<Rightarrow> 'd \<Rightarrow> 'd \<times> bool) option
   \<Rightarrow> Manager \<Rightarrow> 'p Disk \<Rightarrow> 'd \<Rightarrow> Manager \<times> 'p Disk \<times> 'd \<times> ConfigVersion \<times> ManagerError option" where
  "CommitWithApply env io now author comment expected app =
     CommitWithGeneration env io now author comment expected (map_option (\<lambda>f c _. f c) app)"

definition rollbackGenerationLocked ::
  "'p ConfigEnv \<Rightarrow> PersistIO \<Rightarrow> gotime \<Rightarrow> string \<Rightarrow> string \<Rightarrow> 'd apply_fn option
   \<Rightarrow> Manager \<Rightarrow> 'p Disk \<Rightarrow> 'd \<Rightarrow> Manager \<times> 'p Disk \<times> 'd \<times> ConfigVersion \<times> ManagerError option" where
  "rollbackGenerationLocked env io now author comment app m disk d =
     (case mg_previous m of
        None \<Rightarrow> (m, disk, d, mg_version m, Some NoPrevious)
      | Some target \<Rightarrow>
          (case incrementVersion (cv_Version (mg_version m)) of
             None \<Rightarrow> (m, disk, d, mg_version m, Some GenerationExhausted)
           | Some next_version \<Rightarrow>
               (case checksum env target of
                  None \<Rightarrow> (m, disk, d, mg_version m, Some ChecksumFailed)
                | Some digest \<Rightarrow>
                    let v = \<lparr>cv_Version = next_version, cv_Author = author, cv_Timestamp = now,
                             cv_Comment = comment, cv_Checksum = digest\<rparr> in
                    (case activate env io app target v m disk d of
                       (disk, d, Some err) \<Rightarrow> (m, disk, d, mg_version m, Some err)
                     | (disk, d, None) \<Rightarrow>
                         (m\<lparr>mg_previous := Some (mg_running m), mg_running := target, mg_candidate := target,
                            mg_version := v, mg_validation := checked_validation env target True\<rparr>,
                          disk, d, v, None)))))"

definition RollbackWithGeneration ::
  "'p ConfigEnv \<Rightarrow> PersistIO \<Rightarrow> gotime \<Rightarrow> string \<Rightarrow> string \<Rightarrow> 'd apply_fn option
   \<Rightarrow> Manager \<Rightarrow> 'p Disk \<Rightarrow> 'd \<Rightarrow> Manager \<times> 'p Disk \<times> 'd \<times> ConfigVersion \<times> ManagerError option" where
  "RollbackWithGeneration env io now author comment app m disk d =
     rollbackGenerationLocked env io now author comment app m disk d"

definition RollbackWithApply ::
  "'p ConfigEnv \<Rightarrow> PersistIO \<Rightarrow> gotime \<Rightarrow> string \<Rightarrow> string \<Rightarrow> (Config \<Rightarrow> 'd \<Rightarrow> 'd \<times> bool) option
   \<Rightarrow> Manager \<Rightarrow> 'p Disk \<Rightarrow> 'd \<Rightarrow> Manager \<times> 'p Disk \<times> 'd \<times> ConfigVersion \<times> ManagerError option" where
  "RollbackWithApply env io now author comment app =
     RollbackWithGeneration env io now author comment (map_option (\<lambda>f c _. f c) app)"

definition Rollback ::
  "'p ConfigEnv \<Rightarrow> PersistIO \<Rightarrow> gotime \<Rightarrow> string \<Rightarrow> string
   \<Rightarrow> Manager \<Rightarrow> 'p Disk \<Rightarrow> 'd \<Rightarrow> Manager \<times> 'p Disk \<times> 'd \<times> ConfigVersion \<times> ManagerError option" where
  "Rollback env io now author comment m disk d =
     rollbackGenerationLocked env io now author comment None m disk d"

section \<open>Runs\<close>

text \<open>
  The calls of the engine on its manager, with the outcome of their system calls. A run starts with a
  manager, the directory and the state of the data plane, and collects the result of every activation.
\<close>

datatype manager_op =
    OpSet PersistIO Config
  | OpSetIfValid PersistIO Config
  | OpMark bool
  | OpMarkFor Config bool
  | OpCommit PersistIO gotime string string u64
  | OpRollback PersistIO gotime string string

type_synonym ('p, 'd) world = "Manager \<times> 'p Disk \<times> 'd"

fun manager_step ::
  "'p ConfigEnv \<Rightarrow> 'd apply_fn \<Rightarrow> manager_op \<Rightarrow> ('p, 'd) world \<Rightarrow> ('p, 'd) world \<times> ManagerError option list" where
  "manager_step env app (OpSet io c) (m, disk, d) =
     (case SetCandidate env io c m disk of (m, disk, _) \<Rightarrow> ((m, disk, d), []))"
| "manager_step env app (OpSetIfValid io c) (m, disk, d) =
     (case SetCandidateIfValid env io c m disk of (m, disk, _) \<Rightarrow> ((m, disk, d), []))"
| "manager_step env app (OpMark valid) (m, disk, d) = ((MarkCandidateValidation env valid m, disk, d), [])"
| "manager_step env app (OpMarkFor c valid) (m, disk, d) =
     ((fst (MarkCandidateValidationFor env c valid m), disk, d), [])"
| "manager_step env app (OpCommit io now author comment expected) (m, disk, d) =
     (case CommitWithGeneration env io now author comment expected (Some app) m disk d of
        (m, disk, d, _, err) \<Rightarrow> ((m, disk, d), [err]))"
| "manager_step env app (OpRollback io now author comment) (m, disk, d) =
     (case RollbackWithGeneration env io now author comment (Some app) m disk d of
        (m, disk, d, _, err) \<Rightarrow> ((m, disk, d), [err]))"

fun manager_run ::
  "'p ConfigEnv \<Rightarrow> 'd apply_fn \<Rightarrow> manager_op list \<Rightarrow> ('p, 'd) world \<Rightarrow> ('p, 'd) world \<times> ManagerError option list" where
  "manager_run env app [] w = (w, [])"
| "manager_run env app (op # ops) w =
     (case manager_step env app op w of
        (w, results) \<Rightarrow> (case manager_run env app ops w of (w, rest) \<Rightarrow> (w, results @ rest)))"

end
