(* ===== verification/Config_Activation.thy ===== *)
theory Config_Activation
imports Config_Manager
begin

text \<open>
  What runs of the configuration manager keep: the running and the previous configuration are valid,
  the version counts the activations, the data plane holds the running configuration, and a restart
  resumes it. All of it rests on the three outcomes a call can have.
\<close>

section \<open>The outcomes of a call\<close>

definition published :: "'p ConfigEnv \<Rightarrow> Manager \<Rightarrow> Config \<Rightarrow> ConfigVersion \<Rightarrow> Manager \<Rightarrow> bool" where
  "published env m target v m' \<longleftrightarrow>
     mg_running m' = target \<and> mg_candidate m' = target \<and> mg_version m' = v
     \<and> mg_previous m' = Some (mg_running m) \<and> mg_validation m' = checked_validation env target True
     \<and> cv_Version (mg_version m) \<noteq> - 1 \<and> cv_Version v = cv_Version (mg_version m) + 1"

definition same_running :: "Manager \<Rightarrow> Manager \<Rightarrow> bool" where
  "same_running m m' \<longleftrightarrow>
     mg_running m' = mg_running m \<and> mg_version m' = mg_version m \<and> mg_previous m' = mg_previous m"

inductive outcome ::
  "'p ConfigEnv \<Rightarrow> 'd apply_fn \<Rightarrow> ('p, 'd) world \<Rightarrow> ManagerError option list \<Rightarrow> ('p, 'd) world \<Rightarrow> bool"
  for env app where
  kept: "same_running m m' \<Longrightarrow> dk_running disk' = dk_running disk
    \<Longrightarrow> outcome env app (m, disk, d) [] (m', disk', d)"
| refused: "\<forall>e'. e \<noteq> RestoreFailed e' \<Longrightarrow> \<forall>p. e \<noteq> PersistFailed p
    \<Longrightarrow> outcome env app (m, disk, d) [Some e] (m, disk, d)"
| failed: "activate env io (Some app) target v m disk d = (disk', d', Some e)
    \<Longrightarrow> outcome env app (m, disk, d) [Some e] (m, disk', d')"
| succeeded: "activate env io (Some app) target v m disk d = (disk', d', None)
    \<Longrightarrow> published env m target v m'
    \<Longrightarrow> Validate (ce_json env) target = [] \<or> mg_previous m = Some target
    \<Longrightarrow> outcome env app (m, disk, d) [None] (m', disk', d')"

inductive_cases outcome_cases: "outcome env app w results w'"

lemma persistEditorLocked_running:
  "persistEditorLocked env io m c r v disk = (disk', e) \<Longrightarrow> dk_running disk' = dk_running disk"
  by (auto simp: persistEditorLocked_def Let_def split: if_splits option.splits)

lemma incrementVersion_Some: "incrementVersion n = Some k \<longleftrightarrow> n \<noteq> - 1 \<and> k = n + 1"
  by (auto simp: incrementVersion_def)

lemma commit_errors_plain:
  "commit_errors env expected m = Some e \<Longrightarrow> (\<forall>e'. e \<noteq> RestoreFailed e') \<and> (\<forall>p. e \<noteq> PersistFailed p)"
  by (auto simp: commit_errors_def Let_def split: if_splits)

lemma commit_errors_valid: "commit_errors env expected m = None \<Longrightarrow> Validate (ce_json env) (mg_candidate m) = []"
  by (auto simp: commit_errors_def Let_def split: if_splits)

lemma commit_outcome:
  assumes "CommitWithGeneration env io now author comment expected (Some app) m disk d = (m', disk', d', v, err)"
  shows "outcome env app (m, disk, d) [err] (m', disk', d')"
proof (cases "commit_errors env expected m")
  case None
  then show ?thesis
    using assms commit_errors_valid [OF None]
    by (auto simp: CommitWithGeneration_def Let_def incrementVersion_Some published_def
        split: option.splits prod.splits intro: failed succeeded refused)
next
  case (Some e)
  with assms have "m' = m" "disk' = disk" "d' = d" "err = Some e" by (auto simp: CommitWithGeneration_def)
  with commit_errors_plain [OF Some] show ?thesis by (simp add: refused)
qed

lemma rollback_outcome:
  assumes "RollbackWithGeneration env io now author comment (Some app) m disk d = (m', disk', d', v, err)"
  shows "outcome env app (m, disk, d) [err] (m', disk', d')"
  using assms
  by (auto simp: RollbackWithGeneration_def rollbackGenerationLocked_def Let_def incrementVersion_Some published_def
      split: option.splits prod.splits intro: failed succeeded refused)

lemma step_outcome: "manager_step env app op w = (w', results) \<Longrightarrow> outcome env app w results w'"
  by (cases op; cases w)
    (auto simp: SetCandidate_def SetCandidateIfValid_def MarkCandidateValidation_def MarkCandidateValidationFor_def
      same_running_def Let_def split: prod.splits option.splits if_splits
      intro!: kept dest: persistEditorLocked_running commit_outcome rollback_outcome)

lemma run_invariant:
  assumes "manager_run env app ops w = (w', results)" "P w"
    and "\<And>u rs u'. outcome env app u rs u' \<Longrightarrow> P u \<Longrightarrow> set rs \<subseteq> set results \<Longrightarrow> P u'"
  shows "P w'"
  using assms
proof (induction ops arbitrary: w results)
  case (Cons op ops)
  obtain u rs rest where s: "manager_step env app op w = (u, rs)" "manager_run env app ops u = (w', rest)"
    "results = rs @ rest" using Cons.prems(1) by (auto split: prod.splits)
  have "P u" using Cons.prems(3) [OF step_outcome [OF s(1)] Cons.prems(2)] by (simp add: s(3))
  then show ?case
  proof (rule Cons.IH [OF s(2)])
    fix u1 rs1 u2
    assume "outcome env app u1 rs1 u2" "P u1" "set rs1 \<subseteq> set rest"
    then show "P u2" using Cons.prems(3) [of u1 rs1 u2] s(3) by auto
  qed
qed simp


section \<open>What activation does to the data plane and to the file\<close>

text \<open>The contract of the activation: a successful call leaves its arguments in the data plane.\<close>

definition applies :: "'d apply_fn \<Rightarrow> ('d \<Rightarrow> Config \<times> u64) \<Rightarrow> bool" where
  "applies app holds \<longleftrightarrow> (\<forall>c g d d'. app c g d = (d', True) \<longrightarrow> holds d' = (c, g))"

definition aligned :: "('d \<Rightarrow> Config \<times> u64) \<Rightarrow> ('p, 'd) world \<Rightarrow> bool" where
  "aligned holds w \<longleftrightarrow>
     (case w of (m, disk, d) \<Rightarrow> holds d = (mg_running m, cv_Version (mg_version m)))"

fun restore_failed :: "ManagerError option \<Rightarrow> bool" where
  "restore_failed (Some (RestoreFailed _)) = True"
| "restore_failed _ = False"

text \<open>An error of persistence after the file has been renamed.\<close>

fun after_rename :: "ManagerError option \<Rightarrow> bool" where
  "after_rename (Some (PersistFailed e)) = (e = PersistSyncDir \<or> e = PersistChmod)"
| "after_rename (Some (RestoreFailed e)) = after_rename (Some e)"
| "after_rename _ = False"

lemma activate_aligned:
  assumes "applies app holds" "activate env io (Some app) target v m disk d = (disk', d', err)"
  shows "err = None \<Longrightarrow> holds d' = (target, cv_Version v)"
    and "err \<noteq> None \<Longrightarrow> \<not> restore_failed err \<Longrightarrow> holds d' = (mg_running m, cv_Version (mg_version m))"
  using assms
  by (auto simp: activate_def applies_def restoreAppliedGeneration_def
      split: prod.splits bool.splits option.splits)

lemma persist_file:
  assumes "persist env io target v previous disk = (disk', err)"
  shows "err = None \<or> err = Some PersistSyncDir \<or> err = Some PersistChmod \<Longrightarrow>
      \<exists>payload. ce_MarshalRunning env \<lparr>sr_Config = target, sr_Version = v, sr_Previous = previous\<rparr> = Some payload
        \<and> dk_running disk' = Some payload"
    and "err \<noteq> None \<Longrightarrow> err \<noteq> Some PersistSyncDir \<Longrightarrow> err \<noteq> Some PersistChmod \<Longrightarrow> disk' = disk"
  using assms by (auto simp: persist_def Let_def split: option.splits if_splits)

lemma activate_file:
  assumes "activate env io (Some app) target v m disk d = (disk', d', err)"
  shows "err = None \<or> after_rename err \<Longrightarrow>
      \<exists>payload. ce_MarshalRunning env \<lparr>sr_Config = target, sr_Version = v, sr_Previous = Some (mg_running m)\<rparr>
          = Some payload \<and> dk_running disk' = Some payload"
    and "err \<noteq> None \<Longrightarrow> \<not> after_rename err \<Longrightarrow> disk' = disk"
  using assms
  by (auto simp: activate_def restoreAppliedGeneration_def
      split: prod.splits bool.splits option.splits dest: persist_file)

section \<open>Invariants of runs\<close>

definition valid_world :: "'p ConfigEnv \<Rightarrow> ('p, 'd) world \<Rightarrow> bool" where
  "valid_world env w \<longleftrightarrow>
     (case w of (m, disk, d) \<Rightarrow>
        Validate (ce_json env) (mg_running m) = []
        \<and> (\<forall>previous. mg_previous m = Some previous \<longrightarrow> Validate (ce_json env) previous = []))"

lemma outcome_valid: "outcome env app w results w' \<Longrightarrow> valid_world env w \<Longrightarrow> valid_world env w'"
  by (elim outcome_cases) (auto simp: valid_world_def same_running_def published_def)

lemma outcome_aligned:
  assumes "applies app holds" "outcome env app w results w'" "aligned holds w" "\<forall>r\<in>set results. \<not> restore_failed r"
  shows "aligned holds w'"
  using assms(2-4)
  by (elim outcome_cases)
    (auto simp: aligned_def same_running_def published_def activate_aligned [OF assms(1)])

definition version_of :: "('p, 'd) world \<Rightarrow> nat" where
  "version_of w = unat (cv_Version (mg_version (fst w)))"

lemma unat_succ: "n \<noteq> - 1 \<Longrightarrow> unat (n + 1) = Suc (unat n)" for n :: "'a::len word"
  by (metis add.commute eq_neg_iff_add_eq_0 unatSuc)

lemma outcome_version:
  "outcome env app w results w' \<Longrightarrow> version_of w' = version_of w + length (filter (\<lambda>r. r = None) results)"
  by (elim outcome_cases) (auto simp: version_of_def same_running_def published_def unat_succ)

lemma run_version:
  "manager_run env app ops w = (w', results)
   \<Longrightarrow> version_of w' = version_of w + length (filter (\<lambda>r. r = None) results)"
proof (induction ops arbitrary: w results)
  case (Cons op ops)
  obtain u rs rest where s: "manager_step env app op w = (u, rs)" "manager_run env app ops u = (w', rest)"
    "results = rs @ rest" using Cons.prems by (auto split: prod.splits)
  with Cons.IH [OF s(2)] outcome_version [OF step_outcome [OF s(1)]] show ?case by simp
qed simp


section \<open>Restart\<close>

text \<open>
  What \<open>encoding/json\<close> documents for text that is valid UTF-8: what was written is read back. Invalid
  bytes would be replaced, so the property is about configurations whose strings are such text.
\<close>

definition json_faithful :: "'p ConfigEnv \<Rightarrow> bool" where
  "json_faithful env \<longleftrightarrow>
     (\<forall>stored payload. ce_MarshalRunning env stored = Some payload \<longrightarrow> ce_UnmarshalRunning env payload = Some stored)"

definition resumes :: "'p ConfigEnv \<Rightarrow> Config \<Rightarrow> ('p, 'd) world \<Rightarrow> bool" where
  "resumes env initial w \<longleftrightarrow>
     (case w of (m, disk, d) \<Rightarrow>
        \<exists>m'. NewManager env True True disk initial = Inr m' \<and> same_running m m' \<and> mg_candidate m' = mg_running m)"

lemma NewManager_stored:
  assumes "json_faithful env" "ce_MarshalRunning env \<lparr>sr_Config = c, sr_Version = v, sr_Previous = Some p\<rparr> = Some payload"
    and "dk_running disk = Some payload" "Validate (ce_json env) c = []" "Validate (ce_json env) p = []"
  obtains m where "NewManager env True True disk initial = Inr m" "mg_running m = c" "mg_candidate m = c"
    "mg_version m = v" "mg_previous m = Some p"
  using assms by (simp add: NewManager_def load_def json_faithful_def Let_def)

lemma NewManager_cong: "dk_running disk = dk_running disk' \<Longrightarrow> NewManager env a b disk i = NewManager env a b disk' i"
  by (simp add: NewManager_def load_def)

lemma outcome_resumes:
  assumes "json_faithful env" "outcome env app w results w'" "resumes env initial w" "valid_world env w"
    and "\<forall>r\<in>set results. \<not> after_rename r"
  shows "resumes env initial w'"
  using assms(2)
proof cases
  case (kept m m' disk' disk d)
  then show ?thesis
    using assms(3) NewManager_cong [of disk' disk env True True initial] by (auto simp: resumes_def same_running_def)
next
  case (failed io target v m disk d disk' d' e)
  then have "disk' = disk" using activate_file(2) [of env io app target v m disk d disk' d' "Some e"] assms(5) by auto
  with failed assms(3) show ?thesis by (simp add: resumes_def)
next
  case (succeeded io target v m disk d disk' d' m')
  obtain payload where p: "ce_MarshalRunning env \<lparr>sr_Config = target, sr_Version = v, sr_Previous = Some (mg_running m)\<rparr>
      = Some payload" "dk_running disk' = Some payload"
    using activate_file(1) [OF succeeded(4)] by auto
  have "Validate (ce_json env) target = []" "Validate (ce_json env) (mg_running m) = []"
    using succeeded(1,6) assms(4) by (auto simp: valid_world_def)
  from NewManager_stored [OF assms(1) p this, of initial] obtain r where
    "NewManager env True True disk' initial = Inr r" "mg_running r = target" "mg_candidate r = target"
    "mg_version r = v" "mg_previous r = Some (mg_running m)" .
  with succeeded show ?thesis by (auto simp: resumes_def same_running_def published_def)
qed (use assms(3) in simp)

lemma NewManager_valid:
  assumes "NewManager env mkdir readable disk initial = Inr m" "Validate (ce_json env) initial = []"
  shows "valid_world env (m, disk, d)"
  using assms by (auto simp: NewManager_def load_def valid_world_def Let_def split: if_splits option.splits)

section \<open>The validation badge\<close>

text \<open>
  A result is recorded for the configuration it was computed for, and only a valid one is recorded as
  valid; the API records results only in this way.
\<close>

definition honest :: "'p ConfigEnv \<Rightarrow> manager_op \<Rightarrow> bool" where
  "honest env op =
     (case op of
        OpMark valid \<Rightarrow> \<not> valid
      | OpMarkFor c valid \<Rightarrow> valid \<longrightarrow> Validate (ce_json env) c = []
      | _ \<Rightarrow> True)"

definition badge_honest :: "'p ConfigEnv \<Rightarrow> Manager \<Rightarrow> bool" where
  "badge_honest env m \<longleftrightarrow>
     (vd_checked (mg_validation m) \<and> vd_valid (mg_validation m) \<longrightarrow>
       (\<exists>c. Validate (ce_json env) c = [] \<and> vd_checksum (mg_validation m) = configDigest env c))"

lemma badge_checked: "Validate (ce_json env) c = [] \<or> \<not> valid \<Longrightarrow> mg_validation m = checked_validation env c valid
    \<Longrightarrow> badge_honest env m"
  by (auto simp: badge_honest_def checked_validation_def)

lemma outcome_badge:
  assumes "outcome env app (m, disk, d) [r] (m', disk', d')" "valid_world env (m, disk, d)" "badge_honest env m"
  shows "badge_honest env m'"
  using assms by (elim outcome_cases) (auto simp: published_def valid_world_def intro: badge_checked)

lemma step_badge:
  assumes "manager_step env app op (m, disk, d) = ((m', disk', d'), rs)" "honest env op"
    and "valid_world env (m, disk, d)" "badge_honest env m"
  shows "badge_honest env m'"
proof (cases op)
  case (OpMarkFor c valid)
  with assms show ?thesis
    by (auto simp: honest_def MarkCandidateValidationFor_def badge_honest_def checked_validation_def split: if_splits)
next
  case (OpMark valid)
  with assms show ?thesis by (auto simp: honest_def MarkCandidateValidation_def badge_honest_def checked_validation_def)
next
  case (OpCommit io now author comment expected)
  with assms(1) obtain r where "outcome env app (m, disk, d) [r] (m', disk', d')"
    by (auto split: prod.splits dest: commit_outcome)
  then show ?thesis by (rule outcome_badge [OF _ assms(3,4)])
next
  case (OpRollback io now author comment)
  with assms(1) obtain r where "outcome env app (m, disk, d) [r] (m', disk', d')"
    by (auto split: prod.splits dest: rollback_outcome)
  then show ?thesis by (rule outcome_badge [OF _ assms(3,4)])
qed (use assms in \<open>auto simp: SetCandidate_def SetCandidateIfValid_def Let_def badge_honest_def
       candidateValidationZero_def split: prod.splits option.splits if_splits\<close>)

lemma valid_badge_has_valid_digest:
  assumes "badge_honest env m" "fst (CandidateValidation env m) = ''VALID''"
  shows "\<exists>c. Validate (ce_json env) c = [] \<and> configDigest env (mg_candidate m) = configDigest env c"
  using assms by (auto simp: CandidateValidation_def badge_honest_def Let_def split: if_splits)

section \<open>Properties\<close>

text \<open>
  C4: commits and rollbacks are transactions over the manager and the data plane. Whatever calls are
  made and whichever of their system calls fail, the running and the previous configuration stay
  valid, the version has grown by exactly the number of successful activations, without wrapping
  around, and the data plane holds the running configuration with its version, unless the
  restoration of the old configuration has failed and was reported.
\<close>

theorem activations_are_transactional:
  assumes "applies app holds" "manager_run env app ops w = (w', results)"
    and "valid_world env w" "aligned holds w"
  shows "valid_world env w'
    \<and> version_of w' = version_of w + length (filter (\<lambda>r. r = None) results)
    \<and> ((\<forall>r\<in>set results. \<not> restore_failed r) \<longrightarrow> aligned holds w')"
proof (intro conjI impI)
  show "valid_world env w'" by (rule run_invariant [where P = "valid_world env", OF assms(2,3)]) (rule outcome_valid)
  show "version_of w' = version_of w + length (filter (\<lambda>r. r = None) results)" by (rule run_version [OF assms(2)])
  assume "\<forall>r\<in>set results. \<not> restore_failed r"
  then show "aligned holds w'"
    by (intro run_invariant [where P = "aligned holds", OF assms(2,4)]) (auto intro: outcome_aligned [OF assms(1)])
qed

text \<open>
  C11: a restart resumes what was running. If the file can be read back as it was written, and no call
  failed after the new file was in place, a manager that starts on the directory has the running
  configuration, the version and the previous configuration of the one that stopped, and its
  candidate is the running configuration.
\<close>

theorem restart_resumes_running:
  assumes "json_faithful env" "Validate (ce_json env) initial = []"
    and "NewManager env True True disk initial = Inr m"
    and "manager_run env app ops (m, disk, d) = ((m', disk', d'), results)"
    and "\<forall>r\<in>set results. \<not> after_rename r"
  shows "\<exists>r. NewManager env True True disk' initial = Inr r
    \<and> mg_running r = mg_running m' \<and> mg_version r = mg_version m' \<and> mg_previous r = mg_previous m'
    \<and> mg_candidate r = mg_running m'"
proof -
  have start: "mg_candidate m = mg_running m"
    using assms(3) by (auto simp: NewManager_def load_def Let_def split: if_splits option.splits)
  have "valid_world env (m', disk', d') \<and> resumes env initial (m', disk', d')"
  proof (rule run_invariant [where P = "\<lambda>w. valid_world env w \<and> resumes env initial w", OF assms(4)])
    show "valid_world env (m, disk, d) \<and> resumes env initial (m, disk, d)"
      using NewManager_valid [OF assms(3,2)] assms(3) start by (simp add: resumes_def same_running_def)
  qed (use assms(5) outcome_valid outcome_resumes [OF assms(1)] in blast)
  then show ?thesis by (simp add: resumes_def same_running_def)
qed

text \<open>
  The exception is real: when synchronising the directory or changing the mode of the file fails, the
  commit is reported as failed and the old configuration stays in place, and a restart runs the
  rejected one.
\<close>

lemma failed_commit_runs_after_restart:
  assumes "json_faithful env" "valid_world env (m, disk, d)"
    and "CommitWithGeneration env io now author comment expected (Some app) m disk d = (m', disk', d', v, err)"
    and "after_rename err"
  shows "m' = m \<and> v = mg_version m
    \<and> (\<exists>r. NewManager env True True disk' initial = Inr r \<and> mg_running r = mg_candidate m
        \<and> cv_Version (mg_version r) = cv_Version (mg_version m) + 1)"
proof -
  have none: "commit_errors env expected m = None"
    using assms(3,4) commit_errors_plain [of env expected m]
    by (cases "commit_errors env expected m") (auto simp: CommitWithGeneration_def elim: after_rename.elims)
  obtain n digest where n: "incrementVersion (cv_Version (mg_version m)) = Some n" "checksum env (mg_candidate m) = Some digest"
    using assms(3,4) none
    by (cases "incrementVersion (cv_Version (mg_version m))"; cases "checksum env (mg_candidate m)")
      (auto simp: CommitWithGeneration_def)
  define w where "w = \<lparr>cv_Version = n, cv_Author = author, cv_Timestamp = now, cv_Comment = comment, cv_Checksum = digest\<rparr>"
  have w: "activate env io (Some app) (mg_candidate m) w m disk d = (disk', d', err)"
      "cv_Version w = cv_Version (mg_version m) + 1" "m' = m" "v = mg_version m"
    using assms(3,4) none n
    by (auto simp: CommitWithGeneration_def Let_def w_def incrementVersion_Some split: prod.splits option.splits)
  obtain payload where p: "ce_MarshalRunning env \<lparr>sr_Config = mg_candidate m, sr_Version = w,
      sr_Previous = Some (mg_running m)\<rparr> = Some payload" "dk_running disk' = Some payload"
    using activate_file(1) [OF w(1)] assms(4) by auto
  have "Validate (ce_json env) (mg_running m) = []" using assms(2) by (simp add: valid_world_def)
  from NewManager_stored [OF assms(1) p commit_errors_valid [OF none] this, of initial] w(2-4)
  show ?thesis by metis
qed


section \<open>Examples\<close>

text \<open>
  A run over the valid configurations of the previous theories: an edit, a commit that cannot rename
  the file, a commit, a stale commit, and a rollback.
\<close>

definition example_config_env :: "StoredRunning ConfigEnv" where
  "example_config_env =
     \<lparr>ce_json = example_json, ce_Marshal = \<lambda>_. Some '''', ce_Sum256 = \<lambda>_. [1],
      ce_MarshalRunning = Some, ce_UnmarshalRunning = Some,
      ce_UnmarshalFile = \<lambda>s. Some (Some (sr_Config s), Some (sr_Version s)),
      ce_MarshalEditor = \<lambda>_. None, ce_UnmarshalEditor = \<lambda>_. None, ce_GOOS = ''linux''\<rparr>"

definition good_io :: PersistIO where
  "good_io =
     \<lparr>pio_Open = True, pio_Write = True, pio_Sync = True, pio_Close = True, pio_Rename = True,
      pio_OpenDir = True, pio_SyncDir = True, pio_Chmod = True\<rparr>"

definition smaller_config :: Config where
  "smaller_config =
     lan_config\<lparr>cfg_Interfaces := map (\<lambda>i. i\<lparr>if_ZoneID := ToLower (if_ZoneID i)\<rparr>) (cfg_Interfaces lan_config),
       cfg_Zones := map (\<lambda>z. z\<lparr>zone_ID := ToLower (zone_ID z)\<rparr>) (cfg_Zones lan_config),
       cfg_NATRules := [], cfg_Policies := [example_policy]\<rparr>"

definition example_manager :: Manager where
  "example_manager =
     \<lparr>mg_running = lan_config, mg_candidate = lan_config, mg_version = ConfigVersionZero,
      mg_previous = None, mg_validation = candidateValidationZero, mg_persistEditor = False\<rparr>"

definition empty_disk :: "StoredRunning Disk" where
  "empty_disk = \<lparr>dk_running = None, dk_candidate = None\<rparr>"

definition example_apply :: "(Config \<times> u64) apply_fn" where
  "example_apply c g d = ((c, g), True)"

definition example_manager_ops :: "manager_op list" where
  "example_manager_ops =
     [OpSet good_io smaller_config, OpCommit (good_io\<lparr>pio_Rename := False\<rparr>) 1 ''a'' '''' 0,
      OpCommit good_io 2 ''a'' '''' 0, OpCommit good_io 3 ''b'' '''' 0, OpRollback good_io 4 ''b'' '''']"

definition example_manager_run ::
  "(StoredRunning, Config \<times> u64) world \<times> ManagerError option list" where
  "example_manager_run =
     manager_run example_config_env example_apply example_manager_ops (example_manager, empty_disk, (lan_config, 0))"

lemma example_starts: "NewManager example_config_env True True empty_disk lan_config = Inr example_manager"
  by (simp add: NewManager_def load_def empty_disk_def example_manager_def)

lemma example_results:
  "snd example_manager_run =
     [Some (PersistFailed PersistRename), None, Some (VersionConflict 0 1), None]"
  by code_simp

lemma example_env_facts:
  "json_faithful example_config_env" "Validate (ce_json example_config_env) lan_config = []"
  "applies example_apply id" "aligned id (example_manager, empty_disk, (lan_config, 0))"
  using lan_config_valid
  by (simp_all add: json_faithful_def example_config_env_def applies_def example_apply_def aligned_def
      example_manager_def ConfigVersionZero_def)

theorem activations_are_transactional_witness:
  "version_of (fst example_manager_run) = 2 \<and> aligned id (fst example_manager_run)"
proof -
  obtain w results where run: "example_manager_run = (w, results)" by fastforce
  note t = activations_are_transactional [OF example_env_facts(3) run [unfolded example_manager_run_def]
      NewManager_valid [OF example_starts example_env_facts(2)] example_env_facts(4)]
  have "results = [Some (PersistFailed PersistRename), None, Some (VersionConflict 0 1), None]"
    using example_results unfolding run snd_conv .
  with t show ?thesis unfolding run by (simp add: version_of_def example_manager_def ConfigVersionZero_def)
qed

theorem restart_resumes_running_witness:
  "snd example_manager_run = [Some (PersistFailed PersistRename), None, Some (VersionConflict 0 1), None]
   \<and> (\<exists>r. NewManager example_config_env True True (fst (snd (fst example_manager_run))) lan_config = Inr r
        \<and> mg_version r = mg_version (fst (fst example_manager_run))
        \<and> mg_running r = mg_running (fst (fst example_manager_run)))"
proof -
  obtain m disk d results where run: "example_manager_run = ((m, disk, d), results)" by (metis prod_cases3 surj_pair)
  have "results = [Some (PersistFailed PersistRename), None, Some (VersionConflict 0 1), None]"
    using example_results unfolding run snd_conv .
  with restart_resumes_running [OF example_env_facts(1,2) example_starts run [unfolded example_manager_run_def]]
  show ?thesis unfolding run by auto
qed


end
