(* ===== verification/Policy_Duplicates.thy ===== *)
theory Policy_Duplicates
imports Gate_Config
begin

text \<open>
  Policies with equal effective keys select the same traffic, so the policies that
  \<open>exactDuplicatePolicyErrors\<close> reports never decide a packet.
\<close>

section \<open>Equal keys select the same traffic\<close>

lemma set_canonicalStrings: "set (canonicalStrings raws) = fset (stringSet raws)"
  by (auto simp: canonicalStrings_def stringSet_def fset_of_list.rep_eq)

lemma canonicalAddress_prefix:
  assumes "(case ParseAddr (TrimSpace raw) of
              Some addr \<Rightarrow> Some (PrefixFrom addr (if Is4 addr then 32 else 128))
            | None \<Rightarrow> map_option Masked (ParsePrefix (TrimSpace raw))) = Some p"
  shows "canonicalAddress raw = Prefix_String p" "wf_Prefix p"
proof -
  have "canonicalAddress raw = Prefix_String p \<and> wf_Prefix p"
  proof (cases "ParsePrefix (TrimSpace raw)")
    case (Some q)
    with assms ParsePrefix_not_addr [OF Some] show ?thesis
      by (auto simp: canonicalAddress_def Let_def intro: wf_Masked wf_ParsePrefix)
  next
    case None
    with assms obtain a where "ParseAddr (TrimSpace raw) = Some a" "p = PrefixFrom a (BitLen a)"
      by (auto simp: BitLen_eq dest: ParseAddr_nonzero split: option.splits if_splits)
    with None show ?thesis by (simp add: canonicalAddress_def wf_prefix_of_addr)
  qed
  then show "canonicalAddress raw = Prefix_String p" "wf_Prefix p" by auto
qed

lemma Prefix_String_not_Nil: "wf_Prefix p \<Longrightarrow> Prefix_String p \<noteq> []"
  by (auto simp: Prefix_String_def)

lemma canonicalAddress_blank: "TrimSpace raw = '''' \<Longrightarrow> canonicalAddress raw = ''''"
  by (simp add: canonicalAddress_def)

lemma set_canonicalAddresses:
  assumes "prefixes_of raws = Some ps"
  shows "set (canonicalAddresses raws) = Prefix_String ` set ps" "\<forall>p \<in> set ps. wf_Prefix p"
proof -
  have "filter (\<lambda>v. v \<noteq> '''') (map canonicalAddress raws) = map Prefix_String ps \<and> (\<forall>p \<in> set ps. wf_Prefix p)"
    using assms
  proof (induction raws arbitrary: ps)
    case (Cons raw raws)
    show ?case
    proof (cases "TrimSpace raw = ''''")
      case True
      with Cons show ?thesis by (simp add: canonicalAddress_blank)
    next
      case False
      with Cons.prems obtain p qs where p: "ps = p # qs" "prefixes_of raws = Some qs"
          "(case ParseAddr (TrimSpace raw) of
              Some addr \<Rightarrow> Some (PrefixFrom addr (if Is4 addr then 32 else 128))
            | None \<Rightarrow> map_option Masked (ParsePrefix (TrimSpace raw))) = Some p"
        by (auto simp: Let_def split: option.splits)
      note c = canonicalAddress_prefix [OF p(3)]
      show ?thesis
        using Cons.IH [OF p(2)] c Prefix_String_not_Nil [OF c(2)] by (simp add: p(1))
    qed
  qed simp
  then show "set (canonicalAddresses raws) = Prefix_String ` set ps" "\<forall>p \<in> set ps. wf_Prefix p"
    by (simp_all add: canonicalAddresses_def)
qed

lemma addr_selected_eq:
  assumes "prefixes_of raws = Some ps" "prefixes_of raws' = Some ps'"
    "canonicalAddresses raws = canonicalAddresses raws'"
  shows "addr_selected raws addr = addr_selected raws' addr"
proof -
  note s = set_canonicalAddresses [OF assms(1)] and s' = set_canonicalAddresses [OF assms(2)]
  have "Prefix_String ` set ps = Prefix_String ` set ps'" using s(1) s'(1) assms(3) by simp
  moreover have "inj_on Prefix_String (set ps \<union> set ps')"
    using s(2) s'(2) by (auto intro!: inj_onI simp: Prefix_String_inject)
  ultimately have "set ps = set ps'" by (metis inj_on_Un_image_eq_iff)
  then have "addressMatch ps addr = addressMatch ps' addr"
    by (auto simp: addressMatch_def list_ex_iff)
  then show ?thesis
    using prefixes_of_selected [OF assms(1)] prefixes_of_selected [OF assms(2)] by simp
qed

lemma zone_selected_eq:
  "canonicalStrings raws = canonicalStrings raws' \<Longrightarrow> zone_selected raws zone = zone_selected raws' zone"
proof -
  assume "canonicalStrings raws = canonicalStrings raws'"
  then have "stringSet raws = stringSet raws'" using set_canonicalStrings by (metis fset_inject)
  then show ?thesis by (simp flip: stringSet_selected)
qed

lemma service_selected_denote:
  assumes "denote_services raws = Inr A"
  shows "service_selected raws view \<longleftrightarrow>
    A = {} \<or> (\<exists>s \<in> A. ParseProtocol (sel_Protocol s) = (v_Protocol view, True)
      \<and> (sel_AllPorts s \<or> sel_First s \<le> v_DestinationPort view \<and> v_DestinationPort view \<le> sel_Last s))"
proof -
  obtain ss where ss: "map_err parseService_item raws = Inr ss" "A = set ss"
    using assms by (cases "map_err parseService_item raws") (auto simp: denote_services_def)
  have item: "parseService_item raw = Inr s \<longleftrightarrow> ParseServiceSelector raw = Inr s" for raw s
    by (auto simp: parseService_item_def ParseServiceSelector_def Let_def)
  show ?thesis
    using map_err_set [OF ss(1)] map_err_Nil_iff [OF ss(1)]
    by (auto simp: service_selected_def ss(2) item)
qed

lemma service_selected_eq:
  assumes "CanonicalServiceList raws = Inr ss" "CanonicalServiceList raws' = Inr ss"
  shows "service_selected raws view = service_selected raws' view"
proof -
  obtain A where "denote_services raws = Inr A" using services.canon_total assms(1) by blast
  moreover from this have "denote_services raws' = Inr A"
    using services.canon_denote [OF assms(1)] services.canon_denote [OF assms(2)] by simp
  ultimately show ?thesis by (simp add: service_selected_denote)
qed

lemma effective_key_fields:
  assumes "effective_key json c policy = Inr k"
  obtains services where "CanonicalServiceList (pol_Services policy) = Inr services" "ek_Services k = services"
    "ek_Enabled k = pol_Enabled policy"
    "ek_SourceZones k = canonicalStrings (pol_SourceZones policy)"
    "ek_DestinationZones k = canonicalStrings (pol_DestinationZones policy)"
    "ek_SourceAddresses k = canonicalAddresses (pol_SourceAddresses policy)"
    "ek_DestinationAddresses k = canonicalAddresses (pol_DestinationAddresses policy)"
proof -
  obtain services where s: "CanonicalServiceList (pol_Services policy) = Inr services"
    using assms by (auto simp: effective_key_def split: sum.splits)
  have "\<exists>sem prof. k = (policy_key_value policy services)
      \<lparr>ek_ProfileSemantics := sem, ek_SecurityProfileID := prof\<rparr>"
    using assms s
    by (auto simp: effective_key_def policy_key_value_def Let_def split: option.splits if_splits sum.splits)
  then show thesis using that [OF s] by (auto simp: policy_key_value_def)
qed

lemma equal_keys_select:
  assumes "effective_key json c p = Inr k" "effective_key json c q = Inr k"
    "compile_rule p = Inr r" "compile_rule q = Inr r'"
  shows "policy_selects p view = policy_selects q view"
proof -
  have pre: "\<exists>src dst. prefixes_of (pol_SourceAddresses x) = Some src
      \<and> prefixes_of (pol_DestinationAddresses x) = Some dst" if "compile_rule x = Inr y" for x y
    using that by (auto simp: compile_rule_def split: if_splits option.splits)
  obtain src dst where p: "prefixes_of (pol_SourceAddresses p) = Some src"
      "prefixes_of (pol_DestinationAddresses p) = Some dst" using pre [OF assms(3)] by blast
  obtain src' dst' where q: "prefixes_of (pol_SourceAddresses q) = Some src'"
      "prefixes_of (pol_DestinationAddresses q) = Some dst'" using pre [OF assms(4)] by blast
  show ?thesis
    using assms(1)
  proof (rule effective_key_fields)
    fix services
    assume fp: "CanonicalServiceList (pol_Services p) = Inr services" "ek_Services k = services"
      "ek_Enabled k = pol_Enabled p" "ek_SourceZones k = canonicalStrings (pol_SourceZones p)"
      "ek_DestinationZones k = canonicalStrings (pol_DestinationZones p)"
      "ek_SourceAddresses k = canonicalAddresses (pol_SourceAddresses p)"
      "ek_DestinationAddresses k = canonicalAddresses (pol_DestinationAddresses p)"
    show ?thesis
      using assms(2)
    proof (rule effective_key_fields)
      fix services'
      assume fq: "CanonicalServiceList (pol_Services q) = Inr services'" "ek_Services k = services'"
        "ek_Enabled k = pol_Enabled q" "ek_SourceZones k = canonicalStrings (pol_SourceZones q)"
        "ek_DestinationZones k = canonicalStrings (pol_DestinationZones q)"
        "ek_SourceAddresses k = canonicalAddresses (pol_SourceAddresses q)"
        "ek_DestinationAddresses k = canonicalAddresses (pol_DestinationAddresses q)"
      have "service_selected (pol_Services p) view = service_selected (pol_Services q) view"
        using fp(1,2) fq(1,2) by (intro service_selected_eq) auto
      moreover have "addr_selected (pol_SourceAddresses p) a = addr_selected (pol_SourceAddresses q) a"
          "addr_selected (pol_DestinationAddresses p) a = addr_selected (pol_DestinationAddresses q) a" for a
        using fp(6,7) fq(6,7) by (simp_all add: addr_selected_eq [OF p(1) q(1)] addr_selected_eq [OF p(2) q(2)])
      moreover have "zone_selected (pol_SourceZones p) z = zone_selected (pol_SourceZones q) z"
          "zone_selected (pol_DestinationZones p) z = zone_selected (pol_DestinationZones q) z" for z
        using fp(4,5) fq(4,5)
        by (simp_all add: zone_selected_eq [of "pol_SourceZones p" "pol_SourceZones q"]
            zone_selected_eq [of "pol_DestinationZones p" "pol_DestinationZones q"])
      ultimately show ?thesis
        using fp(3) fq(3) by (simp add: policy_selects_def)
    qed
  qed
qed

section \<open>Reported duplicates\<close>

lemma duplicate_loop_mem:
  assumes "ExactDuplicate i j n \<in> set (duplicate_loop key seen ps)"
    "\<forall>k p. fmlookup seen k = Some p \<longrightarrow> key p = Inr k"
  shows "\<exists>as p bs q k. ps = as @ p # bs \<and> pol_ID p = i \<and> key p = Inr k \<and> key q = Inr k
    \<and> (q \<in> set as \<or> (\<exists>m. fmlookup seen m = Some q))"
  using assms
proof (induction ps arbitrary: seen)
  case (Cons p ps)
  have step: ?case if l: "ExactDuplicate i j n \<in> set (duplicate_loop key seen' ps)"
    "\<forall>k p. fmlookup seen' k = Some p \<longrightarrow> key p = Inr k" "\<forall>q m. fmlookup seen' m = Some q \<longrightarrow> q = p \<or> (\<exists>m. fmlookup seen m = Some q)" for seen'
  proof -
    obtain as p' bs q k where h: "ps = as @ p' # bs" "pol_ID p' = i" "key p' = Inr k" "key q = Inr k"
        "q \<in> set as \<or> (\<exists>m. fmlookup seen' m = Some q)"
      using Cons.IH [OF l(1,2)] by blast
    have "q \<in> set (p # as) \<or> (\<exists>m. fmlookup seen m = Some q)" using h(5) l(3) by auto
    with h(1-4) show ?thesis by (intro exI [of _ "p # as"] exI [of _ p'] exI [of _ bs] exI [of _ q] exI [of _ k]) simp
  qed
  show ?case
  proof (cases "key p")
    case (Inl e)
    then show ?thesis using Cons.prems by (intro step [of seen]) auto
  next
    case k: (Inr k)
    show ?thesis
    proof (cases "fmlookup seen k")
      case None
      then show ?thesis
        using Cons.prems k by (intro step [of "fmupd k p seen"]) (auto split: if_splits)
    next
      case (Some q)
      show ?thesis
      proof (cases "i = pol_ID p")
        case True
        then show ?thesis
          using Cons.prems(2) Some k
          by (intro exI [of _ "[]"] exI [of _ p] exI [of _ ps] exI [of _ q] exI [of _ k]) auto
      next
        case False
        then show ?thesis using Cons.prems k Some by (intro step [of seen]) auto
      qed
    qed
  qed
qed simp

lemma duplicate_prior:
  assumes "ExactDuplicate i j n \<in> set (ExactDuplicatePolicyErrorsForConfig json c)"
    "distinct (map pol_Priority (cfg_Policies c))"
  obtains p q k where "p \<in> set (cfg_Policies c)" "q \<in> set (cfg_Policies c)" "pol_ID p = i"
    "EffectivePolicyKey json c p = Inr k" "EffectivePolicyKey json c q = Inr k"
    "pol_Priority q < pol_Priority p"
proof -
  let ?ord = "\<lambda>p. (pol_Priority p, pol_ID p)"
  let ?ps = "sort_key ?ord (cfg_Policies c)"
  have "ExactDuplicate i j n \<in> set (duplicate_loop (EffectivePolicyKey json c) fmempty ?ps)"
    using assms(1) by (simp add: ExactDuplicatePolicyErrorsForConfig_def exactDuplicatePolicyErrors_def)
  from duplicate_loop_mem [OF this] obtain as p bs q k where h: "?ps = as @ p # bs" "pol_ID p = i" "EffectivePolicyKey json c p = Inr k"
      "EffectivePolicyKey json c q = Inr k" "q \<in> set as"
    by auto
  have mem: "set as \<union> {p} \<subseteq> set (cfg_Policies c)"
    using arg_cong [OF h(1), of set] by auto
  have "sorted (map ?ord (as @ p # bs))" using sorted_sort_key [of ?ord] h(1) by metis
  then have "?ord q \<le> ?ord p" using h(5) by (simp add: sorted_append)
  then have "pol_Priority q \<le> pol_Priority p" by (auto simp: less_eq_prod_def)
  moreover have "distinct (map pol_Priority (as @ p # bs))"
    using assms(2) by (simp add: distinct_map flip: h(1))
  then have "pol_Priority p \<notin> pol_Priority ` set as" by auto
  then have "pol_Priority q \<noteq> pol_Priority p" using h(5) by (metis imageI)
  ultimately show thesis using that [of p q k] h mem by auto
qed

text \<open>
  C33: a policy that is reported as an exact duplicate of another never decides a packet of the compiled
  program, provided the identifiers are distinct and the encoding of the keys of the
  configured policies is injective.
\<close>

theorem exact_duplicate_never_decides:
  assumes "ExactDuplicate i j n \<in> set (ExactDuplicatePolicyErrorsForConfig json c)"
    "inj_on (js_policy json) {k. \<exists>p \<in> set (cfg_Policies c). effective_key json (Some c) p = Inr k}"
    "Compile c generation = Inr prog" "distinct (map pol_ID (cfg_Policies c))" "i \<noteq> ''''"
  shows "dec_PolicyID (Evaluate prog view) \<noteq> i"
proof
  assume dec: "dec_PolicyID (Evaluate prog view) = i"
  note C = Compile_Inr [OF assms(3)]
  obtain p q k where pq: "p \<in> set (cfg_Policies c)" "q \<in> set (cfg_Policies c)" "pol_ID p = i"
      "EffectivePolicyKey json c p = Inr k" "EffectivePolicyKey json c q = Inr k"
      "pol_Priority q < pol_Priority p"
    by (rule duplicate_prior [OF assms(1) C(1)])
  obtain kp kq where k: "effective_key json (Some c) p = Inr kp" "effective_key json (Some c) q = Inr kq"
      "js_policy json kp = js_policy json kq"
    using pq(4,5) by (auto simp: EffectivePolicyKey_def effectivePolicyKey_def split: sum.splits)
  then have same: "kp = kq" using assms(2) pq(1,2) by (auto dest: inj_onD)
  have only: "other = p" if "other \<in> set (cfg_Policies c)" "pol_ID other = i" for other
    using assms(4) pq(1,3) that by (auto simp: distinct_map dest: inj_onD)
  have sel: "policy_selects p view"
      "\<forall>other \<in> set (cfg_Policies c). policy_selects other view \<longrightarrow> other = p \<or> pol_Priority p < pol_Priority other"
    using evaluate_policy_cases [OF assms(3), of view] dec assms(5) only by auto
  have en: "pol_Enabled p" using sel(1) by (simp add: policy_selects_def)
  have "ek_Enabled kp = pol_Enabled p" "ek_Enabled kq = pol_Enabled q"
    using effective_key_fields [OF k(1)] effective_key_fields [OF k(2)] by metis+
  then have "pol_Enabled q" using same en by simp
  have comp: "\<exists>r. compile_rule x = Inr r" if "x \<in> set (cfg_Policies c)" "pol_Enabled x" for x
    using C(2) that list_all2_mem [of _ "filter pol_Enabled (sort_key pol_Priority (cfg_Policies c))" "prog_Rules prog" x]
    by (auto simp: map_err_Inr_iff)
  obtain r r' where "compile_rule p = Inr r" "compile_rule q = Inr r'"
    using comp pq(1,2) en \<open>pol_Enabled q\<close> by blast
  then have "policy_selects q view"
    using equal_keys_select [OF k(1), of q r r' view] k(2) same sel(1) by simp
  then show False using sel(2) pq(2,6) by auto
qed

definition duplicate_config :: Config where
  "duplicate_config =
     example_config\<lparr>cfg_Policies := cfg_Policies example_config
       @ [example_policy\<lparr>pol_ID := ''again'', pol_Priority := 30, pol_SourceZones := ['' lan ''],
            pol_SourceAddresses := [''10.0.0.7/24'', ''10.0.0.0/24''], pol_Services := [''TCP:443'']\<rparr>]\<rparr>"

definition duplicate_program :: Program where
  "duplicate_program = projr (Compile duplicate_config 7)"

theorem exact_duplicate_never_decides_witness:
  "ExactDuplicate ''again'' ''web'' 10 \<in> set (ExactDuplicatePolicyErrorsForConfig example_json duplicate_config)
   \<and> Compile duplicate_config 7 = Inr duplicate_program
   \<and> dec_PolicyID (Evaluate duplicate_program example_view) \<noteq> ''again''"
proof -
  have d: "ExactDuplicate ''again'' ''web'' 10 \<in> set (ExactDuplicatePolicyErrorsForConfig example_json duplicate_config)"
    by code_simp
  let ?key = "effective_key example_json (Some duplicate_config)"
  have "\<forall>p \<in> set (cfg_Policies duplicate_config). \<forall>q \<in> set (cfg_Policies duplicate_config).
      case (?key p, ?key q) of
        (Inr a, Inr b) \<Rightarrow> js_policy example_json a = js_policy example_json b \<longrightarrow> a = b | _ \<Rightarrow> True"
    by code_simp
  then have inj: "inj_on (js_policy example_json)
      {k. \<exists>p \<in> set (cfg_Policies duplicate_config). ?key p = Inr k}"
    by (intro inj_onI) fastforce
  have "\<not> isl (Compile duplicate_config 7)" by code_simp
  then have c: "Compile duplicate_config 7 = Inr duplicate_program" by (simp add: duplicate_program_def)
  have i: "distinct (map pol_ID (cfg_Policies duplicate_config))" by code_simp
  show ?thesis using exact_duplicate_never_decides [OF d inj c i, of example_view] d c by simp
qed

end
