(* ===== verification/Config_Normalization.thy ===== *)
theory Config_Normalization
imports Config_Manager Policy_Duplicates
begin

text \<open>
  The normalization that every candidate passes (\<open>normalizeCandidateServices\<close> of
  \<open>internal/config/manager.go\<close>) does not change what the policies decide. It can turn a valid
  configuration into an invalid one, because it changes the case of the zones a policy names and not
  of the zones that are defined.
\<close>

section \<open>Normal forms select the same\<close>

lemma canonicalStrings_idem: "canonicalStrings (canonicalStrings raws) = canonicalStrings raws"
proof -
  define xs where "xs = canonicalStrings raws"
  have v: "\<forall>v \<in> set xs. ToLower (TrimSpace v) = v \<and> v \<noteq> ''''"
    by (auto simp: xs_def canonicalStrings_def TrimSpace_ToLower)
  have d: "distinct xs" "sorted xs" by (simp_all add: xs_def canonicalStrings_def)
  have "map (\<lambda>v. ToLower (TrimSpace v)) xs = xs" "filter (\<lambda>v. v \<noteq> '''') xs = xs"
    using v by (auto intro!: map_idI simp: filter_id_conv)
  then have "canonicalStrings xs = xs"
    unfolding canonicalStrings_def using d by (simp add: dedup_id sorted_sort_id)
  then show ?thesis by (simp add: xs_def)
qed

lemma TrimSpace_Prefix_String:
  assumes "wf_Prefix p"
  shows "TrimSpace (Prefix_String p) = Prefix_String p"
proof (rule TrimSpace_id)
  have p: "0 \<le> PfxBits p" "Addr_Zone (PfxAddr p) = []" "PfxAddr p \<noteq> AddrZero"
    using assms by (auto simp: wf_Prefix_def Prefix_IsValid_def)
  then have "Prefix_String p = Addr_String (PfxAddr p) @ ''/'' @ show_dec (PfxBits p)"
    by (simp add: Prefix_String_def Prefix_IsValid_def show_int_def)
  moreover have "\<not> isSpace c" if "c \<in> set (Addr_String (PfxAddr p))" for c
    using Addr_String_chars [OF that p(2,3)] by (auto simp: isHex_def isDigit_def isSpace_def Let_def)
  moreover have "\<not> isSpace c" if "c \<in> set (show_dec (PfxBits p))" for c
    using show_dec_chars [OF p(1) that] by (rule isDigit_not_space)
  moreover have "\<not> isSpace (CHR ''/'')" by (simp add: isSpace_def)
  ultimately show "list_all (\<lambda>c. \<not> isSpace c) (Prefix_String p)" by (auto simp: list_all_iff)
qed

lemma printed_prefixes:
  "\<forall>p \<in> set ps. wf_Prefix p \<Longrightarrow> prefixes_of (map Prefix_String ps) = Some (map Masked ps)"
  by (induction ps)
    (auto simp: TrimSpace_Prefix_String Prefix_String_not_Nil ParsePrefix_String ParsePrefix_not_addr [OF ParsePrefix_String])

lemma canonical_prefixes:
  assumes "prefixes_of raws = Some ps"
  shows "\<exists>qs. prefixes_of (canonicalAddresses raws) = Some qs \<and> (\<forall>a. addressMatch qs a = addressMatch ps a)"
proof -
  note s = set_canonicalAddresses [OF assms]
  define rs where "rs = map (\<lambda>s. SOME p. p \<in> set ps \<and> Prefix_String p = s) (canonicalAddresses raws)"
  have pick: "(SOME p. p \<in> set ps \<and> Prefix_String p = s) \<in> set ps \<and> Prefix_String (SOME p. p \<in> set ps \<and> Prefix_String p = s) = s"
    if "s \<in> set (canonicalAddresses raws)" for s
    using that unfolding s(1) by (intro someI_ex [of "\<lambda>p. p \<in> set ps \<and> Prefix_String p = s"]) auto
  have c: "map Prefix_String rs = canonicalAddresses raws" "set rs \<subseteq> set ps"
    using pick by (auto simp: rs_def intro!: map_idI)
  have "set ps \<subseteq> set rs"
  proof
    fix p
    assume p: "p \<in> set ps"
    then have "Prefix_String p \<in> Prefix_String ` set rs" using s(1) c(1) by (metis image_eqI list.set_map)
    then obtain q where "q \<in> set rs" "Prefix_String p = Prefix_String q" by auto
    with c(2) s(2) p show "p \<in> set rs" using Prefix_String_inject by (metis subsetD)
  qed
  with c(2) have rs: "set rs = set ps" by auto
  then have "prefixes_of (canonicalAddresses raws) = Some (map Masked rs)"
    using printed_prefixes [of rs] s(2) c(1) by simp
  moreover have "addressMatch (map Masked rs) a = addressMatch ps a" for a
  proof -
    have "rs = [] \<longleftrightarrow> ps = []" using rs by (metis set_empty)
    moreover have "(\<exists>p \<in> set ps. Contains (Masked p) a) \<longleftrightarrow> (\<exists>p \<in> set ps. Contains p a)"
      using s(2) Contains_Masked by blast
    ultimately show ?thesis by (auto simp: addressMatch_def list_ex_iff rs)
  qed
  ultimately show ?thesis by blast
qed

lemma canonical_services:
  assumes "CanonicalServiceList raws = Inr services"
  shows "service_selected services view = service_selected raws view"
    and "\<exists>ss. compile_services policy services = Inr ss"
proof -
  have idem: "CanonicalServiceList services = Inr services" by (rule services.canon_idem [OF assms])
  show "service_selected services view = service_selected raws view" by (rule service_selected_eq [OF idem assms])
  obtain ss where ss: "list_all2 (\<lambda>raw s. parseService_item raw = Inr s) services ss"
    using idem by (auto simp: CanonicalServiceList_eq map_err_Inr_iff)
  have "validateM1Service raw" if "raw \<in> set services" for raw
    using list_all2_mem [OF ss that]
    by (auto simp: validateM1Service_def parseM1ServiceSelector_def parseService_item_def split: if_splits)
  then have "list_all validateM1Service services" by (simp add: list_all_iff)
  then show "\<exists>ss. compile_services policy services = Inr ss" by (rule compile_services_total)
qed

lemma normalized_policy:
  assumes "normalize_policy p = Inr q" "pol_Enabled p \<Longrightarrow> \<exists>r. compile_rule p = Inr r"
  shows "pol_Enabled q \<Longrightarrow> \<exists>r. compile_rule q = Inr r" and "policy_selects q view = policy_selects p view"
    and "pol_ID q = pol_ID p" "pol_Priority q = pol_Priority p" "pol_Action q = pol_Action p" "pol_Enabled q = pol_Enabled p"
proof -
  obtain services where s: "CanonicalServiceList (pol_Services p) = Inr services"
    "pol_Services q = services" "pol_SourceZones q = canonicalStrings (pol_SourceZones p)"
    "pol_DestinationZones q = canonicalStrings (pol_DestinationZones p)"
    "pol_SourceAddresses q = canonicalAddresses (pol_SourceAddresses p)"
    "pol_DestinationAddresses q = canonicalAddresses (pol_DestinationAddresses p)"
    using assms(1) by (auto simp: normalize_policy_def split: sum.splits)
  show f: "pol_ID q = pol_ID p" "pol_Priority q = pol_Priority p" "pol_Action q = pol_Action p" "pol_Enabled q = pol_Enabled p"
    using assms(1) by (auto simp: normalize_policy_def split: sum.splits)
  have zones: "zone_selected (canonicalStrings raws) z = zone_selected raws z" for raws z
    by (rule zone_selected_eq [OF canonicalStrings_idem])
  have *: "(\<exists>r. compile_rule q = Inr r) \<and> policy_selects q view = policy_selects p view" if e: "pol_Enabled p"
  proof -
    obtain r where r: "compile_rule p = Inr r" using assms(2) [OF e] by blast
    then obtain src dst where sd: "prefixes_of (pol_SourceAddresses p) = Some src"
      "prefixes_of (pol_DestinationAddresses p) = Some dst"
      "pol_Action p = DecisionAllow \<or> pol_Action p = DecisionDrop \<or> pol_Action p = DecisionReject"
      by (auto simp: compile_rule_def split: if_splits option.splits)
    obtain src' where src: "prefixes_of (canonicalAddresses (pol_SourceAddresses p)) = Some src'"
      "\<And>a. addressMatch src' a = addressMatch src a" using canonical_prefixes [OF sd(1)] by blast
    obtain dst' where dst: "prefixes_of (canonicalAddresses (pol_DestinationAddresses p)) = Some dst'"
      "\<And>a. addressMatch dst' a = addressMatch dst a" using canonical_prefixes [OF sd(2)] by blast
    note svc = canonical_services [OF s(1)]
    have "\<exists>r. compile_rule q = Inr r"
      using svc(2) [of "pol_ID p"] sd(3) by (auto simp: compile_rule_def f s src(1) dst(1))
    moreover have "policy_selects q view = policy_selects p view"
      by (simp add: policy_selects_def f s zones svc(1) prefixes_of_selected [OF sd(1), symmetric]
          prefixes_of_selected [OF sd(2), symmetric] prefixes_of_selected [OF src(1), symmetric]
          prefixes_of_selected [OF dst(1), symmetric] src(2) dst(2))
    ultimately show ?thesis by blast
  qed
  show "pol_Enabled q \<Longrightarrow> \<exists>r. compile_rule q = Inr r" using * f(4) by simp
  show "policy_selects q view = policy_selects p view"
    using * f(4) by (cases "pol_Enabled p") (auto simp: policy_selects_def)
qed


lemma mapped_policies_decide:
  assumes "Compile c generation = Inr p" "Compile c' generation = Inr p'"
    and "cfg_Policies c' = map f (cfg_Policies c)" "cfg_DefaultDeny c' = cfg_DefaultDeny c"
    and f: "\<And>q. q \<in> set (cfg_Policies c) \<Longrightarrow> policy_selects (f q) view = policy_selects q view
      \<and> pol_ID (f q) = pol_ID q \<and> pol_Priority (f q) = pol_Priority q \<and> pol_Action (f q) = pol_Action q"
  shows "Evaluate p' view = Evaluate p view"
  using evaluate_policy_cases [OF assms(1), of view]
proof (elim disjE bexE conjE)
  fix q
  assume q: "q \<in> set (cfg_Policies c)" "policy_selects q view"
    and least: "\<forall>other \<in> set (cfg_Policies c). policy_selects other view \<longrightarrow> other = q \<or> pol_Priority q < pol_Priority other"
    and ev: "Evaluate p view = \<lparr>dec_Action = pol_Action q, dec_PolicyID = pol_ID q, dec_Generation = generation,
      dec_Reason = ''policy '' @ pol_ID q @ '' matched''\<rparr>"
  have fq: "f q \<in> set (cfg_Policies c')" "policy_selects (f q) view" using q f by (auto simp: assms(3))
  obtain r where r: "r \<in> set (cfg_Policies c)" "policy_selects (f r) view"
      "f q = f r \<or> pol_Priority (f r) < pol_Priority (f q)"
      "Evaluate p' view = \<lparr>dec_Action = pol_Action (f r), dec_PolicyID = pol_ID (f r), dec_Generation = generation,
        dec_Reason = ''policy '' @ pol_ID (f r) @ '' matched''\<rparr>"
    using evaluate_policy_cases [OF assms(2), of view] fq by (auto simp: assms(3))
  have "r = q \<or> pol_Priority q < pol_Priority r" using least r(1,2) f [OF r(1)] by blast
  then have "f r = f q" using r(3) f [OF r(1)] f [OF q(1)] by auto
  then show ?thesis using r(4) ev f [OF q(1)] by simp
next
  assume none: "\<forall>q \<in> set (cfg_Policies c). \<not> policy_selects q view"
    and ev: "Evaluate p view = \<lparr>dec_Action = (if cfg_DefaultDeny c then DecisionDrop else DecisionAllow),
      dec_PolicyID = '''', dec_Generation = generation,
      dec_Reason = (if cfg_DefaultDeny c then ''default deny'' else ''default allow'')\<rparr>"
  have "\<forall>q \<in> set (cfg_Policies c'). \<not> policy_selects q view" using none f by (auto simp: assms(3))
  then show ?thesis using evaluate_policy_cases [OF assms(2), of view] ev assms(4) by auto
qed

section \<open>Properties\<close>

text \<open>
  C16: normalizing a candidate keeps its meaning: when no service list is rejected, a configuration
  that compiles still compiles after normalization, and the two programs decide every packet view
  alike, with the same policy and the same reason.
\<close>

theorem normalization_keeps_decisions:
  assumes "normalizeCandidateServices c = (c', [])" "Compile c generation = Inr p"
  shows "\<exists>p'. Compile c' generation = Inr p' \<and> (\<forall>view. Evaluate p' view = Evaluate p view)"
proof -
  define f where "f q = (case normalize_policy q of Inl _ \<Rightarrow> q | Inr q' \<Rightarrow> q')" for q
  have c': "cfg_Policies c' = map f (cfg_Policies c)" "cfg_DefaultDeny c' = cfg_DefaultDeny c"
    using assms(1) by (auto simp: normalizeCandidateServices_def f_def)
  have total: "\<exists>q'. normalize_policy q = Inr q'" if "q \<in> set (cfg_Policies c)" for q
    using assms(1) that by (cases "normalize_policy q") (auto simp: normalizeCandidateServices_def)
  have comp: "distinct (map pol_Priority (cfg_Policies c))"
    "\<And>q. q \<in> set (cfg_Policies c) \<Longrightarrow> pol_Enabled q \<Longrightarrow> \<exists>r. compile_rule q = Inr r"
    using assms(2) Compile_Inr_iff [of c generation] by auto
  have f: "pol_Enabled (f q) \<Longrightarrow> \<exists>r. compile_rule (f q) = Inr r" "policy_selects (f q) view = policy_selects q view"
    "pol_ID (f q) = pol_ID q" "pol_Priority (f q) = pol_Priority q" "pol_Action (f q) = pol_Action q"
    if q: "q \<in> set (cfg_Policies c)" for q view
  proof -
    obtain q' where q': "normalize_policy q = Inr q'" using total [OF q] by blast
    have eq: "f q = q'" by (simp add: f_def q')
    note n = normalized_policy [OF q' comp(2) [OF q]]
    show "pol_Enabled (f q) \<Longrightarrow> \<exists>r. compile_rule (f q) = Inr r" "policy_selects (f q) view = policy_selects q view"
      "pol_ID (f q) = pol_ID q" "pol_Priority (f q) = pol_Priority q" "pol_Action (f q) = pol_Action q"
      unfolding eq using n by auto
  qed
  have "distinct (map pol_Priority (cfg_Policies c'))"
    using comp(1) f(4) unfolding c'(1) map_map by (metis (mono_tags, lifting) comp_apply map_eq_conv)
  then obtain p' where p': "Compile c' generation = Inr p'"
    using f(1) Compile_Inr_iff [of c' generation] by (auto simp: c'(1))
  have "Evaluate p' view = Evaluate p view" for view
    by (rule mapped_policies_decide [OF assms(2) p' c']) (use f in auto)
  with p' show ?thesis by blast
qed


definition unnormal_config :: Config where
  "unnormal_config =
     example_config\<lparr>cfg_Policies :=
       [example_policy\<lparr>pol_SourceZones := ['' LAN'', ''lan''], pol_SourceAddresses := [''10.0.0.9/24'', ''10.0.0.0/24''],
          pol_Services := [''TCP:443'', ''tcp:80-90'']\<rparr>]\<rparr>"

theorem normalization_keeps_decisions_witness:
  "snd (normalizeCandidateServices unnormal_config) = []
   \<and> map pol_SourceAddresses (cfg_Policies (fst (normalizeCandidateServices unnormal_config))) = [[''10.0.0.0/24'']]
   \<and> (\<exists>p p'. Compile unnormal_config 7 = Inr p
        \<and> Compile (fst (normalizeCandidateServices unnormal_config)) 7 = Inr p'
        \<and> (\<forall>view. Evaluate p' view = Evaluate p view))"
proof -
  have n: "snd (normalizeCandidateServices unnormal_config) = []"
    "map pol_SourceAddresses (cfg_Policies (fst (normalizeCandidateServices unnormal_config))) = [[''10.0.0.0/24'']]"
    by code_simp+
  have "\<not> isl (Compile unnormal_config 7)" by code_simp
  then obtain p where p: "Compile unnormal_config 7 = Inr p" by (cases "Compile unnormal_config 7") auto
  have "normalizeCandidateServices unnormal_config = (fst (normalizeCandidateServices unnormal_config), [])"
    using n(1) by (metis prod.collapse)
  from normalization_keeps_decisions [OF this p] p n show ?thesis by blast
qed

text \<open>
  A valid configuration that cannot be made the candidate: its zone is called \<open>LAN\<close>, and the
  normalization makes its policy refer to \<open>lan\<close>.
\<close>

lemma upper_case_zone_rejected:
  assumes "ce_json env = example_json"
  shows "Validate example_json lan_config = []
    \<and> SetCandidateIfValid env io lan_config m disk
      = (m, disk, [InvalidConfig (InPolicy ''all'' (PolicyUnknownZone ''lan'')),
                   InvalidConfig (InPolicy ''web'' (PolicyUnknownZone ''lan''))])"
proof -
  have n: "snd (normalizeCandidateServices lan_config) = []" by code_simp
  have v: "Validate example_json (fst (normalizeCandidateServices lan_config))
      = [InPolicy ''all'' (PolicyUnknownZone ''lan''), InPolicy ''web'' (PolicyUnknownZone ''lan'')]"
    by code_simp
  show ?thesis
    using lan_config_valid n v by (simp add: SetCandidateIfValid_def split_beta assms)
qed

end
