(* ===== verification/Gate_Selection.thy ===== *)
theory Gate_Selection
imports Gate_Config
begin

text \<open>
  Compilation of a configuration with inspection and a request gate, and the selection of an
  inspection profile and of a gate for a packet view (\<open>internal/connectivity/inspection.go\<close>,
  \<open>internal/connectivity/request_gate.go\<close>).
\<close>

section \<open>Destination ports of a gate\<close>

definition port_order :: "PortRange \<Rightarrow> u16 \<times> u16" where
  "port_order p = (pr_First p, pr_Last p)"

definition tcp_port_ranges :: "Service list \<Rightarrow> PortRange list" where
  "tcp_port_ranges services =
     concat (map (\<lambda>service. if svc_Protocol service \<noteq> 6 then []
                   else filter (\<lambda>port. pr_First port > 0 \<and> pr_First port \<le> pr_Last port) (svc_Ports service))
       services)"

text \<open>
  The merging loop: \<open>merged\<close> is the output so far, whose last range may still grow. The comparison
  is on \<open>uint32\<close>, so that the successor of port 65535 does not wrap.
\<close>

definition merge_port :: "PortRange \<Rightarrow> PortRange list \<Rightarrow> PortRange list" where
  "merge_port port merged =
     (if merged = [] \<or> (ucast (pr_First port) :: u32) > ucast (pr_Last (last merged)) + 1
      then merged @ [port]
      else if pr_Last port > pr_Last (last merged)
      then butlast merged @ [(last merged)\<lparr>pr_Last := pr_Last port\<rparr>]
      else merged)"

definition RequestGateTCPPorts :: "Rule \<Rightarrow> PortRange list" where
  "RequestGateTCPPorts rule =
     (if rule_Services rule = []
      then [\<lparr>pr_First = 80, pr_Last = 80\<rparr>, \<lparr>pr_First = 443, pr_Last = 443\<rparr>]
      else fold merge_port (sort_key port_order (tcp_port_ranges (rule_Services rule))) [])"

section \<open>Compilation\<close>

definition allowed_apps :: "string list \<Rightarrow> string list" where
  "allowed_apps raws = sort (remdups (filter (\<lambda>app. app \<noteq> '''') (map (\<lambda>raw. ToUpper (TrimSpace raw)) raws)))"

definition PolicyZero :: SecurityPolicy where
  "PolicyZero =
     \<lparr>pol_ID = '''', pol_Name = '''', pol_Priority = 0, pol_SourceZones = [], pol_DestinationZones = [],
      pol_SourceAddresses = [], pol_DestinationAddresses = [], pol_Services = [], pol_Applications = [],
      pol_ApplicationMatchMode = '''', pol_SecurityProfileID = '''', pol_MinimumRisk = None,
      pol_MaximumRisk = None, pol_Action = '''', pol_Scope = '''', pol_LogStart = False,
      pol_LogEnd = False, pol_Enabled = False\<rparr>"

definition policiesByID :: "SecurityPolicy list \<Rightarrow> (string, SecurityPolicy) fmap" where
  "policiesByID policies = fold (\<lambda>p. fmupd (pol_ID p) p) policies fmempty"

definition inspection_selection ::
  "(string, SecurityProfile) fmap \<Rightarrow> SecurityPolicy \<Rightarrow> int \<Rightarrow> u64 \<Rightarrow> Rule \<Rightarrow> InspectionSelection" where
  "inspection_selection profiles policy appDetectionTimeout generation rule =
     (let selection = \<lparr>isel_PolicyID = rule_ID rule, isel_ProfileID = '''', isel_Mode = InspectionModeOff,
            isel_RulesetID = '''', isel_AllowedApps = allowed_apps (pol_Applications policy),
            isel_AppDetectionTimeoutMillis = appDetectionTimeout, isel_Generation = generation\<rparr> in
      case fmlookup profiles (pol_SecurityProfileID policy) of
        None \<Rightarrow> selection
      | Some profile \<Rightarrow>
          (case prof_Inspection profile of
             None \<Rightarrow> selection
           | Some ip \<Rightarrow> selection\<lparr>isel_ProfileID := prof_ID profile, isel_Mode := ip_Mode ip,
                                  isel_RulesetID := ip_RulesetID ip\<rparr>))"

definition add_selections :: "Config \<Rightarrow> u64 \<Rightarrow> Program \<Rightarrow> Program" where
  "add_selections c generation program =
     (let effective = EffectiveInspectionConfig c;
          profiles = profilesByID (cfg_Profiles c);
          policies = policiesByID (cfg_Policies c);
          selection = (\<lambda>rule. inspection_selection profiles
             (case fmlookup policies (rule_ID rule) of None \<Rightarrow> PolicyZero | Some policy \<Rightarrow> policy)
             (lim_AppDetectionTimeoutMillis (ic_Limits effective)) generation rule) in
      program\<lparr>prog_InspectionIncludeManagement := ic_IncludeManagement effective,
              prog_Selections := fold (\<lambda>rule. fmupd (rule_ID rule) (selection rule)) (prog_Rules program) fmempty\<rparr>)"

definition CompileM3 :: "Json \<Rightarrow> Config \<Rightarrow> u64 \<Rightarrow> CompileError + Program" where
  "CompileM3 json c generation =
     (if ValidateInspection c \<noteq> [] then Inl InvalidInspection
      else if ExactDuplicatePolicyErrorsForConfig json c \<noteq> [] then Inl DuplicatePolicy
      else if M3UnreachablePolicyErrors c \<noteq> [] then Inl UnreachablePolicy
      else
        (case Compile c generation of
           Inl e \<Rightarrow> Inl e
         | Inr program \<Rightarrow> Inr (add_selections c generation program)))"

definition hasReferencedGateProfile :: "Config \<Rightarrow> bool" where
  "hasReferencedGateProfile c \<longleftrightarrow>
     list_ex (\<lambda>policy. pol_Enabled policy
        \<and> list_ex (\<lambda>profile. prof_RequestGate profile \<noteq> None \<and> prof_ID profile = pol_SecurityProfileID policy)
            (cfg_Profiles c))
       (cfg_Policies c)"

definition m4_scope_error :: "SecurityPolicy \<Rightarrow> CompileError option" where
  "m4_scope_error policy =
     (if \<not> pol_Enabled policy then None
      else if pol_MinimumRisk policy \<noteq> None \<or> pol_MaximumRisk policy \<noteq> None
      then Some (PolicyRisk (pol_ID policy))
      else if pol_Scope policy \<noteq> '''' \<and> \<not> EqualFold (TrimSpace (pol_Scope policy)) ''SESSION''
      then Some (PolicyScope (pol_ID policy) (pol_Scope policy))
      else None)"

definition RuleZero :: Rule where
  "RuleZero =
     \<lparr>rule_ID = '''', rule_Name = '''', rule_Priority = 0, rule_SourceZones = {||},
      rule_DestinationZones = {||}, rule_SourceAddresses = [], rule_DestinationAddresses = [],
      rule_Services = [], rule_Action = '''', rule_Enabled = False\<rparr>"

definition rulesByID :: "Rule list \<Rightarrow> (string, Rule) fmap" where
  "rulesByID rules = fold (\<lambda>r. fmupd (rule_ID r) r) rules fmempty"

definition gate_plan ::
  "Config \<Rightarrow> u64 \<Rightarrow> TLSExclusionRule list \<Rightarrow> (string, Rule) fmap \<Rightarrow> SecurityPolicy \<Rightarrow> SecurityProfile
   \<Rightarrow> RequestGateProfile \<Rightarrow> RequestGatePlan" where
  "gate_plan c generation exclusions compiledRules policy profile gate =
     \<lparr>gp_Enabled = True, gp_PolicyID = pol_ID policy, gp_ProfileID = prof_ID profile,
      gp_Generation = generation, gp_TLSMode = prof_TLSMode profile, gp_FailMode = rgp_FailMode gate,
      gp_OversizeAction = rgp_OversizeAction gate, gp_EncodingAction = rgp_UnsupportedEncodingAction gate,
      gp_BlockQUIC = rgp_BlockQUIC gate, gp_RulesetID = rg_RulesetID (EffectiveRequestGateConfig c),
      gp_exclusions = Some exclusions,
      gp_tcpPorts = RequestGateTCPPorts
        (case fmlookup compiledRules (pol_ID policy) of None \<Rightarrow> RuleZero | Some rule \<Rightarrow> rule)\<rparr>"

definition policy_gate :: "(string, SecurityProfile) fmap \<Rightarrow> SecurityPolicy \<Rightarrow>
    (SecurityProfile \<times> RequestGateProfile) option" where
  "policy_gate profiles policy =
     (if \<not> pol_Enabled policy \<or> pol_Action policy \<noteq> DecisionAllow then None
      else
        (case fmlookup profiles (pol_SecurityProfileID policy) of
           None \<Rightarrow> None
         | Some profile \<Rightarrow>
             (case prof_RequestGate profile of
                None \<Rightarrow> None
              | Some gate \<Rightarrow> if rgp_Enabled gate then Some (profile, gate) else None)))"

definition add_gate ::
  "Config \<Rightarrow> u64 \<Rightarrow> TLSExclusionRule list \<Rightarrow> (string, Rule) fmap \<Rightarrow> SecurityPolicy
   \<Rightarrow> (string, RequestGatePlan) fmap \<Rightarrow> (string, RequestGatePlan) fmap" where
  "add_gate c generation exclusions compiledRules policy gates =
     (case policy_gate (profilesByID (cfg_Profiles c)) policy of
        None \<Rightarrow> gates
      | Some (profile, gate) \<Rightarrow>
          fmupd (pol_ID policy) (gate_plan c generation exclusions compiledRules policy profile gate) gates)"

definition CompileM4 :: "Json \<Rightarrow> Config \<Rightarrow> u64 \<Rightarrow> CompileError + Program" where
  "CompileM4 json c generation =
     (if UsesM4 c \<and> ValidateRequestGate json c \<noteq> [] then Inl InvalidRequestGate
      else
        (case List.map_filter m4_scope_error (cfg_Policies c) of
           e # _ \<Rightarrow> Inl e
         | [] \<Rightarrow>
             (case CompileM3 json c generation of
                Inl e \<Rightarrow> Inl e
              | Inr program \<Rightarrow>
                  if \<not> UsesM4 c then Inr program
                  else
                    (case compileTLSExclusions (cfg_TLSExclusions c) of
                       Inl e \<Rightarrow> Inl e
                     | Inr exclusions \<Rightarrow>
                         Inr (program\<lparr>prog_requestGates :=
                           fold (add_gate c generation exclusions (rulesByID (prog_Rules program)))
                             (cfg_Policies c) fmempty\<rparr>)))))"

record Capabilities =
  cap_Inspection :: bool
  cap_RequestGate :: bool

definition CompileForCapabilities :: "Json \<Rightarrow> Config \<Rightarrow> u64 \<Rightarrow> Capabilities \<Rightarrow> CompileError + Program" where
  "CompileForCapabilities json c generation caps =
     (if UsesM4 c then
        if \<not> cap_RequestGate caps then Inl RequiresRequestGate
        else if UsesM3 c \<and> \<not> cap_Inspection caps then Inl RequiresInspection
        else CompileM4 json c generation
      else if hasReferencedGateProfile c then
        if UsesM3 c \<and> \<not> cap_Inspection caps then Inl RequiresInspection
        else CompileM4 json c generation
      else if \<not> UsesM3 c then CompileM2 c generation
      else if \<not> cap_Inspection caps then Inl RequiresInspection
      else CompileM3 json c generation)"

section \<open>Selection\<close>

definition selection_off :: "Program \<Rightarrow> ConnDecision \<Rightarrow> InspectionSelection" where
  "selection_off program decision =
     \<lparr>isel_PolicyID = dec_PolicyID decision, isel_ProfileID = '''', isel_Mode = InspectionModeOff,
      isel_RulesetID = '''', isel_AllowedApps = [], isel_AppDetectionTimeoutMillis = 0,
      isel_Generation = prog_Generation program\<rparr>"

definition SelectInspection :: "Program \<Rightarrow> View \<Rightarrow> InspectionSelection" where
  "SelectInspection program view =
     (let decision = Evaluate program view in
      if dec_PolicyID decision = '''' \<or> dec_Action decision \<noteq> DecisionAllow then selection_off program decision
      else if \<not> prog_InspectionIncludeManagement program
         \<and> (ToLower (TrimSpace (v_SourceZone view)) |\<in>| prog_ManagementZones program
            \<or> ToLower (TrimSpace (v_DestinationZone view)) |\<in>| prog_ManagementZones program)
      then selection_off program decision
      else
        (case fmlookup (prog_Selections program) (dec_PolicyID decision) of
           Some selection \<Rightarrow> selection
         | None \<Rightarrow> selection_off program decision))"

definition plan_off :: "Program \<Rightarrow> ConnDecision \<Rightarrow> RequestGatePlan" where
  "plan_off program decision =
     \<lparr>gp_Enabled = False, gp_PolicyID = dec_PolicyID decision, gp_ProfileID = '''',
      gp_Generation = prog_Generation program, gp_TLSMode = '''', gp_FailMode = '''',
      gp_OversizeAction = '''', gp_EncodingAction = '''', gp_BlockQUIC = False, gp_RulesetID = '''',
      gp_exclusions = None, gp_tcpPorts = []\<rparr>"

definition SelectRequestGate :: "Program \<Rightarrow> View \<Rightarrow> RequestGatePlan" where
  "SelectRequestGate program view =
     (let decision = Evaluate program view in
      if dec_Action decision \<noteq> DecisionAllow \<or> dec_PolicyID decision = '''' \<or> v_Protocol view \<noteq> 6
      then plan_off program decision
      else
        (case fmlookup (prog_requestGates program) (dec_PolicyID decision) of
           None \<Rightarrow> plan_off program decision
         | Some plan \<Rightarrow>
             if list_ex (\<lambda>ports. PortRange_Contains ports (v_DestinationPort view)) (gp_tcpPorts plan)
             then plan else plan_off program decision))"

definition TCPPorts :: "RequestGatePlan \<Rightarrow> PortRange list" where
  "TCPPorts plan = gp_tcpPorts plan"

definition CompiledRequestGateForPolicy :: "Program \<Rightarrow> string \<Rightarrow> RequestGatePlan option" where
  "CompiledRequestGateForPolicy p policyID = fmlookup (prog_requestGates p) policyID"

end
