(* ===== verification/Gate_Application.thy ===== *)
theory Gate_Application
imports Gate_Selection
begin

text \<open>
  What the layers of the compiler keep of the connectivity program, which ports a gate has, and
  when a gate applies to a packet view.
\<close>

section \<open>The merged ports\<close>

definition in_ports :: "PortRange list \<Rightarrow> u16 \<Rightarrow> bool" where
  "in_ports ps port \<longleftrightarrow> list_ex (\<lambda>r. PortRange_Contains r port) ps"

text \<open>A gap of at least one port between two ranges.\<close>

definition port_gap :: "PortRange \<Rightarrow> PortRange \<Rightarrow> bool" where
  "port_gap a b \<longleftrightarrow> uint (pr_Last a) + 1 < uint (pr_First b)"

definition merged_ok :: "PortRange list \<Rightarrow> bool" where
  "merged_ok ps \<longleftrightarrow> sorted_wrt port_gap ps \<and> list_all (\<lambda>r. pr_First r \<le> pr_Last r) ps"

lemma in_ports_simps [simp]:
  "in_ports [] port \<longleftrightarrow> False"
  "in_ports (r # ps) port \<longleftrightarrow> PortRange_Contains r port \<or> in_ports ps port"
  "in_ports (ps @ qs) port \<longleftrightarrow> in_ports ps port \<or> in_ports qs port"
  by (simp_all add: in_ports_def)

lemma merge_guard:
  "(ucast (a :: u16) :: u32) > ucast (b :: u16) + 1 \<longleftrightarrow> uint b + 1 < uint a"
proof -
  have lt: "uint a < 2 ^ 16" "uint b < 2 ^ 16" using uint_lt2p [of a] uint_lt2p [of b] by auto
  then have "uint (ucast b + 1 :: u32) = uint b + 1"
    by (simp add: uint_word_ariths unsigned_ucast_eq take_bit_int_eq_self)
  then show ?thesis
    using lt by (simp add: word_less_def unsigned_ucast_eq take_bit_int_eq_self)
qed

lemma merge_port_snoc:
  "merge_port r (ms @ [m]) =
     (if uint (pr_Last m) + 1 < uint (pr_First r) then ms @ [m, r]
      else if uint (pr_Last m) < uint (pr_Last r) then ms @ [m\<lparr>pr_Last := pr_Last r\<rparr>]
      else ms @ [m])"
  by (simp add: merge_port_def merge_guard) (simp add: word_less_def)

lemma merge_port_step:
  assumes ok: "merged_ok merged" and r: "pr_First r \<le> pr_Last r"
    and ord: "merged \<noteq> [] \<Longrightarrow> pr_First (last merged) \<le> pr_First r"
  shows "merged_ok (merge_port r merged)" (is ?ok)
    and "in_ports (merge_port r merged) port \<longleftrightarrow> in_ports merged port \<or> PortRange_Contains r port" (is ?in)
    and "merge_port r merged \<noteq> []"
    and "pr_First (last (merge_port r merged)) \<le> pr_First r"
proof -
  show "merge_port r merged \<noteq> []" by (auto simp: merge_port_def)
  show "pr_First (last (merge_port r merged)) \<le> pr_First r"
    using ord by (auto simp: merge_port_def)
  have "?ok \<and> ?in"
  proof (cases merged rule: rev_cases)
    case Nil
    with r show ?thesis by (simp add: merge_port_def merged_ok_def)
  next
    case (snoc ms m)
    have m: "uint (pr_First m) \<le> uint (pr_First r)" "uint (pr_First m) \<le> uint (pr_Last m)"
        "uint (pr_First r) \<le> uint (pr_Last r)"
      using ok ord r by (simp_all add: snoc merged_ok_def word_le_def)
    have gaps: "port_gap a m" if "a \<in> set ms" for a
      using ok that by (simp add: snoc merged_ok_def sorted_wrt_append)
    consider (new) "uint (pr_Last m) + 1 < uint (pr_First r)"
      | (grow) "\<not> uint (pr_Last m) + 1 < uint (pr_First r)" "uint (pr_Last m) < uint (pr_Last r)"
      | (keep) "\<not> uint (pr_Last m) + 1 < uint (pr_First r)" "uint (pr_Last r) \<le> uint (pr_Last m)"
      by linarith
    then show ?thesis
    proof cases
      case new
      have "port_gap a r" if "a \<in> set (ms @ [m])" for a
        using gaps [of a] that new m(1) by (auto simp: port_gap_def)
      with new ok r show ?thesis
        by (auto simp: merge_port_snoc snoc merged_ok_def sorted_wrt_append)
    next
      case grow
      have "PortRange_Contains (m\<lparr>pr_Last := pr_Last r\<rparr>) port
          \<longleftrightarrow> PortRange_Contains m port \<or> PortRange_Contains r port"
        using grow m by (auto simp: PortRange_Contains_def word_le_def)
      with grow m gaps ok show ?thesis
        by (simp add: merge_port_snoc snoc merged_ok_def sorted_wrt_append port_gap_def word_le_def)
    next
      case keep
      have "PortRange_Contains r port \<Longrightarrow> PortRange_Contains m port"
        using keep m by (auto simp: PortRange_Contains_def word_le_def)
      with keep ok show ?thesis
        by (auto simp: merge_port_snoc snoc)
    qed
  qed
  then show ?ok ?in by auto
qed

lemma merge_ports:
  assumes "merged_ok merged" "sorted (map pr_First rs)" "list_all (\<lambda>r. pr_First r \<le> pr_Last r) rs"
    "merged \<noteq> [] \<Longrightarrow> list_all (\<lambda>r. pr_First (last merged) \<le> pr_First r) rs"
  shows "merged_ok (fold merge_port rs merged)
    \<and> (in_ports (fold merge_port rs merged) port \<longleftrightarrow> in_ports merged port \<or> in_ports rs port)"
  using assms
proof (induction rs arbitrary: merged)
  case (Cons r rs)
  have "pr_First r \<le> pr_Last r" "merged \<noteq> [] \<Longrightarrow> pr_First (last merged) \<le> pr_First r"
    using Cons.prems by auto
  note s = merge_port_step [OF Cons.prems(1) this]
  have "list_all (\<lambda>q. pr_First (last (merge_port r merged)) \<le> pr_First q) rs"
    using s(4) Cons.prems(2) by (auto simp: list_all_iff)
  then show ?case
    using Cons.IH [of "merge_port r merged"] Cons.prems(2,3) s(1,2) by auto
qed simp

lemma gate_ports_merged:
  "sorted_wrt port_gap (RequestGateTCPPorts rule)
   \<and> (\<forall>port. list_ex (\<lambda>r. PortRange_Contains r port) (RequestGateTCPPorts rule) \<longleftrightarrow>
        (if rule_Services rule = [] then port = 80 \<or> port = 443
         else \<exists>s \<in> set (rule_Services rule). svc_Protocol s = 6
           \<and> (\<exists>r \<in> set (svc_Ports s). 0 < pr_First r \<and> PortRange_Contains r port)))"
proof (cases "rule_Services rule = []")
  case True
  then show ?thesis
    by (auto simp: RequestGateTCPPorts_def port_gap_def PortRange_Contains_def)
next
  case False
  let ?rs = "sort_key port_order (tcp_port_ranges (rule_Services rule))"
  have "sorted_wrt (\<lambda>a b. port_order a \<le> port_order b) ?rs"
    using sorted_sort_key [of port_order] by (simp add: sorted_map)
  then have "sorted (map pr_First ?rs)"
    unfolding sorted_map by (rule sorted_wrt_mono_rel [rotated]) (auto simp: port_order_def less_eq_prod_def)
  moreover have "list_all (\<lambda>r. pr_First r \<le> pr_Last r) ?rs"
    by (auto simp: list_all_iff tcp_port_ranges_def split: if_splits)
  ultimately have "merged_ok (RequestGateTCPPorts rule)
      \<and> (in_ports (RequestGateTCPPorts rule) port \<longleftrightarrow> in_ports ?rs port)" for port
    using merge_ports [of "[]" ?rs port] False by (simp add: RequestGateTCPPorts_def merged_ok_def)
  moreover have "in_ports ?rs port \<longleftrightarrow> (\<exists>s \<in> set (rule_Services rule). svc_Protocol s = 6
      \<and> (\<exists>r \<in> set (svc_Ports s). 0 < pr_First r \<and> PortRange_Contains r port))" for port
    by (fastforce simp: in_ports_def list_ex_iff tcp_port_ranges_def PortRange_Contains_def
        split: if_splits)
  ultimately show ?thesis
    using False by (simp add: merged_ok_def in_ports_def)
qed

text \<open>
  C35: the ports of a gate are the TCP ports the rule's services name (without services, 80 and 443), as
  ranges in increasing order with a gap between any two.
\<close>

theorem gate_ports_exact:
  "sorted_wrt port_gap (RequestGateTCPPorts rule)
   \<and> (\<forall>port. list_ex (\<lambda>r. PortRange_Contains r port) (RequestGateTCPPorts rule) \<longleftrightarrow>
        (if rule_Services rule = [] then port = 80 \<or> port = 443
         else \<exists>s \<in> set (rule_Services rule). svc_Protocol s = 6
           \<and> (\<exists>r \<in> set (svc_Ports s). 0 < pr_First r \<and> PortRange_Contains r port)))"
  by (rule gate_ports_merged)

section \<open>The layers of the compiler\<close>

lemma CompileM3_Inr:
  assumes "CompileM3 json c generation = Inr p"
  obtains q where "Compile c generation = Inr q" "p = add_selections c generation q"
    "ValidateInspection c = []"
  using assms by (auto simp: CompileM3_def split: if_splits sum.splits)

lemma CompileM4_Inr:
  assumes "CompileM4 json c generation = Inr p"
  obtains q where "Compile c generation = Inr q"
    and "p = (if UsesM4 c
              then (add_selections c generation q)
                \<lparr>prog_requestGates := fold (add_gate c generation
                   (projr (compileTLSExclusions (cfg_TLSExclusions c))) (rulesByID (prog_Rules q)))
                   (cfg_Policies c) fmempty\<rparr>
              else add_selections c generation q)"
proof -
  from assms obtain p3 where p3: "CompileM3 json c generation = Inr p3"
    by (auto simp: CompileM4_def split: if_splits sum.splits list.splits)
  then obtain q where q: "Compile c generation = Inr q" "p3 = add_selections c generation q"
    by (rule CompileM3_Inr)
  have "prog_Rules p3 = prog_Rules q" by (simp add: q(2) add_selections_def Let_def)
  with assms p3 q(2) have "p = (if UsesM4 c
              then (add_selections c generation q)
                \<lparr>prog_requestGates := fold (add_gate c generation
                   (projr (compileTLSExclusions (cfg_TLSExclusions c))) (rulesByID (prog_Rules q)))
                   (cfg_Policies c) fmempty\<rparr>
              else add_selections c generation q)"
    by (auto simp: CompileM4_def split: if_splits sum.splits list.splits)
  with q(1) show thesis by (rule that)
qed

lemma add_selections_keeps:
  "Evaluate (add_selections c generation q) = Evaluate q"
  "InferAddressZone (add_selections c generation q) = InferAddressZone q"
  by (simp_all add: add_selections_def Evaluate_def InferAddressZone_def InferAddressZone_in_def
      Let_def fun_eq_iff)

lemma set_gates_keeps:
  "Evaluate (q\<lparr>prog_requestGates := gs\<rparr>) = Evaluate q"
  "InferAddressZone (q\<lparr>prog_requestGates := gs\<rparr>) = InferAddressZone q"
  by (simp_all add: Evaluate_def InferAddressZone_def InferAddressZone_in_def fun_eq_iff)

text \<open>
  C17: inspection and the request gate only annotate the connectivity program. Whatever the capabilities,
  a configuration that compiles also compiles as a plain connectivity program, and that program
  gives every packet view the same decision and every address the same zone.
\<close>

theorem gates_keep_verdicts:
  assumes "CompileForCapabilities json c generation caps = Inr p"
  shows "\<exists>q. Compile c generation = Inr q \<and> (\<forall>view. Evaluate p view = Evaluate q view)
    \<and> (\<forall>addr. InferAddressZone p addr = InferAddressZone q addr)"
proof -
  consider "CompileM4 json c generation = Inr p" | "CompileM3 json c generation = Inr p"
    | "CompileM2 c generation = Inr p"
    using assms by (auto simp: CompileForCapabilities_def split: if_splits)
  then show ?thesis
  proof cases
    case 1
    then show ?thesis by (rule CompileM4_Inr) (auto simp: set_gates_keeps add_selections_keeps)
  next
    case 2
    then show ?thesis by (rule CompileM3_Inr) (auto simp: add_selections_keeps)
  next
    case 3
    then show ?thesis by (auto simp: CompileM2_def split: list.splits)
  qed
qed

section \<open>When a gate applies\<close>

lemma fold_upd_lookup:
  assumes "distinct (map f xs)" "x \<in> set xs"
  shows "fmlookup (fold (\<lambda>x m. case h x of None \<Rightarrow> m | Some v \<Rightarrow> fmupd (f x) v m) xs m) (f x) =
    (case h x of None \<Rightarrow> fmlookup m (f x) | Some v \<Rightarrow> Some v)"
proof -
  have other: "fmlookup (fold (\<lambda>x m. case h x of None \<Rightarrow> m | Some v \<Rightarrow> fmupd (f x) v m) ys m) k = fmlookup m k"
    if "k \<notin> f ` set ys" for ys k m
    using that by (induction ys arbitrary: m) (auto split: option.splits)
  from assms show ?thesis
    by (induction xs arbitrary: m) (auto simp: other split: option.splits)
qed

lemmas fold_fmupd_lookup = fold_upd_lookup [where h = "\<lambda>x. Some (g x)" for g, simplified]

lemma gates_lookup:
  assumes "distinct (map pol_ID ps)" "policy \<in> set ps"
  shows "fmlookup (fold (add_gate c generation xs rules) ps fmempty) (pol_ID policy) =
    map_option (\<lambda>(profile, gate). gate_plan c generation xs rules policy profile gate)
      (policy_gate (profilesByID (cfg_Profiles c)) policy)"
proof -
  let ?h = "\<lambda>policy. map_option (\<lambda>(profile, gate). gate_plan c generation xs rules policy profile gate)
      (policy_gate (profilesByID (cfg_Profiles c)) policy)"
  have "add_gate c generation xs rules = (\<lambda>x m. case ?h x of None \<Rightarrow> m | Some v \<Rightarrow> fmupd (pol_ID x) v m)"
    by (auto simp: add_gate_def fun_eq_iff split: option.splits)
  then show ?thesis
    using fold_upd_lookup [OF assms, of ?h fmempty] by (simp split: option.splits)
qed

lemma gates_lookup_other:
  "i \<notin> pol_ID ` set ps \<Longrightarrow> fmlookup (fold (add_gate c generation xs rules) ps m) i = fmlookup m i"
  by (induction ps arbitrary: m) (auto simp: add_gate_def split: option.splits)

lemma tcp_service_ports:
  assumes "parseService raw = Some s" "svc_Protocol s = 6"
  shows "\<exists>r. svc_Ports s = [r] \<and> 0 < pr_First r"
proof -
  obtain sel where sel: "ParseServiceSelector raw = Inr sel" "ParseProtocol (sel_Protocol sel) = (6, True)"
      "svc_Ports s = (if sel_AllPorts sel then [] else [\<lparr>pr_First = sel_First sel, pr_Last = sel_Last sel\<rparr>])"
    using assms by (auto simp: parseService_def split: sum.splits prod.splits if_splits)
  have icmp: "ParseProtocol ''icmp'' = (1, True)" "ParseProtocol ''icmpv6'' = (58, True)" by code_simp+
  have "\<not> sel_AllPorts sel \<and> 1 \<le> sel_First sel"
    using wf_ParseServiceSelector [OF sel(1)] sel(2)
    by (auto simp: wf_ServiceSelector_def icmp split: if_splits)
  then show ?thesis
    using sel(3) by (auto simp: word_less_def word_le_def)
qed

lemma compile_services_parsed:
  "compile_services i raws = Inr ss \<Longrightarrow> s \<in> set ss \<Longrightarrow> \<exists>raw. parseService raw = Some s"
  by (induction raws arbitrary: ss) (auto split: option.splits sum.splits)

lemma compile_services_Nil: "compile_services i raws = Inr ss \<Longrightarrow> ss = [] \<longleftrightarrow> raws = []"
  by (cases raws) (auto split: option.splits sum.splits)

lemma gate_ports_in:
  "list_ex (\<lambda>r. PortRange_Contains r port) (RequestGateTCPPorts rule) \<longleftrightarrow>
     (if rule_Services rule = [] then port = 80 \<or> port = 443
      else \<exists>s \<in> set (rule_Services rule). svc_Protocol s = 6
        \<and> (\<exists>r \<in> set (svc_Ports s). 0 < pr_First r \<and> PortRange_Contains r port))"
  using gate_ports_merged by blast

lemma hit_rule_ports:
  assumes "compile_rule policy = Inr rule" "rule_hit rule view" "v_Protocol view = 6"
  shows "list_ex (\<lambda>r. PortRange_Contains r (v_DestinationPort view)) (RequestGateTCPPorts rule) \<longleftrightarrow>
    pol_Services policy \<noteq> [] \<or> v_DestinationPort view = 80 \<or> v_DestinationPort view = 443"
proof -
  have svc: "compile_services (pol_ID policy) (pol_Services policy) = Inr (rule_Services rule)"
    using assms(1) by (auto simp: compile_rule_def split: if_splits option.splits sum.splits)
  show ?thesis
  proof (cases "pol_Services policy = []")
    case True
    with svc show ?thesis by (simp add: gate_ports_in)
  next
    case False
    then have ne: "rule_Services rule \<noteq> []" using compile_services_Nil [OF svc] by simp
    then obtain s where s: "s \<in> set (rule_Services rule)" "svc_Protocol s = 6"
        "svc_Ports s = [] \<or> list_ex (\<lambda>r. PortRange_Contains r (v_DestinationPort view)) (svc_Ports s)"
      using assms(2,3)
      by (auto simp: rule_hit_def ruleMatches_def serviceMatch_def list_ex_iff split: if_splits)
    obtain r where "svc_Ports s = [r]" "0 < pr_First r"
      using compile_services_parsed [OF svc s(1)] tcp_service_ports s(2) by blast
    with s(3) have "\<exists>r \<in> set (svc_Ports s). 0 < pr_First r \<and> PortRange_Contains r (v_DestinationPort view)" by auto
    with s(1,2) ne False show ?thesis by (auto simp: gate_ports_in)
  qed
qed

lemma decided_rule:
  assumes "Compile c generation = Inr q" "distinct (map pol_ID (cfg_Policies c))"
    "dec_PolicyID (Evaluate q view) = pol_ID policy" "policy \<in> set (cfg_Policies c)" "pol_ID policy \<noteq> ''''"
  obtains rule where "compile_rule policy = Inr rule" "rule_hit rule view" "pol_Enabled policy"
    "dec_Action (Evaluate q view) = pol_Action policy"
    "fmlookup (rulesByID (prog_Rules q)) (pol_ID policy) = Some rule"
proof -
  note C = Compile_Inr [OF assms(1)]
  let ?ps = "filter pol_Enabled (sort_key pol_Priority (cfg_Policies c))"
  have all2: "list_all2 (\<lambda>q r. compile_rule q = Inr r) ?ps (prog_Rules q)"
    using C(2) by (simp add: map_err_Inr_iff)
  have only: "other = policy" if "other \<in> set (cfg_Policies c)" "pol_ID other = pol_ID policy" for other
    using assms(2,4) that by (auto simp: distinct_map dest: inj_onD)
  have sel: "policy_selects policy view \<and> dec_Action (Evaluate q view) = pol_Action policy"
    using evaluate_policy_cases [OF assms(1), of view]
  proof (elim disjE bexE conjE)
    fix other
    assume "other \<in> set (cfg_Policies c)" "policy_selects other view"
      "Evaluate q view = \<lparr>dec_Action = pol_Action other, dec_PolicyID = pol_ID other, dec_Generation = generation,
           dec_Reason = ''policy '' @ pol_ID other @ '' matched''\<rparr>"
    moreover from this have "other = policy" using assms(3) by (intro only) simp_all
    ultimately show ?thesis by simp
  qed (use assms(3,5) in simp)
  then have "policy \<in> set ?ps" using assms(4) by (simp add: policy_selects_def)
  then obtain rule where rule: "rule \<in> set (prog_Rules q)" "compile_rule policy = Inr rule"
    using list_all2_mem [OF all2] by blast
  have ids: "map rule_ID (prog_Rules q) = map pol_ID ?ps"
    using all2 by (induction rule: list_all2_induct) (auto simp: compile_rule_def split: if_splits option.splits sum.splits)
  have "distinct (map rule_ID (prog_Rules q))"
    unfolding ids using assms(2) by (intro distinct_map_filter) (simp add: distinct_map)
  then have "fmlookup (rulesByID (prog_Rules q)) (rule_ID rule) = Some rule"
    using fold_fmupd_lookup [of rule_ID "prog_Rules q" rule "\<lambda>r. r"] rule(1) by (simp add: rulesByID_def)
  moreover have "rule_ID rule = pol_ID policy" "pol_Enabled policy" "rule_hit rule view"
    using compile_rule_selects [OF rule(2)] sel by (auto simp: policy_selects_def)
  ultimately show thesis using that [OF rule(2)] sel by simp
qed

text \<open>
  C8: where the request gate applies. With the gate active and distinct policy identifiers, a packet
  view gets an enabled gate plan exactly when the policy that decides it allows, refers to a
  profile with an enabled gate, and the packet is TCP; a policy with explicit services gates every
  TCP port it allows, one without services only the ports 80 and 443.
\<close>

theorem gate_applies_exactly:
  assumes "CompileM4 json c generation = Inr p" "UsesM4 c" "distinct (map pol_ID (cfg_Policies c))"
    "'''' \<notin> pol_ID ` set (cfg_Policies c)"
  shows "gp_Enabled (SelectRequestGate p view) \<longleftrightarrow>
    (\<exists>policy \<in> set (cfg_Policies c). dec_PolicyID (Evaluate p view) = pol_ID policy
       \<and> pol_Action policy = DecisionAllow
       \<and> (\<exists>profile gate. fmlookup (profilesByID (cfg_Profiles c)) (pol_SecurityProfileID policy) = Some profile
            \<and> prof_RequestGate profile = Some gate \<and> rgp_Enabled gate)
       \<and> v_Protocol view = 6
       \<and> (pol_Services policy \<noteq> [] \<or> v_DestinationPort view = 80 \<or> v_DestinationPort view = 443))"
proof -
  from assms(1) obtain q where q: "Compile c generation = Inr q" and
    p: "p = (add_selections c generation q)\<lparr>prog_requestGates := fold (add_gate c generation
           (projr (compileTLSExclusions (cfg_TLSExclusions c))) (rulesByID (prog_Rules q)))
           (cfg_Policies c) fmempty\<rparr>"
    by (rule CompileM4_Inr) (use assms(2) in auto)
  have ev: "Evaluate p = Evaluate q" by (simp add: p set_gates_keeps add_selections_keeps)
  let ?d = "Evaluate q view"
  show ?thesis
  proof (cases "\<exists>policy \<in> set (cfg_Policies c). dec_PolicyID ?d = pol_ID policy")
    case False
    then have "dec_PolicyID ?d \<notin> pol_ID ` set (cfg_Policies c)" by blast
    then have "fmlookup (prog_requestGates p) (dec_PolicyID ?d) = None"
      by (simp add: p gates_lookup_other)
    with False show ?thesis
      by (auto simp: SelectRequestGate_def ev plan_off_def Let_def)
  next
    case True
    then obtain policy where policy: "policy \<in> set (cfg_Policies c)" "dec_PolicyID ?d = pol_ID policy"
      by blast
    then have ne: "pol_ID policy \<noteq> ''''" using assms(4) by force
    obtain rule where rule: "compile_rule policy = Inr rule" "rule_hit rule view" "pol_Enabled policy"
        "dec_Action ?d = pol_Action policy" "fmlookup (rulesByID (prog_Rules q)) (pol_ID policy) = Some rule"
      by (rule decided_rule [OF q assms(3) policy(2,1) ne])
    have only: "other = policy" if "other \<in> set (cfg_Policies c)" "pol_ID other = pol_ID policy" for other
      using assms(3) policy(1) that by (auto simp: distinct_map dest: inj_onD)
    have "gp_Enabled (SelectRequestGate p view) \<longleftrightarrow>
        policy_gate (profilesByID (cfg_Profiles c)) policy \<noteq> None \<and> v_Protocol view = 6
        \<and> list_ex (\<lambda>r. PortRange_Contains r (v_DestinationPort view)) (RequestGateTCPPorts rule)"
    proof (cases "policy_gate (profilesByID (cfg_Profiles c)) policy")
      case None
      then have "fmlookup (prog_requestGates p) (pol_ID policy) = None"
        by (simp add: p gates_lookup [OF assms(3) policy(1)])
      with None show ?thesis
        by (simp add: SelectRequestGate_def ev policy(2) plan_off_def Let_def)
    next
      case (Some pg)
      then obtain plan where "fmlookup (prog_requestGates p) (pol_ID policy) = Some plan"
          "gp_Enabled plan" "gp_tcpPorts plan = RequestGateTCPPorts rule"
        by (cases pg) (auto simp: p gates_lookup [OF assms(3) policy(1)] gate_plan_def rule(5))
      moreover have "pol_Action policy = DecisionAllow"
        using Some by (auto simp: policy_gate_def split: if_splits)
      ultimately show ?thesis
        using Some ne rule(4) by (simp add: SelectRequestGate_def ev policy(2) plan_off_def Let_def)
    qed
    moreover have "policy_gate (profilesByID (cfg_Profiles c)) policy \<noteq> None \<longleftrightarrow> pol_Action policy = DecisionAllow
        \<and> (\<exists>profile gate. fmlookup (profilesByID (cfg_Profiles c)) (pol_SecurityProfileID policy) = Some profile
            \<and> prof_RequestGate profile = Some gate \<and> rgp_Enabled gate)"
      using rule(3) by (auto simp: policy_gate_def split: option.splits)
    moreover have "(\<exists>x \<in> set (cfg_Policies c). dec_PolicyID ?d = pol_ID x \<and> Q x) \<longleftrightarrow> Q policy" for Q
      using policy only by metis
    ultimately show ?thesis
      using hit_rule_ports [OF rule(1,2)] by (simp add: ev cong: conj_cong)
  qed
qed

definition gated_program :: Program where
  "gated_program = projr (CompileM4 example_json gated_config 7)"

lemma gated_compiles: "CompileM4 example_json gated_config 7 = Inr gated_program"
proof -
  have "\<not> isl (CompileM4 example_json gated_config 7)" by code_simp
  then show ?thesis by (simp add: gated_program_def)
qed

theorem gates_keep_verdicts_witness:
  "CompileForCapabilities example_json gated_config 7 \<lparr>cap_Inspection = False, cap_RequestGate = True\<rparr>
     = Inr gated_program
   \<and> (\<exists>q. Compile gated_config 7 = Inr q \<and> (\<forall>view. Evaluate gated_program view = Evaluate q view))"
proof -
  have "UsesM4 gated_config \<and> \<not> UsesM3 gated_config" by code_simp
  then have "CompileForCapabilities example_json gated_config 7 \<lparr>cap_Inspection = False, cap_RequestGate = True\<rparr>
     = Inr gated_program"
    by (simp add: CompileForCapabilities_def gated_compiles)
  then show ?thesis using gates_keep_verdicts by blast
qed

theorem gate_applies_exactly_witness:
  "gp_Enabled (SelectRequestGate gated_program example_view)
   \<and> (\<exists>policy \<in> set (cfg_Policies gated_config).
        dec_PolicyID (Evaluate gated_program example_view) = pol_ID policy)"
proof -
  have "gp_Enabled (SelectRequestGate gated_program example_view)" by code_simp
  moreover have "UsesM4 gated_config" "distinct (map pol_ID (cfg_Policies gated_config))"
      "'''' \<notin> pol_ID ` set (cfg_Policies gated_config)" by code_simp+
  ultimately show ?thesis using gate_applies_exactly [OF gated_compiles] by blast
qed

end
