(* ===== verification/Cache_Mark.thy ===== *)
theory Cache_Mark
imports Ngfw_Prelude
begin

text \<open>
  The verdict cache carried by the kernel's connection mark (\<open>internal/dataplane/mark.go\<close>): the
  upper 24 bits hold a configuration epoch and the two zone slots, the lower byte belongs to other
  users of the mark.
\<close>

unbundle bit_operations_syntax

section \<open>Data and operations\<close>

abbreviation NGFWMarkMask :: u32 where "NGFWMarkMask \<equiv> 0xffffff00"
abbreviation NGFWMarkEpochMask :: u32 where "NGFWMarkEpochMask \<equiv> 0xfff00000"
abbreviation NGFWMarkSourceMask :: u32 where "NGFWMarkSourceMask \<equiv> 0x000fc000"
abbreviation NGFWMarkDestMask :: u32 where "NGFWMarkDestMask \<equiv> 0x00003f00"
abbreviation MaxKernelEpoch :: int where "MaxKernelEpoch \<equiv> 4095"
abbreviation MaxZoneSlots :: int where "MaxZoneSlots \<equiv> 63"

record CacheMark =
  cm_Epoch :: u16
  cm_SourceZoneSlot :: u8
  cm_DestinationZoneSlot :: u8

datatype MarkError = ErrEpochRange | ErrZoneSlotRange

definition PackCacheMark :: "CacheMark \<Rightarrow> u32 \<times> MarkError option" where
  "PackCacheMark mark =
     (if cm_Epoch mark = 0 \<or> uint (cm_Epoch mark) > MaxKernelEpoch then (0, Some ErrEpochRange)
      else if cm_SourceZoneSlot mark = 0 \<or> uint (cm_SourceZoneSlot mark) > MaxZoneSlots
          \<or> cm_DestinationZoneSlot mark = 0 \<or> uint (cm_DestinationZoneSlot mark) > MaxZoneSlots
        then (0, Some ErrZoneSlotRange)
      else (push_bit 20 (ucast (cm_Epoch mark)) OR push_bit 14 (ucast (cm_SourceZoneSlot mark))
            OR push_bit 8 (ucast (cm_DestinationZoneSlot mark)), None))"

definition UnpackCacheMark :: "u32 \<Rightarrow> CacheMark \<times> bool" where
  "UnpackCacheMark v =
     (let v = v AND NGFWMarkMask;
          mark = \<lparr>cm_Epoch = ucast (drop_bit 20 (v AND NGFWMarkEpochMask)),
                  cm_SourceZoneSlot = ucast (drop_bit 14 (v AND NGFWMarkSourceMask)),
                  cm_DestinationZoneSlot = ucast (drop_bit 8 (v AND NGFWMarkDestMask))\<rparr> in
      (mark, cm_Epoch mark \<noteq> 0 \<and> cm_SourceZoneSlot mark \<noteq> 0 \<and> cm_DestinationZoneSlot mark \<noteq> 0))"

definition SetCacheMark :: "u32 \<Rightarrow> CacheMark \<Rightarrow> u32 \<times> MarkError option" where
  "SetCacheMark existing mark =
     (case PackCacheMark mark of
        (packed, Some err) \<Rightarrow> (existing, Some err)
      | (packed, None) \<Rightarrow> ((existing AND NOT NGFWMarkMask) OR packed, None))"

definition ClearCacheMark :: "u32 \<Rightarrow> bool \<Rightarrow> u32" where
  "ClearCacheMark existing ownsMark =
     (if \<not> ownsMark then existing else existing AND NOT NGFWMarkMask)"

definition CacheHit :: "u32 \<Rightarrow> CacheMark \<Rightarrow> bool \<Rightarrow> bool" where
  "CacheHit existing expected ownsMark =
     (if \<not> ownsMark then False
      else let (packed, err) = PackCacheMark expected in err = None \<and> existing AND NGFWMarkMask = packed)"

definition CacheModeAllowed :: "int \<Rightarrow> bool \<Rightarrow> bool" where
  "CacheModeAllowed zoneCount foreignUpperBits \<longleftrightarrow>
     zoneCount > 0 \<and> zoneCount \<le> MaxZoneSlots \<and> \<not> foreignUpperBits"

section \<open>The mark as bit fields\<close>

text \<open>A mark whose fields fit their bit fields and are not zero.\<close>

definition wf_mark :: "CacheMark \<Rightarrow> bool" where
  "wf_mark m \<longleftrightarrow> 0 < uint (cm_Epoch m) \<and> uint (cm_Epoch m) < 2 ^ 12
     \<and> 0 < uint (cm_SourceZoneSlot m) \<and> uint (cm_SourceZoneSlot m) < 2 ^ 6
     \<and> 0 < uint (cm_DestinationZoneSlot m) \<and> uint (cm_DestinationZoneSlot m) < 2 ^ 6"

lemma masks:
  "NGFWMarkMask = push_bit 8 (mask 24)" "NGFWMarkEpochMask = push_bit 20 (mask 12)"
  "NGFWMarkSourceMask = push_bit 14 (mask 6)" "NGFWMarkDestMask = push_bit 8 (mask 6)"
  by (simp_all add: mask_eq_exp_minus_1 push_bit_eq_mult)

lemma uint_pos: "0 < uint w \<longleftrightarrow> w \<noteq> 0" for w :: "'a::len word"
  by (metis uint_0_iff order.not_eq_order_implies_strict uint_ge_0 less_irrefl)

lemma high_bits_clear:
  fixes w :: "'a::len word"
  assumes "uint w < 2 ^ k" "k \<le> n"
  shows "\<not> bit w n"
proof
  assume "bit w n"
  then have "bit (uint w) n" using bit_imp_le_length [OF \<open>bit w n\<close>] by (simp add: bit_uint_iff)
  moreover have "take_bit k (uint w) = uint w" using assms(1) by (simp add: take_bit_int_eq_self)
  ultimately show False using assms(2) by (metis bit_take_bit_iff not_le)
qed

lemma wf_mark_bits:
  assumes "wf_mark m"
  shows "bit (cm_Epoch m) n \<Longrightarrow> n < 12" "bit (cm_SourceZoneSlot m) n \<Longrightarrow> n < 6"
    "bit (cm_DestinationZoneSlot m) n \<Longrightarrow> n < 6"
  using assms high_bits_clear [of "cm_Epoch m" 12 n] high_bits_clear [of "cm_SourceZoneSlot m" 6 n]
    high_bits_clear [of "cm_DestinationZoneSlot m" 6 n]
  by (auto simp: wf_mark_def not_less [symmetric])

definition packed :: "CacheMark \<Rightarrow> u32" where
  "packed m = push_bit 20 (ucast (cm_Epoch m)) OR push_bit 14 (ucast (cm_SourceZoneSlot m))
     OR push_bit 8 (ucast (cm_DestinationZoneSlot m))"

lemma PackCacheMark_wf: "snd (PackCacheMark m) = None \<longleftrightarrow> wf_mark m"
  by (auto simp: PackCacheMark_def wf_mark_def uint_pos)

lemma PackCacheMark_eq: "wf_mark m \<Longrightarrow> PackCacheMark m = (packed m, None)"
  using PackCacheMark_wf [of m] by (auto simp: PackCacheMark_def packed_def split: if_splits)

lemma packed_upper: "wf_mark m \<Longrightarrow> packed m AND NGFWMarkMask = packed m"
  unfolding masks
  by (rule bit_word_eqI)
    (auto simp: packed_def bit_simps dest: wf_mark_bits)

lemma Unpack_fields:
  assumes "wf_mark m" "v AND NGFWMarkMask = packed m"
  shows "UnpackCacheMark v = (m, True)"
proof -
  have e: "ucast (drop_bit 20 (packed m AND NGFWMarkEpochMask)) = cm_Epoch m"
    unfolding masks by (rule bit_word_eqI)
      (auto simp: packed_def bit_simps dest: wf_mark_bits [OF assms(1)])
  have s: "ucast (drop_bit 14 (packed m AND NGFWMarkSourceMask)) = cm_SourceZoneSlot m"
    unfolding masks by (rule bit_word_eqI)
      (auto simp: packed_def bit_simps dest: wf_mark_bits [OF assms(1)])
  have d: "ucast (drop_bit 8 (packed m AND NGFWMarkDestMask)) = cm_DestinationZoneSlot m"
    unfolding masks by (rule bit_word_eqI)
      (auto simp: packed_def bit_simps dest: wf_mark_bits [OF assms(1)])
  show ?thesis
    unfolding UnpackCacheMark_def Let_def assms(2) CacheMark.simps e s d
    using assms(1) by (simp add: wf_mark_def uint_pos)
qed

lemma packed_inject: "wf_mark m \<Longrightarrow> wf_mark m' \<Longrightarrow> packed m = packed m' \<longleftrightarrow> m = m'"
  by (metis Unpack_fields packed_upper prod.inject)

lemma SetCacheMark_None:
  "SetCacheMark existing m = (v, None) \<longleftrightarrow> wf_mark m \<and> v = (existing AND NOT NGFWMarkMask) OR packed m"
  using PackCacheMark_wf [of m] PackCacheMark_eq [of m]
  by (auto simp: SetCacheMark_def split: prod.splits option.splits)

lemma mask_update:
  fixes p :: "'a::len word"
  assumes "p AND M = p"
  shows "((e AND NOT M) OR p) AND M = p" "((e AND NOT M) OR p) AND NOT M = e AND NOT M"
proof -
  have M: "bit p n \<Longrightarrow> bit M n" for n using assms by (metis bit_and_iff)
  show "((e AND NOT M) OR p) AND M = p" "((e AND NOT M) OR p) AND NOT M = e AND NOT M"
    by (rule bit_word_eqI; auto simp: bit_simps dest: M)+
qed

lemmas upper_of_set = mask_update [OF packed_upper]

lemma Unpack_clear: "\<not> snd (UnpackCacheMark (v AND NOT NGFWMarkMask))"
  by (simp add: UnpackCacheMark_def and.assoc)

lemma CacheHit_packed: "CacheHit v m True \<longleftrightarrow> wf_mark m \<and> v AND NGFWMarkMask = packed m"
  using PackCacheMark_wf [of m] PackCacheMark_eq [of m]
  by (auto simp: CacheHit_def split: prod.splits)

section \<open>Properties\<close>

text \<open>
  C36: a cache mark that can be written is read back exactly: whatever the connection mark held,
  unpacking the written mark gives the epoch and the two zone slots and reports them valid, the
  cache is hit for that mark and for no other, the byte of the other users is unchanged, and
  clearing gives what clearing the old mark gives, a mark without a cached verdict.
\<close>

theorem cache_mark_roundtrip:
  assumes "SetCacheMark existing m = (v, None)"
  shows "UnpackCacheMark v = (m, True)
    \<and> (CacheHit v m' True \<longleftrightarrow> m' = m)
    \<and> v AND 0xff = existing AND 0xff
    \<and> ClearCacheMark v True = ClearCacheMark existing True
    \<and> \<not> snd (UnpackCacheMark (ClearCacheMark v True))"
proof (intro conjI)
  have wf: "wf_mark m" and v: "v = (existing AND NOT NGFWMarkMask) OR packed m"
    using assms by (auto simp: SetCacheMark_None)
  note upper = upper_of_set [OF wf, of existing, folded v]
  show "UnpackCacheMark v = (m, True)" by (rule Unpack_fields [OF wf upper(1)])
  show "CacheHit v m' True \<longleftrightarrow> m' = m"
    using packed_inject [OF wf] wf by (auto simp: CacheHit_packed upper(1))
  have low: "NOT NGFWMarkMask = 0xff" by simp
  show "v AND 0xff = existing AND 0xff" using upper(2) unfolding low .
  show "ClearCacheMark v True = ClearCacheMark existing True"
    using upper(2) by (simp add: ClearCacheMark_def)
  show "\<not> snd (UnpackCacheMark (ClearCacheMark v True))"
    by (simp only: ClearCacheMark_def Unpack_clear not_True_eq_False not_False_eq_True if_False)
qed

definition example_mark :: CacheMark where
  "example_mark = \<lparr>cm_Epoch = 4095, cm_SourceZoneSlot = 63, cm_DestinationZoneSlot = 2\<rparr>"

theorem cache_mark_roundtrip_witness:
  "SetCacheMark 0x12345678 example_mark = (0xffffc278, None)
   \<and> UnpackCacheMark 0xffffc278 = (example_mark, True)
   \<and> ClearCacheMark 0xffffc278 True = ClearCacheMark 0x12345678 True"
proof -
  have "SetCacheMark 0x12345678 example_mark = (0xffffc278, None)" by code_simp
  with cache_mark_roundtrip [OF this] show ?thesis by blast
qed


end
