(* ===== verification/Kernel_Epoch.thy ===== *)
theory Kernel_Epoch
imports Cache_Mark
begin

text \<open>
  The allocator of kernel cache epochs (\<open>internal/dataplane/epoch.go\<close>) and the file replacement it
  rests on (\<open>writeAtomic\<close> of \<open>internal/dataplane/forwarding.go\<close>). The only durable state is the
  content of one file. The outcome of every system call is a field of \<open>WriteIO\<close>, so that any call may
  fail; JSON, the hash and the clock are the fields of \<open>EpochEnv\<close>. The payload is only handed from
  one of these functions to another, so its type is a parameter.
\<close>

section \<open>Replacing a file\<close>

datatype RemoveResult = Removed | RemoveNotExist | RemoveFailed

record WriteIO =
  io_MkdirAll :: bool
  io_CreateTemp :: bool
  io_Chmod :: bool
  io_Write :: bool
  io_Sync :: bool
  io_Close :: bool
  io_Rename :: bool
  io_Remove :: RemoveResult
  io_RenameRetry :: bool
  io_OpenDir :: bool
  io_SyncDir :: bool

datatype EpochError =
    ErrPathRequired | ErrRead | ErrDecode | ErrChecksum | ErrSchema | ErrExhausted | ErrEncode
  | ErrMkdirAll | ErrCreateTemp | ErrChmod | ErrWrite | ErrSync | ErrClose | ErrRename
  | ErrRenameRetry | ErrSyncDir

definition sync_dir :: "string \<Rightarrow> WriteIO \<Rightarrow> EpochError option" where
  "sync_dir goos io =
     (if io_OpenDir io \<and> \<not> io_SyncDir io \<and> goos \<noteq> ''windows'' then Some ErrSyncDir else None)"

text \<open>The content of the file after the call (\<open>None\<close>: no file), and the error returned.\<close>

definition writeAtomic ::
  "string \<Rightarrow> WriteIO \<Rightarrow> 'p \<Rightarrow> 'p option \<Rightarrow> 'p option \<times> EpochError option" where
  "writeAtomic goos io payload disk =
     (if \<not> io_CreateTemp io then (disk, Some ErrCreateTemp)
      else if \<not> io_Chmod io then (disk, Some ErrChmod)
      else if \<not> io_Write io then (disk, Some ErrWrite)
      else if \<not> io_Sync io then (disk, Some ErrSync)
      else if \<not> io_Close io then (disk, Some ErrClose)
      else if io_Rename io then (Some payload, sync_dir goos io)
      else if io_Remove io = RemoveFailed then (disk, Some ErrRename)
      else if \<not> io_RenameRetry io then (None, Some ErrRenameRetry)
      else (Some payload, sync_dir goos io))"

section \<open>The allocator\<close>

record EpochState =
  es_Schema :: int
  es_BootID :: string
  es_Highest :: u16
  es_UpdatedAt :: gotime
  es_Checksum :: string

record EpochAllocator =
  ea_bootID :: string
  ea_state :: EpochState

record 'p EpochEnv =
  ee_Marshal :: "EpochState \<Rightarrow> 'p option"
  ee_MarshalIndent :: "EpochState \<Rightarrow> 'p option"
  ee_Unmarshal :: "'p \<Rightarrow> EpochState option"
  ee_Sum256 :: "'p \<Rightarrow> u8 list"
  ee_GOOS :: string

definition EpochStateZero :: EpochState where
  "EpochStateZero =
     \<lparr>es_Schema = 0, es_BootID = '''', es_Highest = 0, es_UpdatedAt = 0, es_Checksum = ''''\<rparr>"

definition epochChecksum :: "'p EpochEnv \<Rightarrow> EpochState \<Rightarrow> string option" where
  "epochChecksum env state =
     map_option (\<lambda>data. EncodeToString (ee_Sum256 env data)) (ee_Marshal env (state\<lparr>es_Checksum := ''''\<rparr>))"

text \<open>\<open>readable = False\<close>: reading fails with an error other than that there is no file.\<close>

definition NewEpochAllocator ::
  "'p EpochEnv \<Rightarrow> string \<Rightarrow> string \<Rightarrow> bool \<Rightarrow> 'p option \<Rightarrow> EpochError + EpochAllocator" where
  "NewEpochAllocator env path bootID readable disk =
     (if path = '''' then Inl ErrPathRequired
      else if \<not> readable then Inl ErrRead
      else
        (case disk of
           None \<Rightarrow> Inr \<lparr>ea_bootID = bootID,
                        ea_state = EpochStateZero\<lparr>es_Schema := 1, es_BootID := bootID\<rparr>\<rparr>
         | Some payload \<Rightarrow>
             (case ee_Unmarshal env payload of
                None \<Rightarrow> Inl ErrDecode
              | Some state \<Rightarrow>
                  let checksum = es_Checksum state; state = state\<lparr>es_Checksum := ''''\<rparr> in
                  if epochChecksum env state = None \<or> checksum = ''''
                     \<or> Some checksum \<noteq> epochChecksum env state then Inl ErrChecksum
                  else
                    let state = state\<lparr>es_Checksum := checksum\<rparr> in
                    if es_Schema state \<noteq> 1 then Inl ErrSchema
                    else
                      let state = (if es_BootID state \<noteq> bootID
                                   then state\<lparr>es_Highest := 0, es_BootID := bootID\<rparr> else state) in
                      Inr \<lparr>ea_bootID = bootID, ea_state = state\<rparr>)))"

definition persistLocked ::
  "'p EpochEnv \<Rightarrow> WriteIO \<Rightarrow> EpochAllocator \<Rightarrow> 'p option \<Rightarrow> 'p option \<times> EpochError option" where
  "persistLocked env io a disk =
     (let state = (ea_state a)\<lparr>es_Checksum := ''''\<rparr> in
      case epochChecksum env state of
        None \<Rightarrow> (disk, Some ErrEncode)
      | Some checksum \<Rightarrow>
          (case ee_MarshalIndent env (state\<lparr>es_Checksum := checksum\<rparr>) of
             None \<Rightarrow> (disk, Some ErrEncode)
           | Some payload \<Rightarrow>
               if \<not> io_MkdirAll io then (disk, Some ErrMkdirAll)
               else writeAtomic (ee_GOOS env) io payload disk))"

definition Allocate ::
  "'p EpochEnv \<Rightarrow> WriteIO \<Rightarrow> gotime \<Rightarrow> EpochAllocator \<Rightarrow> 'p option
   \<Rightarrow> EpochAllocator \<times> 'p option \<times> (EpochError + u16)" where
  "Allocate env io now a disk =
     (if uint (es_Highest (ea_state a)) \<ge> MaxKernelEpoch then (a, disk, Inl ErrExhausted)
      else
        let a = a\<lparr>ea_state := (ea_state a)\<lparr>es_Highest := es_Highest (ea_state a) + 1,
                                          es_UpdatedAt := now\<rparr>\<rparr> in
        case persistLocked env io a disk of
          (disk, Some err) \<Rightarrow>
            (a\<lparr>ea_state := (ea_state a)\<lparr>es_Highest := es_Highest (ea_state a) - 1\<rparr>\<rparr>, disk, Inl err)
        | (disk, None) \<Rightarrow> (a, disk, Inr (es_Highest (ea_state a))))"

section \<open>Runs\<close>

text \<open>
  What happens to the allocator during one boot of the machine: allocations, each with the outcome
  of its system calls, and restarts of the engine, which read the file again. A restart that cannot
  read the state leaves no allocator. The last component collects the epochs handed out.
\<close>

datatype EpochOp = OpAllocate WriteIO gotime | OpRestart bool

type_synonym 'p EpochRun = "EpochAllocator option \<times> 'p option \<times> u16 list"

fun epoch_step :: "'p EpochEnv \<Rightarrow> string \<Rightarrow> string \<Rightarrow> EpochOp \<Rightarrow> 'p EpochRun \<Rightarrow> 'p EpochRun" where
  "epoch_step env path boot (OpRestart readable) (a, disk, issued) =
     (case NewEpochAllocator env path boot readable disk of
        Inl e \<Rightarrow> (None, disk, issued) | Inr b \<Rightarrow> (Some b, disk, issued))"
| "epoch_step env path boot (OpAllocate io now) (None, disk, issued) = (None, disk, issued)"
| "epoch_step env path boot (OpAllocate io now) (Some a, disk, issued) =
     (case Allocate env io now a disk of
        (a, disk, Inl e) \<Rightarrow> (Some a, disk, issued)
      | (a, disk, Inr epoch) \<Rightarrow> (Some a, disk, issued @ [epoch]))"

definition epoch_run ::
  "'p EpochEnv \<Rightarrow> string \<Rightarrow> string \<Rightarrow> EpochOp list \<Rightarrow> 'p option \<Rightarrow> 'p EpochRun" where
  "epoch_run env path boot ops disk = fold (epoch_step env path boot) ops (None, disk, [])"

text \<open>The file is not lost: a failed rename is not followed by a removal and a second failure.\<close>

fun keeps_file :: "EpochOp \<Rightarrow> bool" where
  "keeps_file (OpAllocate io now) \<longleftrightarrow> io_Rename io \<or> io_Remove io = RemoveFailed \<or> io_RenameRetry io"
| "keeps_file (OpRestart readable) \<longleftrightarrow> True"

section \<open>No epoch is handed out twice\<close>


text \<open>Every epoch handed out is covered by the state in memory and by the state on disk.\<close>

definition epoch_inv :: "'p EpochEnv \<Rightarrow> string \<Rightarrow> 'p EpochRun \<Rightarrow> bool" where
  "epoch_inv env boot r \<longleftrightarrow>
     (case r of (a, disk, issued) \<Rightarrow>
        sorted_wrt (<) issued \<and> (\<forall>e\<in>set issued. 0 < e \<and> uint e \<le> MaxKernelEpoch)
        \<and> (\<forall>b. a = Some b \<longrightarrow> es_BootID (ea_state b) = boot
             \<and> (\<forall>e\<in>set issued. e \<le> es_Highest (ea_state b)))
        \<and> (issued \<noteq> [] \<longrightarrow> (\<exists>p s. disk = Some p \<and> ee_Unmarshal env p = Some s \<and> es_BootID s = boot
             \<and> (\<forall>e\<in>set issued. e \<le> es_Highest s))))"

text \<open>
  What \<open>encoding/json\<close> documents: an encoded state is decoded to the same state. It is asked of the
  states of one boot only; the identifier of a boot is plain text, which JSON does not alter.
\<close>

definition json_roundtrip :: "'p EpochEnv \<Rightarrow> string \<Rightarrow> bool" where
  "json_roundtrip env boot \<longleftrightarrow>
     (\<forall>s p. es_BootID s = boot \<longrightarrow> ee_MarshalIndent env s = Some p \<longrightarrow> ee_Unmarshal env p = Some s)"

text \<open>Every system call of a replacement succeeds, and every state is encoded.\<close>

definition io_succeeds :: "WriteIO \<Rightarrow> bool" where
  "io_succeeds io \<longleftrightarrow> io_MkdirAll io \<and> io_CreateTemp io \<and> io_Chmod io \<and> io_Write io \<and> io_Sync io \<and> io_Close io
     \<and> io_Rename io \<and> io_SyncDir io"

definition json_encodes :: "'p EpochEnv \<Rightarrow> bool" where
  "json_encodes env \<longleftrightarrow> (\<forall>s. ee_Marshal env s \<noteq> None \<and> ee_MarshalIndent env s \<noteq> None)"

lemma Allocate_succeeds:
  assumes "io_succeeds io" "json_encodes env" "uint (es_Highest (ea_state a)) < MaxKernelEpoch"
  shows "\<exists>a' disk'. Allocate env io now a disk = (a', disk', Inr (es_Highest (ea_state a) + 1))"
proof -
  have "\<exists>p. persistLocked env io b disk = (Some p, None)" for b
  proof -
    obtain d where "ee_Marshal env ((ea_state b)\<lparr>es_Checksum := ''''\<rparr>) = Some d"
      using assms(2) by (auto simp: json_encodes_def)
    then obtain c where c: "epochChecksum env ((ea_state b)\<lparr>es_Checksum := ''''\<rparr>) = Some c"
      by (simp add: epochChecksum_def)
    obtain p where "ee_MarshalIndent env ((ea_state b)\<lparr>es_Checksum := c\<rparr>) = Some p"
      using assms(2) by (auto simp: json_encodes_def)
    with c assms(1) show ?thesis
      by (simp add: persistLocked_def writeAtomic_def sync_dir_def io_succeeds_def Let_def)
  qed
  then obtain p where "persistLocked env io (a\<lparr>ea_state := (ea_state a)\<lparr>es_Highest := es_Highest (ea_state a) + 1,
      es_UpdatedAt := now\<rparr>\<rparr>) disk = (Some p, None)" by blast
  then show ?thesis using assms(3) by (simp add: Allocate_def Let_def)
qed

lemma writeAtomic_disk:
  assumes "writeAtomic goos io p disk = (disk', err)"
  shows "disk' = disk \<or> disk' = Some p \<or> (disk' = None \<and> \<not> io_Rename io \<and> io_Remove io \<noteq> RemoveFailed
           \<and> \<not> io_RenameRetry io)"
    and "err = None \<Longrightarrow> disk' = Some p"
  using assms by (auto simp: writeAtomic_def split: if_splits)

lemma persistLocked_disk:
  assumes "persistLocked env io a disk = (disk', err)"
    and "io_Rename io \<or> io_Remove io = RemoveFailed \<or> io_RenameRetry io"
  shows "(disk' = disk \<and> err \<noteq> None)
    \<or> (\<exists>c p. disk' = Some p \<and> ee_MarshalIndent env ((ea_state a)\<lparr>es_Checksum := c\<rparr>) = Some p)"
  using assms writeAtomic_disk [of "ee_GOOS env" io _ disk disk' err]
  by (cases err) (auto simp: persistLocked_def Let_def split: option.splits if_splits)

lemma epoch_succ:
  fixes h :: u16
  assumes "uint h < MaxKernelEpoch"
  shows "uint (h + 1) = uint h + 1" "h < h + 1" "0 < h + 1"
proof -
  show *: "uint (h + 1) = uint h + 1"
    using assms by (simp add: uint_word_ariths take_bit_int_eq_self)
  then show "h < h + 1" "0 < h + 1" using uint_ge_0 [of h] by (simp_all add: word_less_def)
qed

lemma NewEpochAllocator_Inr:
  assumes "NewEpochAllocator env path boot readable disk = Inr b"
  shows "es_BootID (ea_state b) = boot"
    and "disk = Some p \<Longrightarrow> ee_Unmarshal env p = Some s \<Longrightarrow> es_BootID s = boot
      \<Longrightarrow> es_Highest (ea_state b) = es_Highest s"
  using assms by (auto simp: NewEpochAllocator_def Let_def split: if_splits option.splits)

lemma Allocate_cases:
  assumes "Allocate env io now a disk = (a', disk', r)"
    and "json_roundtrip env (es_BootID (ea_state a))" "keeps_file (OpAllocate io now)"
  obtains (keep) err where "r = Inl err" "disk' = disk" "es_Highest (ea_state a') = es_Highest (ea_state a)"
      "es_BootID (ea_state a') = es_BootID (ea_state a)"
  | (written) s where "uint (es_Highest (ea_state a)) < MaxKernelEpoch"
      "\<exists>p. disk' = Some p \<and> ee_Unmarshal env p = Some s"
      "es_BootID s = es_BootID (ea_state a)" "es_Highest s = es_Highest (ea_state a) + 1"
      "es_BootID (ea_state a') = es_BootID (ea_state a)"
      "(\<exists>err. r = Inl err) \<and> es_Highest (ea_state a') = es_Highest (ea_state a)
       \<or> r = Inr (es_Highest s) \<and> es_Highest (ea_state a') = es_Highest s"
proof (cases "uint (es_Highest (ea_state a)) \<ge> MaxKernelEpoch")
  case True
  with assms(1) show thesis by (auto simp: Allocate_def intro: keep)
next
  case False
  define b where "b = a\<lparr>ea_state := (ea_state a)\<lparr>es_Highest := es_Highest (ea_state a) + 1,
    es_UpdatedAt := now\<rparr>\<rparr>"
  obtain d e where p: "persistLocked env io b disk = (d, e)" by fastforce
  have r: "disk' = d" "es_BootID (ea_state a') = es_BootID (ea_state a)"
    "e \<noteq> None \<Longrightarrow> (\<exists>err. r = Inl err) \<and> es_Highest (ea_state a') = es_Highest (ea_state a)"
    "e = None \<Longrightarrow> r = Inr (es_Highest (ea_state b)) \<and> es_Highest (ea_state a') = es_Highest (ea_state b)"
    using assms(1) False p by (auto simp: Allocate_def b_def Let_def split: option.splits)
  from persistLocked_disk [OF p] assms(3) consider "d = disk" "e \<noteq> None"
    | c q where "d = Some q" "ee_MarshalIndent env ((ea_state b)\<lparr>es_Checksum := c\<rparr>) = Some q" by auto
  then show thesis
  proof cases
    case 1
    with r show thesis by (auto intro: keep)
  next
    case (2 c q)
    then have "ee_Unmarshal env q = Some ((ea_state b)\<lparr>es_Checksum := c\<rparr>)"
      using assms(2) by (simp add: json_roundtrip_def b_def)
    with 2 r False show thesis
      by (intro written [of "(ea_state b)\<lparr>es_Checksum := c\<rparr>"]) (auto simp: b_def)
  qed
qed

lemma epoch_step_inv:
  assumes inv: "epoch_inv env boot r" and json: "json_roundtrip env boot" and op: "keeps_file op"
  shows "epoch_inv env boot (epoch_step env path boot op r)"
proof -
  obtain a disk issued where r: "r = (a, disk, issued)" by (cases r)
  show ?thesis
  proof (cases op)
    case (OpRestart readable)
    with inv r show ?thesis
      by (auto simp: epoch_inv_def NewEpochAllocator_Inr(1) dest: NewEpochAllocator_Inr(2) split: sum.splits)
  next
    case op': (OpAllocate io now)
    show ?thesis
    proof (cases a)
      case None
      with inv r op' show ?thesis by simp
    next
      case (Some b)
      let ?h = "es_Highest (ea_state b)"
      obtain b' disk' res where alloc: "Allocate env io now b disk = (b', disk', res)" by (metis prod_cases3)
      have boot: "es_BootID (ea_state b) = boot" and below: "\<forall>e\<in>set issued. e \<le> ?h"
        using inv r Some by (auto simp: epoch_inv_def)
      from alloc json [folded boot] op [unfolded op'] show ?thesis
      proof (cases rule: Allocate_cases)
        case (keep err)
        with inv r op' Some alloc show ?thesis by (auto simp: epoch_inv_def)
      next
        case (written s)
        note h = epoch_succ [OF written(1)]
        have "\<forall>e\<in>set issued. e \<le> ?h + 1" "\<forall>e\<in>set issued. e < ?h + 1"
          using below h(2) by (auto intro: order.trans order.strict_trans1)
        moreover have "uint (?h + 1) \<le> MaxKernelEpoch" using h(1) written(1) by simp
        ultimately show ?thesis
          using inv r op' Some alloc written boot below h(3)
          by (auto simp: epoch_inv_def sorted_wrt_append)
      qed
    qed
  qed
qed

lemma epoch_run_inv:
  assumes "json_roundtrip env boot" "\<forall>op\<in>set ops. keeps_file op"
  shows "epoch_inv env boot (epoch_run env path boot ops disk)"
proof -
  have "epoch_inv env boot r \<Longrightarrow> epoch_inv env boot (fold (epoch_step env path boot) ops r)" for r
    using assms(2)
    by (induction ops arbitrary: r) (simp_all add: epoch_step_inv [OF _ assms(1)] del: epoch_step.simps)
  then show ?thesis by (simp add: epoch_run_def epoch_inv_def)
qed


lemma increasing_bound:
  assumes "sorted_wrt (<) es" "\<forall>e\<in>set es. 0 < (e::u16) \<and> uint e \<le> n"
  shows "distinct es" "int (length es) \<le> max 0 n"
proof -
  show d: "distinct es" using assms(1) by (simp add: strict_sorted_iff)
  have "uint ` set es \<subseteq> {1..n}" using assms(2) by (auto simp: word_less_def)
  then have "card (uint ` set es) \<le> card {1..n}" by (rule card_mono [rotated]) simp
  moreover have "card (uint ` set es) = length es"
    using d by (metis card_image distinct_card inj_on_def word_uint_eq_iff)
  ultimately show "int (length es) \<le> max 0 n" by simp
qed


text \<open>An instance of the parameters, a run with failures and a run that loses the file.\<close>

definition example_epoch_env :: "EpochState EpochEnv" where
  "example_epoch_env =
     \<lparr>ee_Marshal = Some, ee_MarshalIndent = Some, ee_Unmarshal = Some,
      ee_Sum256 = (\<lambda>s. [ucast (es_Highest s)]), ee_GOOS = ''linux''\<rparr>"

definition io_ok :: WriteIO where
  "io_ok = \<lparr>io_MkdirAll = True, io_CreateTemp = True, io_Chmod = True, io_Write = True, io_Sync = True,
     io_Close = True, io_Rename = True, io_Remove = RemoveNotExist, io_RenameRetry = True,
     io_OpenDir = True, io_SyncDir = True\<rparr>"

definition example_epoch_ops :: "EpochOp list" where
  "example_epoch_ops =
     [OpRestart True, OpAllocate io_ok 5, OpAllocate (io_ok\<lparr>io_Sync := False\<rparr>) 6,
      OpAllocate (io_ok\<lparr>io_SyncDir := False\<rparr>) 7, OpRestart True, OpAllocate io_ok 8]"


text \<open>
  Without the second hypothesis the property fails: a failed rename, a successful removal and a
  failed second rename leave no file, and after a restart the first epoch is handed out again.
\<close>

lemma lost_file_reuses_an_epoch:
  "snd (snd (epoch_run example_epoch_env ''/e'' ''b1''
     [OpRestart True, OpAllocate io_ok 5,
      OpAllocate (io_ok\<lparr>io_Rename := False, io_Remove := Removed, io_RenameRetry := False\<rparr>) 6,
      OpRestart True, OpAllocate io_ok 7] None)) = [1, 1]"
  by code_simp


end
