(* ===== verification/Security_Events.thy ===== *)
theory Security_Events
imports Session_Types
begin

text \<open>
  The store of security events (\<open>internal/engine/security_events.go\<close>) with its records
  (\<open>internal/domain/security_event_m3.go\<close>): a ring of fixed capacity with an index by event
  identifier and a bound on the encoded bytes. Every operation holds the store's mutex. The
  encoding (\<open>json.Marshal\<close>) and the clock are parameters; \<open>None\<close> is a failed encoding. The ring's
  positions are natural numbers and the byte counts integers: both are bounded by slices held in
  memory.
\<close>

section \<open>Data\<close>

record ThreatEvent =
  te_EventID :: string
  te_Sequence :: u64
  te_ObservedAt :: "gotime option"
  te_IngestedAt :: gotime
  te_EventClass :: string
  te_Source :: string
  te_SensorID :: string
  te_SensorEpoch :: string
  te_SensorConfigHash :: string
  te_RulesetID :: string
  te_CaptureMode :: InspectionMode
  te_SuricataFlowID :: string
  te_TransactionID :: "string option"
  te_ObservedTuple :: "Tuple option"
  te_FlowTuple :: "Tuple option"
  te_ProtocolRaw :: string
  te_SessionID :: string
  te_PolicyID :: string
  te_PolicyGeneration :: u64
  te_CorrelationState :: CorrelationState
  te_CorrelationReason :: string
  te_CorrelationRevision :: u64
  te_SignatureID :: u32
  te_SignatureRevision :: u32
  te_Signature :: string
  te_Category :: string
  te_SourceSeverity :: "int option"
  te_Severity :: Severity
  te_Application :: ApplicationIdentity
  te_SignatureAction :: string
  te_PacketVerdict :: string
  te_Verdict :: LatestVerdict
  te_Enforcement :: EnforcementResult

definition ThreatEventZero :: ThreatEvent where
  "ThreatEventZero =
     \<lparr>te_EventID = '''', te_Sequence = 0, te_ObservedAt = None, te_IngestedAt = 0, te_EventClass = '''',
      te_Source = '''', te_SensorID = '''', te_SensorEpoch = '''', te_SensorConfigHash = '''',
      te_RulesetID = '''', te_CaptureMode = '''', te_SuricataFlowID = '''', te_TransactionID = None,
      te_ObservedTuple = None, te_FlowTuple = None, te_ProtocolRaw = '''', te_SessionID = '''',
      te_PolicyID = '''', te_PolicyGeneration = 0, te_CorrelationState = '''', te_CorrelationReason = '''',
      te_CorrelationRevision = 0, te_SignatureID = 0, te_SignatureRevision = 0, te_Signature = '''',
      te_Category = '''', te_SourceSeverity = None, te_Severity = '''',
      te_Application = \<lparr>app_Name = '''', app_RawName = '''', app_Source = '''', app_Confidence = '''',
        app_FirstSeen = None, app_LastSeen = None, app_Revision = 0, app_Conflicted = False,
        app_EvidenceID = ''''\<rparr>,
      te_SignatureAction = '''', te_PacketVerdict = '''', te_Verdict = '''',
      te_Enforcement = \<lparr>enf_Mechanism = '''', enf_Scope = '''', enf_RequestedAction = '''', enf_Status = '''',
        enf_Reason = '''', enf_ObservedAt = None, enf_OperationID = ''''\<rparr>\<rparr>"

record SecurityQuery =
  sq_SessionID :: string
  sq_SensorID :: string
  sq_Mode :: InspectionMode
  sq_Severity :: Severity
  sq_Verdict :: LatestVerdict
  sq_Correlation :: CorrelationState
  sq_Application :: string
  sq_SignatureID :: u32
  sq_HasSignatureID :: bool
  sq_AfterSequence :: u64
  sq_StreamID :: string
  sq_Limit :: int

record SecurityEventPage =
  sp_Items :: "ThreatEvent list"
  sp_StreamID :: string
  sp_GapFrom :: u64
  sp_NextSequence :: u64
  sp_NextCursor :: string
  sp_HasMore :: bool
  sp_OldestSequence :: u64
  sp_Gap :: bool
  sp_ResetRequired :: bool
  sp_EvictedCount :: u64

record SecurityEventStats =
  ss_CurrentEvents :: u64
  ss_CurrentBytes :: u64
  ss_Added :: u64
  ss_Duplicates :: u64
  ss_Evicted :: u64
  ss_RejectedBytes :: u64

record storedThreat =
  thr_event :: ThreatEvent
  thr_size :: int

definition storedThreatZero :: storedThreat where
  "storedThreatZero = \<lparr>thr_event = ThreatEventZero, thr_size = 0\<rparr>"

record SecurityEventStore =
  ses_items :: "storedThreat list"
  ses_index :: "(string, nat) fmap"
  ses_head :: nat
  ses_count :: nat
  ses_capacity :: nat
  ses_maxBytes :: int
  ses_bytes :: int
  ses_next :: u64
  ses_streamID :: string
  ses_stats :: SecurityEventStats

datatype EventError =
    ErrEventIDRequired | ErrMarshal | ErrSecurityEventTooLarge | ErrSecurityEventNotFound
  | ErrCorrelationState

section \<open>Operations\<close>

definition NewSecurityEventStore :: "u8 list \<Rightarrow> int \<Rightarrow> int \<Rightarrow> SecurityEventStore" where
  "NewSecurityEventStore seed capacity maxBytes =
     (let capacity = (if capacity \<le> 0 then 5000 else capacity);
          maxBytes = (if maxBytes \<le> 0 then 16 * 2 ^ 20 else maxBytes) in
      \<lparr>ses_items = replicate (nat capacity) storedThreatZero, ses_index = fmempty, ses_head = 0,
       ses_count = 0, ses_capacity = nat capacity, ses_maxBytes = maxBytes, ses_bytes = 0, ses_next = 0,
       ses_streamID = EncodeToString seed,
       ses_stats = \<lparr>ss_CurrentEvents = 0, ss_CurrentBytes = 0, ss_Added = 0, ss_Duplicates = 0,
         ss_Evicted = 0, ss_RejectedBytes = 0\<rparr>\<rparr>)"

definition evictOldestLocked :: "SecurityEventStore \<Rightarrow> SecurityEventStore" where
  "evictOldestLocked s =
     (if ses_count s = 0 then s
      else
        let old = ses_items s ! ses_head s in
        s\<lparr>ses_index := fmdrop (te_EventID (thr_event old)) (ses_index s),
          ses_bytes := ses_bytes s - thr_size old,
          ses_items := (ses_items s)[ses_head s := storedThreatZero],
          ses_head := (ses_head s + 1) mod ses_capacity s,
          ses_count := ses_count s - 1,
          ses_stats := (ses_stats s)\<lparr>ss_Evicted := ss_Evicted (ses_stats s) + 1\<rparr>\<rparr>)"

definition reject_bytes :: "SecurityEventStore \<Rightarrow> SecurityEventStore" where
  "reject_bytes s =
     s\<lparr>ses_stats := (ses_stats s)\<lparr>ss_RejectedBytes := ss_RejectedBytes (ses_stats s) + 1\<rparr>\<rparr>"

definition current_stats :: "SecurityEventStore \<Rightarrow> SecurityEventStore" where
  "current_stats s =
     s\<lparr>ses_stats := (ses_stats s)\<lparr>ss_CurrentEvents := of_nat (ses_count s),
                                 ss_CurrentBytes := of_int (ses_bytes s)\<rparr>\<rparr>"

text \<open>The loop that makes room for \<open>n\<close> bytes; \<open>None\<close> would be that it does not end.\<close>

partial_function (option) make_room :: "int \<Rightarrow> SecurityEventStore \<Rightarrow> SecurityEventStore option" where
  [code]: "make_room n s =
     (if ses_count s \<ge> ses_capacity s \<or> (ses_count s > 0 \<and> ses_bytes s + n > ses_maxBytes s)
      then make_room n (evictOldestLocked s) else Some s)"

definition event_defaults :: "gotime \<Rightarrow> ThreatEvent \<Rightarrow> ThreatEvent" where
  "event_defaults now event =
     (let event = (if te_EventClass event = '''' then event\<lparr>te_EventClass := ''security''\<rparr> else event);
          event = (if te_Source event = '''' then event\<lparr>te_Source := ''SURICATA''\<rparr> else event) in
      if te_IngestedAt event = 0 then event\<lparr>te_IngestedAt := now\<rparr> else event)"

definition append_event :: "ThreatEvent \<Rightarrow> int \<Rightarrow> SecurityEventStore \<Rightarrow> SecurityEventStore" where
  "append_event event n s =
     (let slot = (ses_head s + ses_count s) mod ses_capacity s;
          s = s\<lparr>ses_items := (ses_items s)[slot := \<lparr>thr_event = event, thr_size = n\<rparr>],
                ses_index := fmupd (te_EventID event) slot (ses_index s),
                ses_count := ses_count s + 1,
                ses_bytes := ses_bytes s + n,
                ses_stats := (ses_stats s)\<lparr>ss_Added := ss_Added (ses_stats s) + 1\<rparr>\<rparr> in
      current_stats s)"

type_synonym Marshal = "ThreatEvent \<Rightarrow> string option"

text \<open>The outer \<open>None\<close>: the call does not return.\<close>

definition Add_event ::
  "Marshal \<Rightarrow> gotime \<Rightarrow> ThreatEvent \<Rightarrow> SecurityEventStore
   \<Rightarrow> (SecurityEventStore \<times> (EventError + ThreatEvent \<times> bool)) option" where
  "Add_event marshal now event s =
     (if TrimSpace (te_EventID event) = '''' then Some (s, Inl ErrEventIDRequired)
      else
        let event = event_defaults now event in
        case marshal event of
          None \<Rightarrow> Some (s, Inl ErrMarshal)
        | Some encoded \<Rightarrow>
            if int (length encoded) > ses_maxBytes s
            then Some (reject_bytes s, Inl ErrSecurityEventTooLarge)
            else
              (case fmlookup (ses_index s) (te_EventID event) of
                 Some slot \<Rightarrow>
                   Some (s\<lparr>ses_stats := (ses_stats s)\<lparr>ss_Duplicates := ss_Duplicates (ses_stats s) + 1\<rparr>\<rparr>,
                         Inr (thr_event (ses_items s ! slot), False))
               | None \<Rightarrow>
                   let s = s\<lparr>ses_next := ses_next s + 1\<rparr>; event = event\<lparr>te_Sequence := ses_next s\<rparr> in
                   case marshal event of
                     None \<Rightarrow> Some (s, Inl ErrMarshal)
                   | Some encoded \<Rightarrow>
                       (case make_room (int (length encoded)) s of
                          None \<Rightarrow> None
                        | Some s \<Rightarrow>
                            if int (length encoded) > ses_maxBytes s
                            then Some (reject_bytes s, Inl ErrSecurityEventTooLarge)
                            else Some (append_event event (int (length encoded)) s,
                                       Inr (event, True)))))"

definition Get_event :: "string \<Rightarrow> SecurityEventStore \<Rightarrow> ThreatEvent option" where
  "Get_event i s = map_option (\<lambda>position. thr_event (ses_items s ! position)) (fmlookup (ses_index s) i)"

text \<open>The sizes of the events before the given one, summed by the loop over \<open>i\<close>.\<close>

fun reclaimable :: "SecurityEventStore \<Rightarrow> string \<Rightarrow> nat list \<Rightarrow> int \<Rightarrow> int" where
  "reclaimable s i [] acc = acc"
| "reclaimable s i (k # ks) acc =
     (let candidate = ses_items s ! ((ses_head s + k) mod ses_capacity s) in
      if te_EventID (thr_event candidate) = i then acc
      else reclaimable s i ks (acc + thr_size candidate))"

lemma evict_count: "ses_count (evictOldestLocked s) = ses_count s - 1"
  by (simp add: evictOldestLocked_def Let_def)

text \<open>The loop that evicts older events until the update fits, with the position of the updated one.\<close>

function make_room_before ::
  "string \<Rightarrow> int \<Rightarrow> SecurityEventStore \<Rightarrow> nat \<Rightarrow> int
   \<Rightarrow> SecurityEventStore \<times> (EventError + nat \<times> int)" where
  "make_room_before i n s position projected =
     (if projected > ses_maxBytes s \<and> ses_count s > 1
         \<and> te_EventID (thr_event (ses_items s ! ses_head s)) \<noteq> i
      then
        let before = thr_size (ses_items s ! position); s = evictOldestLocked s;
            projected = ses_bytes s - before + n in
        case fmlookup (ses_index s) i of
          None \<Rightarrow> (s, Inl ErrSecurityEventNotFound)
        | Some position \<Rightarrow> make_room_before i n s position projected
      else (s, Inr (position, projected)))"
  by pat_completeness auto
termination
  by (relation "measure (\<lambda>(i, n, s, position, projected). ses_count s)") (auto simp: evict_count)

declare make_room_before.simps [simp del]

definition correlated ::
  "string \<Rightarrow> string \<Rightarrow> u64 \<Rightarrow> CorrelationState \<Rightarrow> string \<Rightarrow> ThreatEvent \<Rightarrow> ThreatEvent" where
  "correlated sessionID policyID generation state reason e =
     e\<lparr>te_SessionID := sessionID, te_PolicyID := policyID, te_PolicyGeneration := generation,
       te_CorrelationState := state, te_CorrelationReason := reason,
       te_CorrelationRevision := te_CorrelationRevision e + 1\<rparr>"

definition same_correlation ::
  "string \<Rightarrow> string \<Rightarrow> u64 \<Rightarrow> CorrelationState \<Rightarrow> string \<Rightarrow> ThreatEvent \<Rightarrow> bool" where
  "same_correlation sessionID policyID generation state reason e \<longleftrightarrow>
     te_SessionID e = sessionID \<and> te_PolicyID e = policyID \<and> te_PolicyGeneration e = generation
     \<and> te_CorrelationState e = state \<and> te_CorrelationReason e = reason"

definition UpdateCorrelation ::
  "Marshal \<Rightarrow> string \<Rightarrow> string \<Rightarrow> string \<Rightarrow> u64 \<Rightarrow> CorrelationState \<Rightarrow> string \<Rightarrow> SecurityEventStore
   \<Rightarrow> SecurityEventStore \<times> (EventError + ThreatEvent)" where
  "UpdateCorrelation marshal i sessionID policyID generation state reason s =
     (if \<not> CorrelationState_Valid state then (s, Inl ErrCorrelationState)
      else
        case fmlookup (ses_index s) i of
          None \<Rightarrow> (s, Inl ErrSecurityEventNotFound)
        | Some position \<Rightarrow>
            let record = ses_items s ! position in
            if same_correlation sessionID policyID generation state reason (thr_event record)
            then (s, Inr (thr_event record))
            else
              let before = thr_size record;
                  updated = correlated sessionID policyID generation state reason (thr_event record) in
              case marshal updated of
                None \<Rightarrow> (s, Inl ErrMarshal)
              | Some encoded \<Rightarrow>
                  let n = int (length encoded) in
                  if n > ses_maxBytes s then (reject_bytes s, Inl ErrSecurityEventTooLarge)
                  else
                    let projected = ses_bytes s - before + n in
                    if projected > ses_maxBytes s
                       \<and> projected - reclaimable s i [0..<ses_count s] 0 > ses_maxBytes s
                    then (reject_bytes s, Inl ErrSecurityEventTooLarge)
                    else
                      (case make_room_before i n s position projected of
                         (s, Inl err) \<Rightarrow> (s, Inl err)
                       | (s, Inr (position, projected)) \<Rightarrow>
                           if projected > ses_maxBytes s
                           then (reject_bytes s, Inl ErrSecurityEventTooLarge)
                           else
                             (current_stats
                                (s\<lparr>ses_items := (ses_items s)[position := \<lparr>thr_event = updated, thr_size = n\<rparr>],
                                   ses_bytes := projected\<rparr>), Inr updated)))"

definition matchesSecurityQuery :: "ThreatEvent \<Rightarrow> SecurityQuery \<Rightarrow> bool" where
  "matchesSecurityQuery event query \<longleftrightarrow>
     (sq_SessionID query = '''' \<or> te_SessionID event = sq_SessionID query)
     \<and> (sq_SensorID query = '''' \<or> te_SensorID event = sq_SensorID query)
     \<and> (sq_Mode query = '''' \<or> te_CaptureMode event = sq_Mode query)
     \<and> (sq_Severity query = '''' \<or> te_Severity event = sq_Severity query)
     \<and> (sq_Verdict query = '''' \<or> te_Verdict event = sq_Verdict query)
     \<and> (sq_Correlation query = '''' \<or> te_CorrelationState event = sq_Correlation query)
     \<and> (\<not> sq_HasSignatureID query \<or> te_SignatureID event = sq_SignatureID query)
     \<and> (sq_Application query = '''' \<or> EqualFold (app_Name (te_Application event)) (sq_Application query))"

definition query_limit :: "SecurityQuery \<Rightarrow> int" where
  "query_limit query =
     (let limit = (if sq_Limit query \<le> 0 then 50 else sq_Limit query) in
      if limit > 200 then 200 else limit)"

definition snapshot :: "SecurityEventStore \<Rightarrow> ThreatEvent list" where
  "snapshot s =
     map (\<lambda>i. thr_event (ses_items s ! ((ses_head s + i) mod ses_capacity s))) [0..<ses_count s]"

fun query_loop :: "SecurityQuery \<Rightarrow> int \<Rightarrow> ThreatEvent list \<Rightarrow> SecurityEventPage \<Rightarrow> SecurityEventPage" where
  "query_loop query limit [] page = page"
| "query_loop query limit (event # events) page =
     (if te_Sequence event \<le> sq_AfterSequence query then query_loop query limit events page
      else if int (length (sp_Items page)) \<ge> limit then page\<lparr>sp_HasMore := True\<rparr>
      else
        let page = page\<lparr>sp_NextSequence := te_Sequence event\<rparr>;
            page = (if matchesSecurityQuery event query
                    then page\<lparr>sp_Items := sp_Items page @ [event]\<rparr> else page) in
        query_loop query limit events page)"

text \<open>The page before the loop, and the query with the cursor the loop uses.\<close>

definition start_page :: "SecurityQuery \<Rightarrow> SecurityEventStore \<Rightarrow> SecurityQuery \<times> SecurityEventPage" where
  "start_page query s =
     (let oldest = (case snapshot s of [] \<Rightarrow> 0 | e # _ \<Rightarrow> te_Sequence e);
          page = \<lparr>sp_Items = [], sp_StreamID = ses_streamID s, sp_GapFrom = 0,
                  sp_NextSequence = sq_AfterSequence query, sp_NextCursor = '''', sp_HasMore = False,
                  sp_OldestSequence = oldest, sp_Gap = False, sp_ResetRequired = False,
                  sp_EvictedCount = ss_Evicted (ses_stats s)\<rparr>;
          (query, page) =
            (if sq_StreamID query \<noteq> '''' \<and> sq_StreamID query \<noteq> ses_streamID s
             then (query\<lparr>sq_AfterSequence := 0\<rparr>,
                   page\<lparr>sp_Gap := True, sp_ResetRequired := True, sp_NextSequence := 0\<rparr>)
             else (query, page)) in
      (query, if oldest > 0 \<and> oldest > sq_AfterSequence query + 1
              then page\<lparr>sp_GapFrom := oldest, sp_Gap := True\<rparr> else page))"

definition Query_events :: "SecurityQuery \<Rightarrow> SecurityEventStore \<Rightarrow> SecurityEventPage" where
  "Query_events query s =
     (let limit = query_limit query;
          (query, page) = start_page query s;
          page = query_loop query limit (snapshot s) page;
          page = (if sp_NextSequence page > ses_next s then page\<lparr>sp_NextSequence := ses_next s\<rparr> else page) in
      page\<lparr>sp_NextCursor := ses_streamID s @ '':'' @ show_dec (uint (sp_NextSequence page))\<rparr>)"

definition Stats_events :: "SecurityEventStore \<Rightarrow> SecurityEventStats" where
  "Stats_events s = ses_stats (current_stats s)"

end
