(* ===== verification/Event_Queue.thy ===== *)
theory Event_Queue
imports Security_Events
begin

text \<open>
  The event store as a bounded queue: the ring with its index refines a list of events, oldest
  first, and reading with the cursor visits every event once.
\<close>

section \<open>The queue the store implements\<close>

text \<open>
  The contract: a queue of events with their sizes, oldest first. Adding drops the shortest prefix
  that makes room; correlating an event changes it in place and may drop events older than it.
\<close>

abbreviation ids :: "storedThreat list \<Rightarrow> string list" where
  "ids q \<equiv> map (te_EventID \<circ> thr_event) q"

abbreviation bytes_in :: "storedThreat list \<Rightarrow> int" where
  "bytes_in q \<equiv> sum_list (map thr_size q)"

definition contents :: "SecurityEventStore \<Rightarrow> storedThreat list" where
  "contents s = map (\<lambda>i. ses_items s ! ((ses_head s + i) mod ses_capacity s)) [0..<ses_count s]"

fun drop_to_fit :: "(storedThreat list \<Rightarrow> bool) \<Rightarrow> storedThreat list \<Rightarrow> storedThreat list" where
  "drop_to_fit fits [] = []"
| "drop_to_fit fits (x # q) = (if fits (x # q) then x # q else drop_to_fit fits q)"

definition room_for :: "nat \<Rightarrow> int \<Rightarrow> int \<Rightarrow> storedThreat list \<Rightarrow> bool" where
  "room_for capacity maxBytes n q \<longleftrightarrow> length q < capacity \<and> bytes_in q + n \<le> maxBytes"

definition ring_inv :: "SecurityEventStore \<Rightarrow> bool" where
  "ring_inv s \<longleftrightarrow> 0 < ses_capacity s \<and> length (ses_items s) = ses_capacity s
     \<and> ses_head s < ses_capacity s \<and> ses_count s \<le> ses_capacity s
     \<and> ses_bytes s = bytes_in (contents s) \<and> ses_bytes s \<le> ses_maxBytes s
     \<and> (\<forall>x\<in>set (contents s). 0 \<le> thr_size x)
     \<and> (\<forall>k p. fmlookup (ses_index s) k = Some p \<longleftrightarrow>
          (\<exists>i < ses_count s. p = (ses_head s + i) mod ses_capacity s \<and> ids (contents s) ! i = k))"

section \<open>The ring\<close>

lemma slot_inj:
  fixes h i j c :: nat
  assumes "(h + i) mod c = (h + j) mod c" "i < c" "j < c"
  shows "i = j"
proof -
  have *: "a = b" if "(h + a) mod c = (h + b) mod c" "a \<le> b" "b < c" for a b
  proof -
    have "c dvd (h + b) - (h + a)" using that by (metis mod_eq_dvd_iff_nat nat_add_left_cancel_le)
    then have "c dvd b - a" by simp
    then have "b - a = 0" using that(3) by (metis dvd_imp_le le_less_trans diff_le_self less_irrefl not_gr_zero)
    then show ?thesis using that(2) by simp
  qed
  show ?thesis using * [of i j] * [of j i] assms by (cases "i \<le> j") auto
qed

lemma length_contents [simp]: "length (contents s) = ses_count s"
  by (simp add: contents_def)

lemma contents_nth: "i < ses_count s \<Longrightarrow> contents s ! i = ses_items s ! ((ses_head s + i) mod ses_capacity s)"
  by (simp add: contents_def)

lemma contents_irrelevant [simp]:
  "contents (s\<lparr>ses_stats := t\<rparr>) = contents s" "contents (s\<lparr>ses_bytes := b\<rparr>) = contents s"
  "contents (s\<lparr>ses_next := n\<rparr>) = contents s" "contents (s\<lparr>ses_index := m\<rparr>) = contents s"
  "contents (reject_bytes s) = contents s" "contents (current_stats s) = contents s"
  by (simp_all add: contents_def reject_bytes_def current_stats_def)

lemma snapshot_contents: "snapshot s = map thr_event (contents s)"
  by (simp add: snapshot_def contents_def)

lemma ring_inv_facts:
  assumes "ring_inv s"
  shows "0 < ses_capacity s" "length (ses_items s) = ses_capacity s" "ses_head s < ses_capacity s"
    "ses_count s \<le> ses_capacity s" "ses_bytes s = bytes_in (contents s)" "ses_bytes s \<le> ses_maxBytes s"
  using assms by (simp_all add: ring_inv_def)

lemma index_iff:
  assumes "ring_inv s"
  shows "fmlookup (ses_index s) k = Some p \<longleftrightarrow>
    (\<exists>i < ses_count s. p = (ses_head s + i) mod ses_capacity s \<and> te_EventID (thr_event (contents s ! i)) = k)"
  using assms by (auto simp: ring_inv_def)

lemma ids_distinct:
  assumes "ring_inv s"
  shows "distinct (ids (contents s))"
proof (rule distinct_conv_nth [THEN iffD2], intro allI impI)
  fix i j
  assume ij: "i < length (ids (contents s))" "j < length (ids (contents s))" "i \<noteq> j"
  show "ids (contents s) ! i \<noteq> ids (contents s) ! j"
  proof
    assume eq: "ids (contents s) ! i = ids (contents s) ! j"
    have "fmlookup (ses_index s) (te_EventID (thr_event (contents s ! i))) = Some ((ses_head s + i) mod ses_capacity s)"
      using index_iff [OF assms] ij by auto
    moreover have "fmlookup (ses_index s) (te_EventID (thr_event (contents s ! i))) = Some ((ses_head s + j) mod ses_capacity s)"
      using index_iff [OF assms] ij eq by auto
    ultimately have "(ses_head s + i) mod ses_capacity s = (ses_head s + j) mod ses_capacity s" by simp
    then have "i = j" by (rule slot_inj) (use ij ring_inv_facts(4) [OF assms] in auto)
    then show False using ij by simp
  qed
qed

lemma index_position:
  assumes "ring_inv s"
  shows "fmlookup (ses_index s) k = None \<longleftrightarrow> k \<notin> set (ids (contents s))"
proof -
  have "k \<in> set (ids (contents s)) \<longleftrightarrow> (\<exists>i < ses_count s. te_EventID (thr_event (contents s ! i)) = k)"
    by (simp add: image_iff) (metis in_set_conv_nth length_contents)
  then show ?thesis using index_iff [OF assms, of k] by (metis not_None_eq)
qed

lemma contents_evict:
  assumes "ring_inv s" "0 < ses_count s"
  shows "contents (evictOldestLocked s) = tl (contents s)"
proof (rule nth_equalityI)
  note f = ring_inv_facts [OF assms(1)]
  show len: "length (contents (evictOldestLocked s)) = length (tl (contents s))" by (simp add: evict_count)
  fix i
  assume "i < length (contents (evictOldestLocked s))"
  then have i: "i < ses_count s - 1" by (simp add: evict_count)
  have "Suc i < ses_capacity s" using i f(4) by linarith
  then have ne: "ses_head s \<noteq> (ses_head s + Suc i) mod ses_capacity s"
    using slot_inj [of "ses_head s" 0 "ses_capacity s" "Suc i"] f by auto
  have "contents (evictOldestLocked s) ! i
      = (ses_items s)[ses_head s := storedThreatZero] ! ((ses_head s + 1 + i) mod ses_capacity s)"
    using i assms(2) by (simp add: contents_nth evict_count evictOldestLocked_def Let_def mod_add_left_eq)
  also have "\<dots> = ses_items s ! ((ses_head s + Suc i) mod ses_capacity s)"
    using ne by simp
  also have "\<dots> = tl (contents s) ! i" using i by (simp add: nth_tl contents_nth)
  finally show "contents (evictOldestLocked s) ! i = tl (contents s) ! i" .
qed

lemma evict_fields [simp]:
  "ses_capacity (evictOldestLocked s) = ses_capacity s" "ses_maxBytes (evictOldestLocked s) = ses_maxBytes s"
  "ses_next (evictOldestLocked s) = ses_next s" "ses_streamID (evictOldestLocked s) = ses_streamID s"
  by (simp_all add: evictOldestLocked_def Let_def)

lemma ring_inv_evict:
  assumes inv: "ring_inv s"
  shows "ring_inv (evictOldestLocked s)"
proof (cases "ses_count s = 0")
  case True
  then show ?thesis using inv by (simp add: evictOldestLocked_def)
next
  case False
  note f = ring_inv_facts [OF inv]
  let ?t = "evictOldestLocked s" and ?c = "ses_capacity s"
  have q: "contents ?t = tl (contents s)" using contents_evict [OF inv] False by simp
  have ne: "contents s \<noteq> []" using False by (metis length_0_conv length_contents)
  then have cs: "contents s = contents s ! 0 # tl (contents s)" by (cases "contents s") auto
  have old: "contents s ! 0 = ses_items s ! ses_head s" using contents_nth [of 0 s] False f by simp
  have bytes: "ses_bytes ?t = bytes_in (contents ?t)"
    using f(5) False q old by (subst (asm) cs) (simp add: evictOldestLocked_def Let_def)
  have sizes: "\<forall>x\<in>set (contents s). 0 \<le> thr_size x" using inv by (simp add: ring_inv_def)
  have le: "ses_bytes ?t \<le> ses_maxBytes s"
    using bytes q f(5,6) sizes by (subst (asm) (2 3) cs) (auto simp: old)
  have head: "ses_head ?t = (ses_head s + 1) mod ?c" using False by (simp add: evictOldestLocked_def Let_def)
  have dist: "te_EventID (thr_event (contents s ! Suc i)) \<noteq> te_EventID (thr_event (contents s ! 0))"
    if "Suc i < ses_count s" for i
    using nth_eq_iff_index_eq [OF ids_distinct [OF inv], of "Suc i" 0] that by auto
  have index: "fmlookup (ses_index ?t) k = Some p \<longleftrightarrow>
     (\<exists>i < ses_count ?t. p = (ses_head ?t + i) mod ?c \<and> ids (contents ?t) ! i = k)" for k p
  proof -
    have "fmlookup (ses_index ?t) k = Some p
        \<longleftrightarrow> k \<noteq> te_EventID (thr_event (contents s ! 0)) \<and> fmlookup (ses_index s) k = Some p"
      using False by (auto simp: evictOldestLocked_def Let_def old)
    also have "\<dots> \<longleftrightarrow> (\<exists>i < ses_count s. p = (ses_head s + i) mod ?c
        \<and> te_EventID (thr_event (contents s ! i)) = k \<and> i \<noteq> 0)"
      unfolding index_iff [OF inv] using dist by (metis not0_implies_Suc)
    also have "\<dots> \<longleftrightarrow> (\<exists>i < ses_count s - 1. p = (ses_head s + Suc i) mod ?c
        \<and> te_EventID (thr_event (contents s ! Suc i)) = k)"
      by (metis (no_types, lifting) less_diff_conv Suc_eq_plus1 not0_implies_Suc nat.simps(3))
    also have "\<dots> \<longleftrightarrow> (\<exists>i < ses_count ?t. p = (ses_head ?t + i) mod ?c \<and> ids (contents ?t) ! i = k)"
      by (rule ex_cong1) (auto simp: q evict_count head nth_tl mod_add_left_eq)
    finally show ?thesis .
  qed
  have "length (ses_items ?t) = ?c" "ses_head ?t < ?c"
    using f False by (simp_all add: evictOldestLocked_def Let_def)
  then show ?thesis
    using f bytes le index sizes list.set_sel(2) [OF ne] by (auto simp: ring_inv_def evict_count q)
qed

lemma make_room_spec:
  assumes "ring_inv s"
  shows "\<exists>t. make_room n s = Some t \<and> ring_inv t
    \<and> contents t = drop_to_fit (room_for (ses_capacity s) (ses_maxBytes s) n) (contents s)
    \<and> ses_capacity t = ses_capacity s \<and> ses_maxBytes t = ses_maxBytes s \<and> ses_next t = ses_next s
    \<and> ses_streamID t = ses_streamID s"
  using assms
proof (induction "ses_count s" arbitrary: s)
  case 0
  note f = ring_inv_facts [OF 0(2)]
  have "contents s = []" using 0(1) by (metis length_0_conv length_contents)
  with 0 f show ?case by (simp add: make_room.simps [of n s])
next
  case (Suc k)
  note f = ring_inv_facts [OF Suc(3)]
  obtain x q where xq: "contents s = x # q" using Suc(2) by (metis length_contents Suc_length_conv)
  show ?case
  proof (cases "ses_count s \<ge> ses_capacity s \<or> (ses_count s > 0 \<and> ses_bytes s + n > ses_maxBytes s)")
    case False
    then have "room_for (ses_capacity s) (ses_maxBytes s) n (contents s)"
      using Suc(2) f(5) by (simp add: room_for_def)
    with False Suc(3) xq show ?thesis by (auto simp: make_room.simps [of n s])
  next
    case True
    then have no: "\<not> room_for (ses_capacity s) (ses_maxBytes s) n (contents s)"
      using f(5) by (auto simp: room_for_def)
    have q: "contents (evictOldestLocked s) = q" using contents_evict [OF Suc(3)] Suc(2) xq by simp
    from Suc(1) [of "evictOldestLocked s"] Suc(2) ring_inv_evict [OF Suc(3)] True no xq q show ?thesis
      by (simp add: evict_count make_room.simps [of n s])
  qed
qed


lemma contents_append:
  assumes inv: "ring_inv s" and room: "ses_count s < ses_capacity s"
  shows "contents (append_event e n s) = contents s @ [\<lparr>thr_event = e, thr_size = n\<rparr>]"
proof (rule nth_equalityI)
  note f = ring_inv_facts [OF inv]
  show "length (contents (append_event e n s)) = length (contents s @ [\<lparr>thr_event = e, thr_size = n\<rparr>])"
    by (simp add: append_event_def Let_def current_stats_def)
  fix i
  assume "i < length (contents (append_event e n s))"
  then have i: "i < Suc (ses_count s)" by (simp add: append_event_def Let_def current_stats_def)
  have "contents (append_event e n s) ! i
     = (ses_items s)[(ses_head s + ses_count s) mod ses_capacity s := \<lparr>thr_event = e, thr_size = n\<rparr>]
         ! ((ses_head s + i) mod ses_capacity s)"
    using i by (subst contents_nth) (simp_all add: append_event_def Let_def current_stats_def)
  also have "\<dots> = (contents s @ [\<lparr>thr_event = e, thr_size = n\<rparr>]) ! i"
  proof (cases "i = ses_count s")
    case True
    then show ?thesis using f by (simp add: nth_append)
  next
    case False
    with i have lt: "i < ses_count s" by simp
    have "(ses_head s + ses_count s) mod ses_capacity s \<noteq> (ses_head s + i) mod ses_capacity s"
      using slot_inj [of "ses_head s" "ses_count s" "ses_capacity s" i] lt room by auto
    then show ?thesis using lt by (simp add: nth_append contents_nth)
  qed
  finally show "contents (append_event e n s) ! i = (contents s @ [\<lparr>thr_event = e, thr_size = n\<rparr>]) ! i" .
qed

lemma append_fields [simp]:
  "ses_capacity (append_event e n s) = ses_capacity s" "ses_maxBytes (append_event e n s) = ses_maxBytes s"
  "ses_next (append_event e n s) = ses_next s" "ses_streamID (append_event e n s) = ses_streamID s"
  "ses_head (append_event e n s) = ses_head s" "ses_count (append_event e n s) = Suc (ses_count s)"
  "ses_bytes (append_event e n s) = ses_bytes s + n"
  "length (ses_items (append_event e n s)) = length (ses_items s)"
  "ses_index (append_event e n s)
     = fmupd (te_EventID e) ((ses_head s + ses_count s) mod ses_capacity s) (ses_index s)"
  by (simp_all add: append_event_def Let_def current_stats_def)

lemma ring_inv_append:
  assumes inv: "ring_inv s" and room: "room_for (ses_capacity s) (ses_maxBytes s) n (contents s)"
    and new: "te_EventID e \<notin> set (ids (contents s))" and n: "0 \<le> n"
  shows "ring_inv (append_event e n s)"
proof -
  note f = ring_inv_facts [OF inv]
  let ?c = "ses_capacity s" and ?m = "ses_count s" and ?h = "ses_head s"
  have lt: "?m < ?c" using room by (simp add: room_for_def)
  note q = contents_append [OF inv lt, of e n]
  have fresh: "te_EventID (thr_event (contents s ! i)) \<noteq> te_EventID e" if "i < ?m" for i
    using new that by (metis (no_types) comp_apply length_contents length_map nth_map nth_mem)
  have "fmlookup (ses_index (append_event e n s)) k = Some p \<longleftrightarrow>
     (\<exists>i < Suc ?m. p = (?h + i) mod ?c \<and> ids (contents (append_event e n s)) ! i = k)" for k p
    using index_iff [OF inv, of k p] fresh
    by (auto simp: q less_Suc_eq nth_append simp del: map_append split: if_splits)
  moreover have "\<forall>x\<in>set (contents s). 0 \<le> thr_size x" using inv by (simp add: ring_inv_def)
  ultimately show ?thesis
    using f lt room n unfolding ring_inv_def append_fields by (auto simp: q room_for_def)
qed


abbreviation event_id :: "storedThreat \<Rightarrow> string" where
  "event_id x \<equiv> te_EventID (thr_event x)"

lemma index_find:
  assumes inv: "ring_inv s"
  shows "find (\<lambda>x. event_id x = k) (contents s)
    = map_option (\<lambda>p. ses_items s ! p) (fmlookup (ses_index s) k)"
proof (cases "fmlookup (ses_index s) k")
  case None
  then have "k \<notin> set (ids (contents s))" using index_position [OF inv] by simp
  then have "find (\<lambda>x. event_id x = k) (contents s) = None" by (auto simp: find_None_iff)
  with None show ?thesis by simp
next
  case (Some p)
  then obtain i where i: "i < ses_count s" "p = (ses_head s + i) mod ses_capacity s"
    "event_id (contents s ! i) = k" using index_iff [OF inv] by auto
  have "\<not> event_id (contents s ! j) = k" if "j < i" for j
    using nth_eq_iff_index_eq [OF ids_distinct [OF inv], of i j] i that by auto
  then have "find (\<lambda>x. event_id x = k) (contents s) = Some (contents s ! i)"
    using i by (auto simp: find_Some_iff)
  with Some i show ?thesis by (simp add: contents_nth)
qed

lemma reclaimable_sum:
  assumes "\<forall>k\<in>set ks. k < ses_count s"
  shows "reclaimable s i ks acc = acc + bytes_in (takeWhile (\<lambda>x. event_id x \<noteq> i) (map ((!) (contents s)) ks))"
  using assms by (induction ks arbitrary: acc) (auto simp: contents_nth Let_def)

lemma reclaimable_older:
  "reclaimable s i [0..<ses_count s] 0 = bytes_in (takeWhile (\<lambda>x. event_id x \<noteq> i) (contents s))"
proof -
  have "map ((!) (contents s)) [0..<ses_count s] = contents s" by (metis length_contents map_nth)
  then show ?thesis by (simp add: reclaimable_sum)
qed

lemma make_room_before_spec:
  assumes "ring_inv s" "fmlookup (ses_index s) i = Some p" "r = ses_items s ! p"
    and "bytes_in (dropWhile (\<lambda>x. event_id x \<noteq> i) (contents s)) - thr_size r + n \<le> ses_maxBytes s"
  shows "\<exists>t p'. make_room_before i n s p (ses_bytes s - thr_size r + n)
      = (t, Inr (p', ses_bytes t - thr_size r + n))
    \<and> ring_inv t \<and> fmlookup (ses_index t) i = Some p' \<and> ses_items t ! p' = r
    \<and> contents t = drop_to_fit (\<lambda>q. bytes_in q - thr_size r + n \<le> ses_maxBytes s) (contents s)
    \<and> ses_bytes t - thr_size r + n \<le> ses_maxBytes s
    \<and> ses_capacity t = ses_capacity s \<and> ses_maxBytes t = ses_maxBytes s \<and> ses_next t = ses_next s
    \<and> ses_streamID t = ses_streamID s"
  using assms
proof (induction "ses_count s" arbitrary: s p)
  case 0
  then show ?case using index_iff [OF 0(2)] by auto
next
  case (Suc k)
  note inv = Suc(3) and f = ring_inv_facts [OF Suc(3)]
  obtain x q where xq: "contents s = x # q" using Suc(2) by (metis length_contents Suc_length_conv)
  have x: "x = ses_items s ! ses_head s" using contents_nth [of 0 s] xq Suc(2) f by simp
  let ?fit = "\<lambda>q. bytes_in q - thr_size r + n \<le> ses_maxBytes s"
  show ?case
  proof (cases "?fit (contents s)")
    case True
    then show ?thesis
      using Suc xq f by (subst make_room_before.simps) (auto simp: x [symmetric])
  next
    case False
    then have over: "ses_bytes s - thr_size r + n > ses_maxBytes s" using f(5) by simp
    have ne: "event_id x \<noteq> i" using False Suc(6) xq by auto
    have find: "find (\<lambda>x. event_id x = i) (contents s) = Some r" using index_find [OF inv, of i] Suc(4,5) by simp
    let ?t = "evictOldestLocked s"
    have q: "contents ?t = q" using contents_evict [OF inv] Suc(2) xq by simp
    have "find (\<lambda>x. event_id x = i) q = Some r" using find xq ne by simp
    then have "map_option (\<lambda>p. ses_items ?t ! p) (fmlookup (ses_index ?t) i) = Some r"
      using index_find [OF ring_inv_evict [OF inv], of i] q by simp
    then obtain p' where p': "fmlookup (ses_index ?t) i = Some p'" "r = ses_items ?t ! p'" by auto
    have many: "ses_count s > 1"
      using \<open>find (\<lambda>x. event_id x = i) q = Some r\<close> xq length_contents [of s] by (cases q) auto
    have step: "make_room_before i n s p (ses_bytes s - thr_size r + n)
        = make_room_before i n ?t p' (ses_bytes ?t - thr_size r + n)"
      using over many ne p' Suc(5) by (subst make_room_before.simps) (simp add: x [symmetric] Let_def)
    have "bytes_in (dropWhile (\<lambda>x. event_id x \<noteq> i) (contents ?t)) - thr_size r + n \<le> ses_maxBytes ?t"
      using Suc(6) xq ne q by simp
    from Suc(1) [OF _ ring_inv_evict [OF inv] p' this] Suc(2) step False xq q show ?thesis
      by (simp add: evict_count)
  qed
qed

text \<open>Replacing the event with identifier \<open>i\<close>.\<close>

definition replace_event :: "string \<Rightarrow> storedThreat \<Rightarrow> storedThreat list \<Rightarrow> storedThreat list" where
  "replace_event i r = map (\<lambda>x. if event_id x = i then r else x)"

lemma bytes_replace:
  assumes "distinct (ids q)" "find (\<lambda>x. event_id x = i) q = Some r"
  shows "bytes_in (replace_event i r' q) = bytes_in q - thr_size r + thr_size r'"
  using assms
proof (induction q)
  case (Cons x q)
  show ?case
  proof (cases "event_id x = i")
    case True
    then have "map (\<lambda>y. if event_id y = i then r' else y) q = q"
      using Cons(2) by (intro map_idI) (auto simp: image_iff)
    with True Cons show ?thesis by (simp add: replace_event_def)
  next
    case False
    with Cons show ?thesis by (simp add: replace_event_def)
  qed
qed simp

lemma ring_inv_replace:
  assumes inv: "ring_inv s" and p: "fmlookup (ses_index s) i = Some p" and r: "r = ses_items s ! p"
    and id: "event_id r' = i" and n: "0 \<le> thr_size r'"
    and fits: "ses_bytes s - thr_size r + thr_size r' \<le> ses_maxBytes s"
  defines "t \<equiv> s\<lparr>ses_items := (ses_items s)[p := r'], ses_bytes := ses_bytes s - thr_size r + thr_size r'\<rparr>"
  shows "contents t = replace_event i r' (contents s)" "ring_inv t"
proof -
  note f = ring_inv_facts [OF inv]
  obtain j where j: "j < ses_count s" "p = (ses_head s + j) mod ses_capacity s" "event_id (contents s ! j) = i"
    using p index_iff [OF inv] by auto
  show c: "contents t = replace_event i r' (contents s)"
  proof (rule nth_equalityI)
    show "length (contents t) = length (replace_event i r' (contents s))" by (simp add: t_def replace_event_def)
    fix l
    assume "l < length (contents t)"
    then have l: "l < ses_count s" by (simp add: t_def)
    have "contents t ! l = (ses_items s)[p := r'] ! ((ses_head s + l) mod ses_capacity s)"
      using l by (simp add: t_def contents_nth)
    also have "\<dots> = (if l = j then r' else contents s ! l)"
    proof (cases "l = j")
      case True
      then show ?thesis using j(2) f by simp
    next
      case False
      then have "p \<noteq> (ses_head s + l) mod ses_capacity s"
        using slot_inj [of "ses_head s" j "ses_capacity s" l] j l f(4) by auto
      with False l show ?thesis by (simp add: contents_nth)
    qed
    also have "\<dots> = replace_event i r' (contents s) ! l"
      using l j nth_eq_iff_index_eq [OF ids_distinct [OF inv], of l j] by (auto simp: replace_event_def)
    finally show "contents t ! l = replace_event i r' (contents s) ! l" .
  qed
  have ids: "ids (contents t) = ids (contents s)" using id by (simp add: c replace_event_def)
  have "find (\<lambda>x. event_id x = i) (contents s) = Some r" using index_find [OF inv, of i] p r by simp
  then have "bytes_in (contents t) = ses_bytes s - thr_size r + thr_size r'"
    using bytes_replace [OF ids_distinct [OF inv]] f(5) by (simp add: c)
  moreover have "\<forall>x\<in>set (contents t). 0 \<le> thr_size x"
    using inv n by (auto simp: c replace_event_def ring_inv_def)
  ultimately show "ring_inv t"
    using inv fits unfolding ring_inv_def ids by (simp add: t_def)
qed


section \<open>Refinement\<close>

text \<open>The operations on the queue and the sequence counter.\<close>

type_synonym EventQueue = "storedThreat list \<times> u64"

fun queue_add ::
  "Marshal \<Rightarrow> nat \<Rightarrow> int \<Rightarrow> gotime \<Rightarrow> ThreatEvent \<Rightarrow> EventQueue
   \<Rightarrow> EventQueue \<times> (EventError + ThreatEvent \<times> bool)" where
  "queue_add marshal capacity maxBytes now e (q, seq) =
     (if TrimSpace (te_EventID e) = '''' then ((q, seq), Inl ErrEventIDRequired)
      else
        let e = event_defaults now e; numbered = e\<lparr>te_Sequence := seq + 1\<rparr> in
        case marshal e of
          None \<Rightarrow> ((q, seq), Inl ErrMarshal)
        | Some encoded \<Rightarrow>
            if int (length encoded) > maxBytes then ((q, seq), Inl ErrSecurityEventTooLarge)
            else
              (case find (\<lambda>x. event_id x = te_EventID e) q of
                 Some x \<Rightarrow> ((q, seq), Inr (thr_event x, False))
               | None \<Rightarrow>
                   (case marshal numbered of
                      None \<Rightarrow> ((q, seq + 1), Inl ErrMarshal)
                    | Some encoded \<Rightarrow>
                        let n = int (length encoded); q = drop_to_fit (room_for capacity maxBytes n) q in
                        if n > maxBytes then ((q, seq + 1), Inl ErrSecurityEventTooLarge)
                        else ((q @ [\<lparr>thr_event = numbered, thr_size = n\<rparr>], seq + 1),
                              Inr (numbered, True)))))"

fun queue_correlate ::
  "Marshal \<Rightarrow> int \<Rightarrow> string \<Rightarrow> string \<Rightarrow> string \<Rightarrow> u64 \<Rightarrow> CorrelationState \<Rightarrow> string \<Rightarrow> EventQueue
   \<Rightarrow> EventQueue \<times> (EventError + ThreatEvent)" where
  "queue_correlate marshal maxBytes i sessionID policyID generation state reason (q, seq) =
     (if \<not> CorrelationState_Valid state then ((q, seq), Inl ErrCorrelationState)
      else
        case find (\<lambda>x. event_id x = i) q of
          None \<Rightarrow> ((q, seq), Inl ErrSecurityEventNotFound)
        | Some r \<Rightarrow>
            if same_correlation sessionID policyID generation state reason (thr_event r)
            then ((q, seq), Inr (thr_event r))
            else
              let updated = correlated sessionID policyID generation state reason (thr_event r) in
              case marshal updated of
                None \<Rightarrow> ((q, seq), Inl ErrMarshal)
              | Some encoded \<Rightarrow>
                  let n = int (length encoded); fits = (\<lambda>q. bytes_in q - thr_size r + n \<le> maxBytes) in
                  if n > maxBytes \<or> \<not> fits (dropWhile (\<lambda>x. event_id x \<noteq> i) q)
                  then ((q, seq), Inl ErrSecurityEventTooLarge)
                  else ((replace_event i \<lparr>thr_event = updated, thr_size = n\<rparr> (drop_to_fit fits q), seq),
                        Inr updated))"

datatype EventOp =
    EvAdd gotime ThreatEvent
  | EvCorrelate string string string u64 CorrelationState string

datatype EventResult = AddResult "EventError + ThreatEvent \<times> bool" | CorrelateResult "EventError + ThreatEvent"

fun event_op :: "Marshal \<Rightarrow> EventOp \<Rightarrow> SecurityEventStore \<Rightarrow> (SecurityEventStore \<times> EventResult) option" where
  "event_op marshal (EvAdd now e) s = map_option (apsnd AddResult) (Add_event marshal now e s)"
| "event_op marshal (EvCorrelate i sessionID policyID generation state reason) s =
     Some (apsnd CorrelateResult
       (UpdateCorrelation marshal i sessionID policyID generation state reason s))"

fun queue_op :: "Marshal \<Rightarrow> nat \<Rightarrow> int \<Rightarrow> EventOp \<Rightarrow> EventQueue \<Rightarrow> EventQueue \<times> EventResult" where
  "queue_op marshal capacity maxBytes (EvAdd now e) q = apsnd AddResult (queue_add marshal capacity maxBytes now e q)"
| "queue_op marshal capacity maxBytes (EvCorrelate i sessionID policyID generation state reason) q =
     apsnd CorrelateResult (queue_correlate marshal maxBytes i sessionID policyID generation state reason q)"

fun run_events ::
  "Marshal \<Rightarrow> EventOp list \<Rightarrow> SecurityEventStore \<Rightarrow> (SecurityEventStore \<times> EventResult list) option" where
  "run_events marshal [] s = Some (s, [])"
| "run_events marshal (op # ops) s =
     (case event_op marshal op s of
        None \<Rightarrow> None
      | Some (s, r) \<Rightarrow>
          (case run_events marshal ops s of None \<Rightarrow> None | Some (s, rs) \<Rightarrow> Some (s, r # rs)))"

fun run_queue ::
  "Marshal \<Rightarrow> nat \<Rightarrow> int \<Rightarrow> EventOp list \<Rightarrow> EventQueue \<Rightarrow> EventQueue \<times> EventResult list" where
  "run_queue marshal capacity maxBytes [] q = (q, [])"
| "run_queue marshal capacity maxBytes (op # ops) q =
     (case queue_op marshal capacity maxBytes op q of
        (q, r) \<Rightarrow> (case run_queue marshal capacity maxBytes ops q of (q, rs) \<Rightarrow> (q, r # rs)))"

text \<open>What the ring and its index keep, and the queue they stand for.\<close>

definition implements :: "SecurityEventStore \<Rightarrow> nat \<Rightarrow> int \<Rightarrow> EventQueue \<Rightarrow> bool" where
  "implements s capacity maxBytes q \<longleftrightarrow> ring_inv s \<and> ses_capacity s = capacity \<and> ses_maxBytes s = maxBytes
     \<and> q = (contents s, ses_next s)"

lemma ring_inv_irrelevant [simp]:
  "ring_inv (s\<lparr>ses_stats := st\<rparr>) = ring_inv s" "ring_inv (s\<lparr>ses_next := n\<rparr>) = ring_inv s"
  "ring_inv (reject_bytes s) = ring_inv s" "ring_inv (current_stats s) = ring_inv s"
  by (simp_all add: ring_inv_def contents_def reject_bytes_def current_stats_def)

lemma reject_fields [simp]:
  "ses_capacity (reject_bytes s) = ses_capacity s" "ses_maxBytes (reject_bytes s) = ses_maxBytes s"
  "ses_next (reject_bytes s) = ses_next s" "ses_capacity (current_stats s) = ses_capacity s"
  "ses_maxBytes (current_stats s) = ses_maxBytes s" "ses_next (current_stats s) = ses_next s"
  by (simp_all add: reject_bytes_def current_stats_def)

lemma drop_to_fit_cases: "drop_to_fit P q = [] \<or> P (drop_to_fit P q)"
  by (induction q) auto

lemma drop_to_fit_suffix: "\<exists>k. drop_to_fit P q = drop k q"
  by (induction q) (auto intro: exI [of _ 0] exI [of _ "Suc _"])

lemma set_drop_to_fit: "set (drop_to_fit P q) \<subseteq> set q"
  using drop_to_fit_suffix [of P q] by (metis set_drop_subset)

lemma event_defaults_id [simp]: "te_EventID (event_defaults now e) = te_EventID e"
  by (simp add: event_defaults_def Let_def)

lemma Add_refines:
  assumes "implements s capacity maxBytes q"
  shows "\<exists>t r. Add_event marshal now e s = Some (t, r) \<and> implements t capacity maxBytes (fst (queue_add marshal capacity maxBytes now e q))
    \<and> r = snd (queue_add marshal capacity maxBytes now e q)"
proof -
  let ?e = "event_defaults now e" and ?u = "s\<lparr>ses_next := ses_next s + 1\<rparr>"
  let ?n = "?e\<lparr>te_Sequence := ses_next s + 1\<rparr>"
  have inv: "ring_inv s" and q: "q = (contents s, ses_next s)" and c: "capacity = ses_capacity s" "maxBytes = ses_maxBytes s"
    using assms by (auto simp: implements_def)
  note look = index_find [OF inv, of "te_EventID e"]
  show ?thesis
  proof (cases "TrimSpace (te_EventID e) = '''' \<or> marshal ?e = None
      \<or> (\<exists>enc. marshal ?e = Some enc \<and> int (length enc) > maxBytes)
      \<or> fmlookup (ses_index s) (te_EventID e) \<noteq> None \<or> marshal ?n = None")
    case True
    then show ?thesis
      using look by (auto simp: Add_event_def q c implements_def inv Let_def split: option.splits)
  next
    case False
    then obtain enc enc' where enc: "marshal ?e = Some enc" "\<not> int (length enc) > maxBytes"
      "marshal ?n = Some enc'" and new: "fmlookup (ses_index s) (te_EventID e) = None"
      and id: "TrimSpace (te_EventID e) \<noteq> ''''" by auto
    let ?l = "int (length enc')"
    obtain t where t: "make_room ?l ?u = Some t" "ring_inv t"
      "contents t = drop_to_fit (room_for capacity maxBytes ?l) (contents s)"
      "ses_capacity t = capacity" "ses_maxBytes t = maxBytes" "ses_next t = ses_next s + 1"
      using make_room_spec [of ?u ?l] inv c by auto
    have "ring_inv (append_event ?n ?l t) \<and> contents (append_event ?n ?l t)
        = contents t @ [\<lparr>thr_event = ?n, thr_size = ?l\<rparr>]" if "?l \<le> maxBytes"
    proof -
      have "room_for capacity maxBytes ?l (contents t)"
        using drop_to_fit_cases [of "room_for capacity maxBytes ?l" "contents s"] ring_inv_facts(1) [OF inv] c that
        by (auto simp: t(3) room_for_def)
      moreover have "te_EventID ?n \<notin> set (ids (contents t))"
        using new index_position [OF inv] set_drop_to_fit by (fastforce simp: t(3))
      ultimately show ?thesis
        using ring_inv_append [OF t(2)] contents_append [OF t(2)] t(4,5) by (simp add: room_for_def)
    qed
    then show ?thesis
      using enc new id t look by (auto simp: Add_event_def q c implements_def Let_def)
  qed
qed


lemma older_newer: "bytes_in q - bytes_in (takeWhile P q) = bytes_in (dropWhile P q)"
proof -
  have "bytes_in q = bytes_in (takeWhile P q @ dropWhile P q)" by simp
  then show ?thesis by (simp only: map_append sum_list_append)
qed

lemma older_nonneg: "ring_inv s \<Longrightarrow> 0 \<le> bytes_in (takeWhile P (contents s))"
  by (rule sum_list_nonneg) (auto simp: ring_inv_def dest: set_takeWhileD)

lemma correlated_id [simp]: "te_EventID (correlated a b c d f e) = te_EventID e"
  by (simp add: correlated_def)

lemma UpdateCorrelation_refines:
  fixes marshal i sid pid gen state reason
  assumes "implements s capacity maxBytes q"
  defines "res \<equiv> queue_correlate marshal maxBytes i sid pid gen state reason q"
  shows "\<exists>t. UpdateCorrelation marshal i sid pid gen state reason s = (t, snd res)
    \<and> implements t capacity maxBytes (fst res)"
proof -
  have inv: "ring_inv s" and q: "q = (contents s, ses_next s)" and c: "capacity = ses_capacity s" "maxBytes = ses_maxBytes s"
    using assms by (auto simp: implements_def)
  note look = index_find [OF inv, of i] and f = ring_inv_facts [OF inv]
  show ?thesis
  proof (cases "fmlookup (ses_index s) i")
    case None
    then show ?thesis using look by (simp add: res_def q UpdateCorrelation_def implements_def inv c)
  next
    case (Some p)
    let ?r = "ses_items s ! p"
    let ?u = "correlated sid pid gen state reason (thr_event ?r)"
    have r: "find (\<lambda>x. event_id x = i) (contents s) = Some ?r" using look Some by simp
    then have id: "event_id ?r = i" by (auto simp: find_Some_iff)
    show ?thesis
    proof (cases "\<not> CorrelationState_Valid state \<or> same_correlation sid pid gen state reason (thr_event ?r)
        \<or> marshal ?u = None")
      case True
      then show ?thesis using Some r
        by (auto simp: res_def q UpdateCorrelation_def implements_def inv c Let_def)
    next
      case False
      then obtain enc where enc: "marshal ?u = Some enc" by auto
      let ?n = "int (length enc)"
      let ?new = "\<lparr>thr_event = ?u, thr_size = ?n\<rparr>"
      have recl: "(ses_bytes s - thr_size ?r + ?n > ses_maxBytes s
          \<and> ses_bytes s - thr_size ?r + ?n - reclaimable s i [0..<ses_count s] 0 > ses_maxBytes s)
        \<longleftrightarrow> \<not> bytes_in (dropWhile (\<lambda>x. event_id x \<noteq> i) (contents s)) - thr_size ?r + ?n \<le> maxBytes"
        using older_newer [of "contents s" "\<lambda>x. event_id x \<noteq> i"] older_nonneg [OF inv, of "\<lambda>x. event_id x \<noteq> i"]
        by (auto simp: reclaimable_older f(5) c)
      show ?thesis
      proof (cases "?n > maxBytes
          \<or> \<not> bytes_in (dropWhile (\<lambda>x. event_id x \<noteq> i) (contents s)) - thr_size ?r + ?n \<le> maxBytes")
        case True
        then show ?thesis using Some r False enc recl
          by (auto simp: res_def q UpdateCorrelation_def implements_def inv c Let_def)
      next
        case ok: False
        obtain t p' where t: "make_room_before i ?n s p (ses_bytes s - thr_size ?r + ?n)
            = (t, Inr (p', ses_bytes t - thr_size ?r + ?n))" "ring_inv t"
          "fmlookup (ses_index t) i = Some p'" "ses_items t ! p' = ?r"
          "contents t = drop_to_fit (\<lambda>q. bytes_in q - thr_size ?r + ?n \<le> maxBytes) (contents s)"
          "ses_bytes t - thr_size ?r + ?n \<le> maxBytes" "ses_capacity t = capacity" "ses_maxBytes t = maxBytes"
          "ses_next t = ses_next s"
          using make_room_before_spec [OF inv Some refl, of ?n] ok c by auto
        note rep = ring_inv_replace [OF t(2,3) refl, of ?new]
        show ?thesis using Some r False enc recl ok t id rep
          by (auto simp: res_def q UpdateCorrelation_def implements_def c Let_def)
      qed
    qed
  qed
qed

lemma event_op_refines:
  assumes "implements s capacity maxBytes q"
  shows "\<exists>t r q'. event_op marshal op s = Some (t, r) \<and> queue_op marshal capacity maxBytes op q = (q', r)
    \<and> implements t capacity maxBytes q'"
proof (cases op)
  case (EvAdd now e)
  obtain q' r where "queue_add marshal capacity maxBytes now e q = (q', r)" by fastforce
  with EvAdd show ?thesis using Add_refines [OF assms, of marshal now e] by auto
next
  case (EvCorrelate i sid pid gen state reason)
  obtain q' r where "queue_correlate marshal maxBytes i sid pid gen state reason q = (q', r)" by fastforce
  with EvCorrelate show ?thesis
    using UpdateCorrelation_refines [OF assms, of marshal i sid pid gen state reason] by auto
qed

lemma run_events_refines:
  assumes "implements s capacity maxBytes q"
  shows "\<exists>t rs. run_events marshal ops s = Some (t, rs)
    \<and> run_queue marshal capacity maxBytes ops q = ((contents t, ses_next t), rs)
    \<and> implements t capacity maxBytes (contents t, ses_next t)"
  using assms
proof (induction ops arbitrary: s q)
  case Nil
  then show ?case by (auto simp: implements_def)
next
  case (Cons op ops)
  obtain u r q' where u: "event_op marshal op s = Some (u, r)" "queue_op marshal capacity maxBytes op q = (q', r)"
    "implements u capacity maxBytes q'"
    using event_op_refines [OF Cons.prems, of marshal op] by auto
  from Cons.IH [OF u(3)] u(1,2) show ?case by auto
qed

lemma implements_new:
  "implements (NewSecurityEventStore seed capacity maxBytes)
     (if capacity \<le> 0 then 5000 else nat capacity) (if maxBytes \<le> 0 then 16 * 2 ^ 20 else maxBytes) ([], 0)"
  by (auto simp: implements_def NewSecurityEventStore_def Let_def ring_inv_def contents_def)


section \<open>Sizes and sequence numbers\<close>

definition sized :: "Marshal \<Rightarrow> storedThreat list \<Rightarrow> bool" where
  "sized marshal q \<longleftrightarrow> (\<forall>x\<in>set q. map_option (\<lambda>enc. int (length enc)) (marshal (thr_event x)) = Some (thr_size x))"

abbreviation seqs :: "storedThreat list \<Rightarrow> u64 list" where
  "seqs q \<equiv> map (\<lambda>x. te_Sequence (thr_event x)) q"

definition numbered :: "EventQueue \<Rightarrow> bool" where
  "numbered q \<longleftrightarrow> (case q of (xs, seq) \<Rightarrow> sorted_wrt (<) (seqs xs) \<and> (\<forall>n\<in>set (seqs xs). 0 < n \<and> n \<le> seq))"

lemma sized_op:
  assumes "sized marshal (fst q)" "queue_op marshal capacity maxBytes op q = (q', r)"
  shows "sized marshal (fst q')"
proof (cases op)
  case (EvAdd now e)
  then show ?thesis using assms set_drop_to_fit
    by (cases q) (fastforce simp: sized_def Let_def split: if_splits option.splits)
next
  case (EvCorrelate i sid pid gen state reason)
  then show ?thesis using assms set_drop_to_fit
    by (cases q) (fastforce simp: sized_def Let_def replace_event_def split: if_splits option.splits)
qed

lemma numbered_suffix:
  "sorted_wrt (<) (seqs q) \<Longrightarrow> sorted_wrt (<) (seqs (drop_to_fit P q))"
  using drop_to_fit_suffix [of P q] by (metis drop_map sorted_wrt_drop)

lemma seqs_replace:
  "find (\<lambda>x. event_id x = i) q = Some r \<Longrightarrow> distinct (ids q) \<Longrightarrow> te_Sequence (thr_event r') = te_Sequence (thr_event r)
   \<Longrightarrow> set q' \<subseteq> set q \<Longrightarrow> seqs (replace_event i r' q') = seqs q'"
proof -
  assume *: "find (\<lambda>x. event_id x = i) q = Some r" "distinct (ids q)"
    "te_Sequence (thr_event r') = te_Sequence (thr_event r)" "set q' \<subseteq> set q"
  have "x = r" if "x \<in> set q'" "event_id x = i" for x
  proof -
    have "x \<in> set q" "r \<in> set q" "event_id r = i" using * that by (auto simp: find_Some_iff)
    with *(2) that show ?thesis by (metis (mono_tags, lifting) comp_apply distinct_map inj_onD)
  qed
  then show ?thesis using *(3) by (auto simp: replace_event_def)
qed

lemma numbered_cong: "seqs q = seqs q' \<Longrightarrow> numbered (q, n) = numbered (q', n)"
  unfolding numbered_def prod.case by (simp only:)

lemma numbered_op:
  assumes "numbered q" "distinct (ids (fst q))" "queue_op marshal capacity maxBytes op q = (q', r)"
    and "unat (snd q) + 1 < 2 ^ 64"
  shows "numbered q' \<and> unat (snd q') \<le> unat (snd q) + 1"
proof -
  obtain xs seq where q: "q = (xs, seq)" by (cases q)
  have succ: "unat (seq + 1) = unat seq + 1" using assms(4) q by (simp add: unat_word_ariths)
  then have lt: "n \<le> seq \<Longrightarrow> n < seq + 1" "n \<le> seq \<Longrightarrow> n \<le> seq + 1" "0 < seq + 1" for n :: u64
    by (auto simp: word_less_nat_alt word_le_nat_alt)
  have sub: "numbered (drop_to_fit P xs, seq)" "numbered (drop_to_fit P xs, seq + 1)" "numbered (xs, seq + 1)" for P
    using assms(1) numbered_suffix [of xs P] set_drop_to_fit [of P xs] lt by (fastforce simp: q numbered_def)+
  show ?thesis
  proof (cases op)
    case (EvAdd now e)
    have "numbered (drop_to_fit P xs @ [\<lparr>thr_event = v\<lparr>te_Sequence := seq + 1\<rparr>, thr_size = n\<rparr>], seq + 1)" for P v n
      using sub(1) [of P] lt by (auto simp: numbered_def sorted_wrt_append)
    with EvAdd assms(1,3) sub lt succ show ?thesis
      by (auto simp: q Let_def split: if_splits option.splits)
  next
    case (EvCorrelate i sid pid gen state reason)
    have "numbered (replace_event i \<lparr>thr_event = correlated sid pid gen state reason (thr_event v), thr_size = n\<rparr>
        (drop_to_fit P xs), seq)" if "find (\<lambda>x. event_id x = i) xs = Some v" for P v n
      using numbered_cong [OF seqs_replace [OF that]] assms(2) set_drop_to_fit [of P xs] sub(1) [of P]
      by (simp add: q correlated_def)
    with EvCorrelate assms(1,3) show ?thesis
      by (auto simp: q Let_def split: if_splits option.splits)
  qed
qed


lemma implements_facts:
  "implements s capacity maxBytes q \<Longrightarrow> q = (contents s, ses_next s)"
  "implements s capacity maxBytes q \<Longrightarrow> distinct (ids (fst q))"
  by (auto simp: implements_def dest: ids_distinct)

lemma run_sized:
  assumes "implements s capacity maxBytes q" "sized marshal (contents s)" "run_events marshal ops s = Some (t, rs)"
  shows "sized marshal (contents t)"
  using assms
proof (induction ops arbitrary: s q rs)
  case (Cons op ops)
  obtain u r q' where u: "event_op marshal op s = Some (u, r)" "queue_op marshal capacity maxBytes op q = (q', r)"
    "implements u capacity maxBytes q'"
    using event_op_refines [OF Cons.prems(1), of marshal op] by auto
  have "sized marshal (contents u)"
    using sized_op [OF _ u(2)] implements_facts(1) [OF Cons.prems(1)] implements_facts(1) [OF u(3)] Cons.prems(2)
    by simp
  with Cons.IH [OF u(3)] Cons.prems(3) u(1) show ?case by (auto split: option.splits)
qed simp

lemma run_numbered:
  assumes "implements s capacity maxBytes q" "numbered q" "run_events marshal ops s = Some (t, rs)"
    and "unat (ses_next s) + length ops < 2 ^ 64"
  shows "numbered (contents t, ses_next t) \<and> unat (ses_next t) \<le> unat (ses_next s) + length ops"
  using assms
proof (induction ops arbitrary: s q rs)
  case (Cons op ops)
  obtain u r q' where u: "event_op marshal op s = Some (u, r)" "queue_op marshal capacity maxBytes op q = (q', r)"
    "implements u capacity maxBytes q'"
    using event_op_refines [OF Cons.prems(1), of marshal op] by auto
  note q = implements_facts [OF Cons.prems(1)] and q' = implements_facts(1) [OF u(3)]
  have step: "numbered q' \<and> unat (ses_next u) \<le> unat (ses_next s) + 1"
    using numbered_op [OF Cons.prems(2) q(2) u(2)] Cons.prems(4) q(1) q' by simp
  obtain rs' where rs': "run_events marshal ops u = Some (t, rs')"
    using Cons.prems(3) u(1) by (auto split: option.splits)
  have "unat (ses_next u) + length ops < 2 ^ 64" using step Cons.prems(4) by simp
  with Cons.IH [OF u(3) _ rs'] step show ?case by auto
qed (auto dest: implements_facts)

text \<open>
  Between two states, sequence numbers are only removed at the front, and those added at the end
  are above the counter.
\<close>

definition slid :: "u64 \<Rightarrow> u64 list \<Rightarrow> u64 list \<Rightarrow> bool" where
  "slid n a b \<longleftrightarrow> (\<exists>k new. b = drop k a @ new \<and> (\<forall>x\<in>set new. n < x))"

lemma slid_refl: "slid n a a"
  by (auto simp: slid_def intro: exI [of _ 0])

lemma slid_trans:
  assumes "slid n a b" "slid m b c" "n \<le> m"
  shows "slid n a c"
proof -
  obtain k new l new' where *: "b = drop k a @ new" "c = drop l b @ new'" "\<forall>x\<in>set new. n < x" "\<forall>x\<in>set new'. m < x"
    using assms(1,2) by (auto simp: slid_def)
  let ?new = "drop (l - length (drop k a)) new @ new'"
  have "c = drop (l + k) a @ ?new" using * by (simp only: drop_append drop_drop append_assoc)
  moreover have "\<forall>x\<in>set ?new. n < x" using * assms(3) set_drop_subset [of _ new] by fastforce
  ultimately show ?thesis unfolding slid_def by blast
qed

lemma slid_drop:
  "\<forall>x\<in>set (seqs ys). n < x \<Longrightarrow> slid n (seqs q) (seqs (drop_to_fit P q @ ys))"
  "slid n (seqs q) (seqs (drop_to_fit P q))"
proof -
  obtain k where k: "drop_to_fit P q = drop k q" using drop_to_fit_suffix by blast
  show *: "slid n (seqs q) (seqs (drop_to_fit P q @ ys))" if "\<forall>x\<in>set (seqs ys). n < x" for ys
    unfolding slid_def k
    by (rule exI [of _ k], rule exI [of _ "seqs ys"]) (use that in \<open>simp add: drop_map\<close>)
  show "slid n (seqs q) (seqs (drop_to_fit P q))" using * [of "[]"] by simp
qed

lemma seqs_op:
  assumes "distinct (ids (fst q))" "queue_op marshal capacity maxBytes op q = (q', r)"
    and "unat (snd q) + 1 < 2 ^ 64"
  shows "slid (snd q) (seqs (fst q)) (seqs (fst q')) \<and> snd q \<le> snd q'"
proof -
  obtain xs seq where q: "q = (xs, seq)" by (cases q)
  have "unat (seq + 1) = unat seq + 1" using assms(3) q by (simp add: unat_word_ariths)
  then have lt: "seq < seq + 1" "seq \<le> seq + 1" by (auto simp: word_less_nat_alt word_le_nat_alt)
  show ?thesis
  proof (cases op)
    case (EvAdd now e)
    have "slid seq (seqs xs) (seqs (drop_to_fit P xs @ [\<lparr>thr_event = v\<lparr>te_Sequence := seq + 1\<rparr>, thr_size = n\<rparr>]))" for P v n
      by (rule slid_drop) (simp add: lt)
    with EvAdd assms(2) lt slid_refl slid_drop(2) show ?thesis
      by (auto simp: q Let_def simp del: map_append split: if_splits option.splits)
  next
    case (EvCorrelate i sid pid gen state reason)
    have "slid seq (seqs xs) (seqs (replace_event i \<lparr>thr_event = correlated sid pid gen state reason (thr_event v),
        thr_size = n\<rparr> (drop_to_fit P xs)))" if "find (\<lambda>x. event_id x = i) xs = Some v" for P v n
      using seqs_replace [OF that _ _ set_drop_to_fit] assms(1) slid_drop(2) [of seq xs P] by (simp add: q correlated_def)
    with EvCorrelate assms(2) slid_refl show ?thesis
      by (auto simp: q Let_def split: if_splits option.splits)
  qed
qed

lemma run_seqs:
  assumes "implements s capacity maxBytes q" "run_events marshal ops s = Some (t, rs)"
    and "numbered q" "unat (ses_next s) + length ops < 2 ^ 64"
  shows "slid (ses_next s) (seqs (contents s)) (seqs (contents t))"
  using assms
proof (induction ops arbitrary: s q rs)
  case Nil
  then show ?case by (simp add: slid_refl)
next
  case (Cons op ops)
  obtain u r q' where u: "event_op marshal op s = Some (u, r)" "queue_op marshal capacity maxBytes op q = (q', r)"
    "implements u capacity maxBytes q'"
    using event_op_refines [OF Cons.prems(1), of marshal op] by auto
  note q = implements_facts [OF Cons.prems(1)] and q' = implements_facts(1) [OF u(3)]
  have step: "slid (ses_next s) (seqs (contents s)) (seqs (contents u))" "ses_next s \<le> ses_next u"
    using seqs_op [OF q(2) u(2)] q(1) q' Cons.prems(4) by auto
  have num: "numbered q' \<and> unat (ses_next u) \<le> unat (ses_next s) + 1"
    using numbered_op [OF Cons.prems(3) q(2) u(2)] Cons.prems(4) q(1) q' by simp
  then have "slid (ses_next u) (seqs (contents u)) (seqs (contents t))"
    using Cons.IH [OF u(3)] Cons.prems(2,4) u(1) by (auto split: option.splits)
  with step show ?case by (blast intro: slid_trans)
qed

section \<open>Properties\<close>

abbreviation effective_capacity :: "int \<Rightarrow> nat" where
  "effective_capacity capacity \<equiv> if capacity \<le> 0 then 5000 else nat capacity"

abbreviation effective_bytes :: "int \<Rightarrow> int" where
  "effective_bytes maxBytes \<equiv> if maxBytes \<le> 0 then 16 * 2 ^ 20 else maxBytes"

lemma Get_find: "ring_inv s \<Longrightarrow> Get_event i s = map_option thr_event (find (\<lambda>x. event_id x = i) (contents s))"
  by (simp add: Get_event_def index_find option.map_comp comp_def)

text \<open>
  C9: the event store refines a queue. Whatever sequence of additions and correlation updates is
  applied to a new store, every call returns, the results are those of the queue of events, the ring
  read from its head is that queue, and the index gives for every identifier the event a search of
  the queue gives. On the queue an addition drops the shortest prefix of old events that makes room,
  and a correlation update changes one event in place, drops only older events, and drops none when
  it fails.
\<close>

theorem event_store_refines_queue:
  "\<exists>t rs. run_events marshal ops (NewSecurityEventStore seed capacity maxBytes) = Some (t, rs)
     \<and> run_queue marshal (effective_capacity capacity) (effective_bytes maxBytes) ops ([], 0)
         = ((contents t, ses_next t), rs)
     \<and> snapshot t = map thr_event (contents t)
     \<and> (\<forall>i. Get_event i t = map_option thr_event (find (\<lambda>x. event_id x = i) (contents t)))"
  using run_events_refines [OF implements_new, of marshal ops seed capacity maxBytes]
  by (auto simp: implements_def snapshot_contents Get_find)

text \<open>
  C37: the event store is bounded. In every store that additions and correlation updates can build,
  the ring holds at most its capacity, the byte count is the sum of the lengths of the encoded
  events and is at most the byte limit, no two events share an identifier, every event can be read by
  its identifier, and fewer than 2 to the 64 operations leave the sequence numbers strictly
  increasing from the oldest event to the newest.
\<close>

theorem event_store_bounded:
  assumes "run_events marshal ops (NewSecurityEventStore seed capacity maxBytes) = Some (t, rs)"
  shows "length (snapshot t) \<le> effective_capacity capacity
    \<and> ses_bytes t = (\<Sum>e\<leftarrow>snapshot t. int (length (the (marshal e))))
    \<and> ses_bytes t \<le> effective_bytes maxBytes
    \<and> distinct (map te_EventID (snapshot t))
    \<and> (e \<in> set (snapshot t) \<longrightarrow> Get_event (te_EventID e) t = Some e)
    \<and> (length ops < 2 ^ 64 \<longrightarrow> sorted_wrt (<) (map te_Sequence (snapshot t)))"
proof (intro conjI impI)
  note new = implements_new [of seed capacity maxBytes]
  have impl: "implements t (effective_capacity capacity) (effective_bytes maxBytes) (contents t, ses_next t)"
    using run_events_refines [OF new, of marshal ops] assms by auto
  then have inv: "ring_inv t" and c: "ses_capacity t = effective_capacity capacity"
    "ses_maxBytes t = effective_bytes maxBytes" by (auto simp: implements_def)
  note f = ring_inv_facts [OF inv] and start = implements_facts(1) [OF new]
  have sized: "sized marshal (contents t)"
    using run_sized [OF new _ assms] start by (simp add: sized_def)
  show "length (snapshot t) \<le> effective_capacity capacity" using f(4) c by (simp add: snapshot_contents)
  have "map thr_size (contents t) = map (\<lambda>x. int (length (the (marshal (thr_event x))))) (contents t)"
    using sized by (auto simp: sized_def)
  then show "ses_bytes t = (\<Sum>e\<leftarrow>snapshot t. int (length (the (marshal e))))"
    unfolding f(5) snapshot_contents map_map comp_def by (rule arg_cong)
  show "ses_bytes t \<le> effective_bytes maxBytes" using f(6) c by simp
  show dist: "distinct (map te_EventID (snapshot t))" using ids_distinct [OF inv] by (simp add: snapshot_contents)
  show "Get_event (te_EventID e) t = Some e" if e: "e \<in> set (snapshot t)"
  proof -
    obtain x where x: "x \<in> set (contents t)" "e = thr_event x" using e by (auto simp: snapshot_contents)
    then obtain y where y: "find (\<lambda>y. event_id y = event_id x) (contents t) = Some y"
      by (metis (mono_tags, lifting) find_None_iff not_None_eq)
    then have "y \<in> set (contents t)" "event_id y = event_id x" by (auto simp: find_Some_iff)
    then have "y = x" using ids_distinct [OF inv] x(1) by (metis (mono_tags, lifting) comp_apply distinct_map inj_onD)
    with y x(2) show ?thesis by (simp add: Get_find [OF inv])
  qed
  show "sorted_wrt (<) (map te_Sequence (snapshot t))" if "length ops < 2 ^ 64"
    using run_numbered [OF new _ assms] start that by (simp add: numbered_def snapshot_contents comp_def)
qed

text \<open>An encoding, and a store of two events and twelve bytes that evicts.\<close>

definition example_marshal :: Marshal where
  "example_marshal e = Some (te_EventID e @ te_SessionID e @ show_dec (uint (te_Sequence e)))"

definition example_events :: "EventOp list" where
  "example_events =
     [EvAdd 1 (ThreatEventZero\<lparr>te_EventID := ''a1''\<rparr>), EvAdd 2 (ThreatEventZero\<lparr>te_EventID := ''b2''\<rparr>),
      EvAdd 3 (ThreatEventZero\<lparr>te_EventID := ''b2''\<rparr>), EvAdd 4 (ThreatEventZero\<lparr>te_EventID := ''c3''\<rparr>),
      EvCorrelate ''c3'' ''session'' ''p'' 1 CorrelationCorrelated ''r'']"

definition example_event_store :: SecurityEventStore where
  "example_event_store = fst (the (run_events example_marshal example_events (NewSecurityEventStore [7] 2 12)))"

lemma example_run:
  "map_option fst (run_events example_marshal example_events (NewSecurityEventStore [7] 2 12)) = Some example_event_store"
  by code_simp

theorem event_store_bounded_witness:
  "map_option fst (run_events example_marshal example_events (NewSecurityEventStore [7] 2 12)) = Some example_event_store
   \<and> map te_EventID (snapshot example_event_store) = [''c3'']
   \<and> ses_bytes example_event_store = (\<Sum>e\<leftarrow>snapshot example_event_store. int (length (the (example_marshal e))))
   \<and> ses_bytes example_event_store \<le> 12"
proof -
  obtain rs where run: "run_events example_marshal example_events (NewSecurityEventStore [7] 2 12)
      = Some (example_event_store, rs)" using example_run by auto
  have "map te_EventID (snapshot example_event_store) = [''c3'']" by code_simp
  with event_store_bounded [OF run, of ThreatEventZero] example_run show ?thesis by simp
qed


end
