(* ===== verification/Event_Cursor.thy ===== *)
theory Event_Cursor
imports Event_Queue
begin

text \<open>
  Reading the event store with the cursor of \<open>Query\<close>. The laws the reader relies on, that
  sequence numbers increase along the log and that a step only drops old events and appends new ones,
  are the locale \<open>sequence_log\<close>, interpreted on the store.
\<close>

section \<open>Logs with increasing sequence numbers\<close>

locale sequence_log =
  fixes log :: "'s \<Rightarrow> 'e list" and seq :: "'e \<Rightarrow> u64" and top :: "'s \<Rightarrow> u64" and ok :: "'s \<Rightarrow> bool"
    and step :: "'s \<Rightarrow> 's \<Rightarrow> bool"
  assumes increasing: "ok s \<Longrightarrow> sorted_wrt (<) (map seq (log s))"
    and below: "ok s \<Longrightarrow> e \<in> set (log s) \<Longrightarrow> seq e \<le> top s"
    and slides: "ok s \<Longrightarrow> step s t \<Longrightarrow> slid (top s) (map seq (log s)) (map seq (log t))"
begin

lemma unread_rest:
  assumes "ok s" "unread = filter (\<lambda>e. c < seq e) (log s)" "0 < k" "k \<le> length unread"
  shows "filter (\<lambda>e. seq (unread ! (k - 1)) < seq e) (log s) = drop k unread"
proof -
  have s: "sorted_wrt (<) (map seq unread)"
    using increasing [OF assms(1)] sorted_wrt_filter [of "\<lambda>a b. seq a < seq b" "log s"]
    by (simp add: assms(2) sorted_wrt_map)
  let ?d = "seq (unread ! (k - 1))"
  have k: "k - 1 < length unread" using assms(3,4) by simp
  then have "c < ?d" using nth_mem [OF k] assms(2) by simp
  then have "filter (\<lambda>e. ?d < seq e) (log s) = filter (\<lambda>e. ?d < seq e) unread"
    unfolding assms(2) filter_filter by (intro filter_cong) auto
  also have "\<dots> = filter (\<lambda>e. ?d < seq e) (take k unread) @ filter (\<lambda>e. ?d < seq e) (drop k unread)"
    by (metis append_take_drop_id filter_append)
  also have "filter (\<lambda>e. ?d < seq e) (take k unread) = []"
  proof (rule filter_False, rule ballI)
    fix e
    assume "e \<in> set (take k unread)"
    then obtain j where j: "j < k" "j < length unread" "e = unread ! j" by (auto simp: in_set_conv_nth)
    show "\<not> ?d < seq e"
    proof (cases "j = k - 1")
      case False
      then have "j < k - 1" using j(1) by simp
      then have "seq e < ?d" using s k j(3) by (simp add: sorted_wrt_iff_nth_less)
      then show ?thesis by simp
    qed (use j in simp)
  qed
  also have "filter (\<lambda>e. ?d < seq e) (drop k unread) = drop k unread"
  proof (rule filter_True, rule ballI)
    fix e
    assume "e \<in> set (drop k unread)"
    then obtain j where "j < length unread - k" "e = drop k unread ! j"
      by (metis in_set_conv_nth length_drop)
    then have j: "k + j < length unread" "e = unread ! (k + j)" using assms(4) by simp_all
    have "k - 1 < k + j" using assms(3) by simp
    then show "?d < seq e" using s j by (simp add: sorted_wrt_iff_nth_less)
  qed
  finally show ?thesis by simp
qed

lemma lost_is_old:
  assumes "ok s" "step s t" "e \<in> set (log s)" "seq e \<notin> seq ` set (log t)" "e' \<in> set (log t)"
  shows "seq e < seq e'"
proof -
  obtain k new where t: "map seq (log t) = drop k (map seq (log s)) @ new" "\<forall>x\<in>set new. top s < x"
    using slides [OF assms(1,2)] by (auto simp: slid_def)
  obtain i where i: "i < length (log s)" "e = log s ! i" using assms(3) by (auto simp: in_set_conv_nth)
  have lost: "seq e \<notin> set (map seq (log t))" using assms(4) by simp
  have "i < k"
  proof (rule ccontr)
    assume "\<not> i < k"
    then have "seq e \<in> set (drop k (map seq (log s)))"
      using i by (auto simp: in_set_conv_nth intro!: exI [of _ "i - k"])
    with lost t(1) show False by simp
  qed
  obtain j where j: "j < length (log t)" "e' = log t ! j" using assms(5) by (auto simp: in_set_conv_nth)
  show ?thesis
  proof (cases "k + j < length (log s)")
    case True
    have "map seq (log t) ! j = (drop k (map seq (log s)) @ new) ! j" by (simp add: t(1))
    moreover have "j < length (log s) - k" using True by simp
    ultimately have "seq e' = seq (log s ! (k + j))" using True j by (simp add: nth_append)
    then show ?thesis
      using increasing [OF assms(1)] i \<open>i < k\<close> True by (simp add: sorted_wrt_iff_nth_less)
  next
    case False
    have len: "length (log t) = length (log s) - k + length new" using t(1) by (metis length_append length_drop length_map)
    have "map seq (log t) ! j = (drop k (map seq (log s)) @ new) ! j" by (simp add: t(1))
    moreover have "\<not> j < length (log s) - k" using False by simp
    ultimately have "seq e' = new ! (j - (length (log s) - k))" using j by (simp add: nth_append)
    moreover have "j - (length (log s) - k) < length new" using j len False by simp
    ultimately have "top s < seq e'" using t(2) nth_mem by metis
    then show ?thesis using below [OF assms(1,3)] by simp
  qed
qed

end

section \<open>The store as a log\<close>

definition good_store :: "SecurityEventStore \<Rightarrow> bool" where
  "good_store s \<longleftrightarrow> ring_inv s \<and> numbered (contents s, ses_next s)"

definition store_steps :: "SecurityEventStore \<Rightarrow> SecurityEventStore \<Rightarrow> bool" where
  "store_steps s t \<longleftrightarrow>
     (\<exists>marshal ops rs. run_events marshal ops s = Some (t, rs) \<and> unat (ses_next s) + length ops < 2 ^ 64)"

lemma seqs_snapshot: "map te_Sequence (snapshot s) = seqs (contents s)"
  by (simp add: snapshot_contents)

lemma good_implements: "good_store s \<Longrightarrow> implements s (ses_capacity s) (ses_maxBytes s) (contents s, ses_next s)"
  by (simp add: good_store_def implements_def)

interpretation events: sequence_log snapshot te_Sequence ses_next good_store store_steps
proof unfold_locales
  fix s t e
  show "sorted_wrt (<) (map te_Sequence (snapshot s))" if "good_store s"
    using that by (simp add: seqs_snapshot good_store_def numbered_def)
  show "te_Sequence e \<le> ses_next s" if "good_store s" "e \<in> set (snapshot s)"
    using that by (auto simp: snapshot_contents good_store_def numbered_def)
  show "slid (ses_next s) (map te_Sequence (snapshot s)) (map te_Sequence (snapshot t))"
    if "good_store s" "store_steps s t"
    using that run_seqs [OF good_implements [OF that(1)]]
    by (auto simp: seqs_snapshot store_steps_def good_store_def)
qed

lemma good_run:
  assumes "run_events marshal ops (NewSecurityEventStore seed capacity maxBytes) = Some (t, rs)"
    and "length ops < 2 ^ 64"
  shows "good_store t \<and> unat (ses_next t) \<le> length ops"
proof -
  note new = implements_new [of seed capacity maxBytes]
  have "implements t (effective_capacity capacity) (effective_bytes maxBytes) (contents t, ses_next t)"
    using run_events_refines [OF new, of marshal ops] assms(1) by auto
  moreover have "numbered (contents t, ses_next t) \<and> unat (ses_next t) \<le> length ops"
    using run_numbered [OF new _ assms(1)] implements_facts(1) [OF new] assms(2) by (simp add: numbered_def)
  ultimately show ?thesis by (simp add: good_store_def implements_def)
qed

section \<open>One page\<close>

lemma query_loop_unread:
  "query_loop query limit (filter (\<lambda>e. sq_AfterSequence query < te_Sequence e) es) page
   = query_loop query limit es page"
  by (induction es arbitrary: page) (simp_all add: Let_def not_le)

lemma query_loop_scan:
  assumes "\<forall>e\<in>set es. sq_AfterSequence query < te_Sequence e" "int (length (sp_Items page)) \<le> limit"
    and "\<not> sp_HasMore page"
  shows "\<exists>k\<le>length es. query_loop query limit es page
    = page\<lparr>sp_Items := sp_Items page @ filter (\<lambda>e. matchesSecurityQuery e query) (take k es),
           sp_NextSequence := (if k = 0 then sp_NextSequence page else te_Sequence (es ! (k - 1))),
           sp_HasMore := k < length es\<rparr>
    \<and> (int (length (sp_Items page)) < limit \<longrightarrow> es \<noteq> [] \<longrightarrow> 0 < k)"
  using assms
proof (induction es arbitrary: page)
  case Nil
  then show ?case by simp
next
  case (Cons e es)
  show ?case
  proof (cases "int (length (sp_Items page)) \<ge> limit")
    case True
    with Cons.prems show ?thesis by (intro exI [of _ 0]) auto
  next
    case False
    let ?page = "page\<lparr>sp_NextSequence := te_Sequence e,
      sp_Items := sp_Items page @ (if matchesSecurityQuery e query then [e] else [])\<rparr>"
    have step: "query_loop query limit (e # es) page = query_loop query limit es ?page"
      using Cons.prems False by (auto simp: Let_def not_le)
    have "int (length (sp_Items ?page)) \<le> limit" using False by auto
    with Cons.IH [of ?page] Cons.prems obtain k where k: "k \<le> length es" "query_loop query limit es ?page
      = ?page\<lparr>sp_Items := sp_Items ?page @ filter (\<lambda>e. matchesSecurityQuery e query) (take k es),
             sp_NextSequence := (if k = 0 then sp_NextSequence ?page else te_Sequence (es ! (k - 1))),
             sp_HasMore := k < length es\<rparr>" by auto
    then show ?thesis unfolding step by (intro exI [of _ "Suc k"]) (auto simp: nth_Cons')
  qed
qed

text \<open>What is left to read after the cursor of a query, on the stream it names.\<close>

definition unread :: "SecurityQuery \<Rightarrow> SecurityEventStore \<Rightarrow> ThreatEvent list" where
  "unread query s =
     filter (\<lambda>e. (if sq_StreamID query \<noteq> '''' \<and> sq_StreamID query \<noteq> ses_streamID s then 0
                 else sq_AfterSequence query) < te_Sequence e) (snapshot s)"

lemma query_limit_pos: "0 < query_limit query"
  by (simp add: query_limit_def Let_def)

lemma matches_after [simp]: "matchesSecurityQuery e (query\<lparr>sq_AfterSequence := n\<rparr>) = matchesSecurityQuery e query"
  by (simp add: matchesSecurityQuery_def)

lemma start_page_facts:
  "fst (start_page query s) = (if sq_StreamID query \<noteq> '''' \<and> sq_StreamID query \<noteq> ses_streamID s
     then query\<lparr>sq_AfterSequence := 0\<rparr> else query)"
  "sp_Items (snd (start_page query s)) = []"
  "\<not> sp_HasMore (snd (start_page query s))"
  "sp_Gap (snd (start_page query s)) \<longleftrightarrow>
     (sq_StreamID query \<noteq> '''' \<and> sq_StreamID query \<noteq> ses_streamID s)
     \<or> (\<exists>e es. snapshot s = e # es \<and> 0 < te_Sequence e
          \<and> sq_AfterSequence (fst (start_page query s)) + 1 < te_Sequence e)"
proof -
  show "fst (start_page query s) = (if sq_StreamID query \<noteq> '''' \<and> sq_StreamID query \<noteq> ses_streamID s
     then query\<lparr>sq_AfterSequence := 0\<rparr> else query)" by (simp add: start_page_def Let_def)
  show "sp_Items (snd (start_page query s)) = []" "\<not> sp_HasMore (snd (start_page query s))"
    by (simp_all add: start_page_def Let_def)
  show "sp_Gap (snd (start_page query s)) \<longleftrightarrow>
     (sq_StreamID query \<noteq> '''' \<and> sq_StreamID query \<noteq> ses_streamID s)
     \<or> (\<exists>e es. snapshot s = e # es \<and> 0 < te_Sequence e
          \<and> sq_AfterSequence (fst (start_page query s)) + 1 < te_Sequence e)"
    by (cases "snapshot s") (simp_all add: start_page_def Let_def)
qed

lemma Query_page:
  assumes "good_store s"
  shows "\<exists>k\<le>length (unread query s).
      sp_Items (Query_events query s) = filter (\<lambda>e. matchesSecurityQuery e query) (take k (unread query s))
    \<and> (sp_HasMore (Query_events query s) \<longleftrightarrow> k < length (unread query s))
    \<and> (unread query s \<noteq> [] \<longrightarrow> 0 < k \<and> sp_NextSequence (Query_events query s) = te_Sequence (unread query s ! (k - 1)))"
proof -
  obtain q page where start: "start_page query s = (q, page)" by fastforce
  note page = start_page_facts [of query s, unfolded start fst_conv snd_conv]
  have un: "unread query s = filter (\<lambda>e. sq_AfterSequence q < te_Sequence e) (snapshot s)"
    by (simp add: unread_def page)
  have all: "\<forall>e\<in>set (unread query s). sq_AfterSequence q < te_Sequence e" by (simp add: un)
  have m: "matchesSecurityQuery e q = matchesSecurityQuery e query" for e by (simp add: page)
  obtain k where k: "k \<le> length (unread query s)"
    "query_loop q (query_limit query) (snapshot s) page
      = page\<lparr>sp_Items := filter (\<lambda>e. matchesSecurityQuery e query) (take k (unread query s)),
             sp_NextSequence := (if k = 0 then sp_NextSequence page else te_Sequence (unread query s ! (k - 1))),
             sp_HasMore := k < length (unread query s)\<rparr>" "unread query s \<noteq> [] \<longrightarrow> 0 < k"
    using query_loop_scan [OF all, of page "query_limit query"] query_limit_pos [of query] page(2,3)
      query_loop_unread [of q "query_limit query" "snapshot s" page, folded un]
    by (auto simp: m)
  have "te_Sequence (unread query s ! (k - 1)) \<le> ses_next s" if "unread query s \<noteq> []"
  proof -
    have "unread query s ! (k - 1) \<in> set (unread query s)" using k(1,3) that by (intro nth_mem) auto
    then have "unread query s ! (k - 1) \<in> set (snapshot s)" by (auto simp: un)
    then show ?thesis by (rule events.below [OF assms])
  qed
  with k show ?thesis by (intro exI [of _ k]) (auto simp: Query_events_def start Let_def)
qed


section \<open>Properties\<close>

text \<open>A reader that asks for the next page until there is no more, at most \<open>n\<close> times.\<close>

fun read_pages :: "nat \<Rightarrow> SecurityQuery \<Rightarrow> SecurityEventStore \<Rightarrow> ThreatEvent list option" where
  "read_pages 0 query s = None"
| "read_pages (Suc n) query s =
     (let page = Query_events query s in
      if sp_HasMore page
      then map_option (\<lambda>rest. sp_Items page @ rest)
        (read_pages n (query\<lparr>sq_AfterSequence := sp_NextSequence page, sq_StreamID := sp_StreamID page\<rparr>) s)
      else Some (sp_Items page))"

lemma query_loop_keeps:
  "sp_Gap (query_loop query limit es page) = sp_Gap page"
  "sp_StreamID (query_loop query limit es page) = sp_StreamID page"
  by (induction query limit es page rule: query_loop.induct) (simp_all add: Let_def)

lemma Query_keeps:
  "sp_Gap (Query_events query s) = sp_Gap (snd (start_page query s))"
  "sp_StreamID (Query_events query s) = ses_streamID s"
  by (simp_all add: Query_events_def Let_def split_beta query_loop_keeps)
    (simp add: start_page_def Let_def split_beta)

lemma read_pages_unread:
  assumes "good_store s" "length (unread query s) < n"
  shows "read_pages n query s = Some (filter (\<lambda>e. matchesSecurityQuery e query) (unread query s))"
  using assms(2)
proof (induction n arbitrary: query)
  case (Suc n)
  let ?u = "unread query s" and ?page = "Query_events query s"
  obtain k where k: "k \<le> length ?u" "sp_Items ?page = filter (\<lambda>e. matchesSecurityQuery e query) (take k ?u)"
    "sp_HasMore ?page \<longleftrightarrow> k < length ?u"
    "?u \<noteq> [] \<Longrightarrow> 0 < k \<and> sp_NextSequence ?page = te_Sequence (?u ! (k - 1))"
    using Query_page [OF assms(1), of query] by auto
  show ?case
  proof (cases "k < length ?u")
    case False
    then show ?thesis using k by (simp add: Let_def)
  next
    case True
    then have "?u \<noteq> []" by (metis list.size(3) not_less0)
    then have pos: "0 < k" "sp_NextSequence ?page = te_Sequence (?u ! (k - 1))" using k(4) by auto
    let ?q = "query\<lparr>sq_AfterSequence := sp_NextSequence ?page, sq_StreamID := sp_StreamID ?page\<rparr>"
    have "unread ?q s = filter (\<lambda>e. te_Sequence (?u ! (k - 1)) < te_Sequence e) (snapshot s)"
      by (subst unread_def) (simp add: Query_keeps pos(2))
    also have "\<dots> = drop k ?u" by (rule events.unread_rest [OF assms(1) unread_def pos(1) k(1)])
    finally have "unread ?q s = drop k ?u" .
    moreover have "matchesSecurityQuery e ?q = matchesSecurityQuery e query" for e
      by (simp add: matchesSecurityQuery_def)
    moreover have "length (drop k ?u) < n" using Suc.prems pos(1) True by simp
    ultimately show ?thesis using Suc.IH [of ?q] True k(2,3)
      by (simp add: Let_def) (metis append_take_drop_id filter_append)
  qed
qed simp

text \<open>
  C10: reading with the cursor ends and misses nothing. Starting from any query, on any store
  that operations can build, following the returned cursor until no more is reported takes at most
  one request more than there are stored events, and the pages together are exactly the matching
  events after the starting cursor, in order. A query that names another stream starts from the
  oldest event. The hypothesis bounds the number of operations by 2 to the 64, the range of the
  sequence counter.
\<close>

theorem cursor_reads_everything:
  assumes "run_events marshal ops (NewSecurityEventStore seed capacity maxBytes) = Some (s, rs)"
    and "length ops < 2 ^ 64"
  shows "read_pages (length (snapshot s) + 1) query s
    = Some (filter (\<lambda>e. matchesSecurityQuery e query
        \<and> (if sq_StreamID query = '''' \<or> sq_StreamID query = ses_streamID s
           then sq_AfterSequence query else 0) < te_Sequence e) (snapshot s))"
proof -
  have "length (unread query s) < length (snapshot s) + 1" by (simp add: unread_def le_imp_less_Suc)
  from read_pages_unread [OF conjunct1 [OF good_run [OF assms]] this] show ?thesis
    by (auto simp: unread_def conj_commute intro!: filter_cong)
qed

definition example_query :: SecurityQuery where
  "example_query =
     \<lparr>sq_SessionID = '''', sq_SensorID = '''', sq_Mode = '''', sq_Severity = '''', sq_Verdict = '''',
      sq_Correlation = '''', sq_Application = '''', sq_SignatureID = 0, sq_HasSignatureID = False,
      sq_AfterSequence = 1, sq_StreamID = '''', sq_Limit = 1\<rparr>"

definition cursor_ops :: "EventOp list" where
  "cursor_ops = map (\<lambda>i. EvAdd 1 (ThreatEventZero\<lparr>te_EventID := i\<rparr>)) [''a'', ''b'', ''c'', ''d'']"

definition cursor_store :: SecurityEventStore where
  "cursor_store = fst (the (run_events example_marshal cursor_ops (NewSecurityEventStore [7] 3 50)))"

lemma cursor_run:
  "map_option fst (run_events example_marshal cursor_ops (NewSecurityEventStore [7] 3 50)) = Some cursor_store"
  by code_simp

theorem cursor_reads_everything_witness:
  "map_option (map te_EventID) (read_pages 4 example_query cursor_store) = Some [''b'', ''c'', ''d'']
   \<and> read_pages 4 example_query cursor_store = Some (filter (\<lambda>e. matchesSecurityQuery e example_query
        \<and> 1 < te_Sequence e) (snapshot cursor_store))"
proof -
  obtain rs where run: "run_events example_marshal cursor_ops (NewSecurityEventStore [7] 3 50)
      = Some (cursor_store, rs)" using cursor_run by auto
  have "length (snapshot cursor_store) = 3" by code_simp
  moreover have "map_option (map te_EventID) (read_pages 4 example_query cursor_store) = Some [''b'', ''c'', ''d'']"
    by code_simp
  moreover have "length cursor_ops < 2 ^ 64" by (simp add: cursor_ops_def)
  ultimately show ?thesis
    using cursor_reads_everything [OF run, of example_query] by (simp add: example_query_def)
qed

text \<open>
  C38: a reader learns of every event it lost. When an event was stored after the cursor and has
  been evicted since, the next query with that cursor reports a gap, unless the store is empty.
  The hypothesis on the numbers of operations keeps the sequence counter from wrapping.
\<close>

theorem cursor_detects_loss:
  assumes "run_events marshal ops (NewSecurityEventStore seed capacity maxBytes) = Some (s, rs)"
    and "run_events marshal ops' s = Some (t, rs')" and "length ops + length ops' < 2 ^ 64"
    and "e \<in> set (snapshot s)" and "sq_AfterSequence query < te_Sequence e"
    and "te_Sequence e \<notin> te_Sequence ` set (snapshot t)" and "snapshot t \<noteq> []"
  shows "sp_Gap (Query_events query t)"
proof -
  have s: "good_store s" "unat (ses_next s) \<le> length ops" using good_run [OF assms(1)] assms(3) by auto
  then have "store_steps s t" using assms(2,3) by (fastforce simp: store_steps_def)
  then have old: "te_Sequence e < te_Sequence e'" if "e' \<in> set (snapshot t)" for e'
    using events.lost_is_old [OF s(1) _ assms(4,6) that] by blast
  obtain e' es where t: "snapshot t = e' # es" using assms(7) by (cases "snapshot t") auto
  then have lt: "te_Sequence e < te_Sequence e'" using old [of e'] by simp
  have "sq_AfterSequence query + 1 \<le> te_Sequence e" using assms(5) by (rule inc_le)
  with lt have "sq_AfterSequence query + 1 < te_Sequence e'" by simp
  moreover have "0 < te_Sequence e'" using lt by (rule order.strict_trans1 [rotated]) simp
  ultimately show ?thesis
    unfolding Query_keeps(1) start_page_facts(4) using t by (auto simp: start_page_facts(1))
qed

definition later_ops :: "EventOp list" where
  "later_ops = [EvAdd 1 (ThreatEventZero\<lparr>te_EventID := ''e''\<rparr>)]"

definition later_store :: SecurityEventStore where
  "later_store = fst (the (run_events example_marshal later_ops cursor_store))"

theorem cursor_detects_loss_witness:
  "map te_Sequence (snapshot cursor_store) = [2, 3, 4] \<and> map te_Sequence (snapshot later_store) = [3, 4, 5]
   \<and> sp_Gap (Query_events example_query later_store)"
proof -
  obtain rs where run: "run_events example_marshal cursor_ops (NewSecurityEventStore [7] 3 50)
      = Some (cursor_store, rs)" using cursor_run by auto
  have "map_option fst (run_events example_marshal later_ops cursor_store) = Some later_store" by code_simp
  then obtain rs' where run': "run_events example_marshal later_ops cursor_store = Some (later_store, rs')" by auto
  have seqs: "map te_Sequence (snapshot cursor_store) = [2, 3, 4]" "map te_Sequence (snapshot later_store) = [3, 4, 5]"
    by code_simp+
  define e where "e = hd (snapshot cursor_store)"
  have e: "e \<in> set (snapshot cursor_store)" "te_Sequence e = 2"
    using seqs(1) by (cases "snapshot cursor_store"; simp add: e_def)+
  have "te_Sequence ` set (snapshot later_store) = set [3, 4, 5]" using seqs(2) by (metis list.set_map)
  then have lost: "te_Sequence e \<notin> te_Sequence ` set (snapshot later_store)" using e(2) by simp
  have "length cursor_ops + length later_ops < 2 ^ 64" "sq_AfterSequence example_query < te_Sequence e"
    "snapshot later_store \<noteq> []"
    using e(2) seqs(2) by (auto simp: cursor_ops_def later_ops_def example_query_def)
  then have "sp_Gap (Query_events example_query later_store)"
    using cursor_detects_loss [OF run run' _ e(1) _ lost, of example_query] by simp
  with seqs show ?thesis by simp
qed

text \<open>
  An event that only exceeds the byte limit once it is numbered is rejected after the stored events
  were evicted for it, and the empty store reports no gap.
\<close>

lemma rejected_event_empties_the_store:
  "map_option (\<lambda>(s, r). (map te_EventID (snapshot s), r, sp_Gap (Query_events (example_query\<lparr>sq_AfterSequence := 0\<rparr>) s)))
     (Add_event (\<lambda>e. Some (te_EventID e @ (if te_Sequence e = 0 then [] else ''-''))) 1
       (ThreatEventZero\<lparr>te_EventID := replicate 50 CHR ''x''\<rparr>) cursor_store)
   = Some ([], Inl ErrSecurityEventTooLarge, False)"
  by code_simp


end
