(* ===== verification/App_Identity.thy ===== *)
theory App_Identity
imports Session_Types
begin

text \<open>
  Observations of the inspection sensor (\<open>internal/inspection/source.go\<close>) and the application
  identity derived from them and merged over time (\<open>internal/inspection/application.go\<close>).
\<close>

section \<open>Observations\<close>

record SourcePosition =
  spo_SensorID :: string
  spo_SensorEpoch :: string
  spo_SensorConfigHash :: string
  spo_RulesetID :: string
  spo_Mode :: InspectionMode
  spo_FileGeneration :: string
  spo_ByteStart :: int
  spo_ByteEnd :: int

record AlertObservation =
  al_SignatureID :: u32
  al_HasSignatureID :: bool
  al_SignatureRevision :: u32
  al_Signature :: string
  al_Category :: string
  al_Severity :: "int option"
  al_SignatureAction :: string
  al_PacketVerdict :: "string option"
  al_InternalDiscovery :: bool

record ProtocolMetadata =
  pm_HTTPHost :: string
  pm_HTTPMethod :: string
  pm_HTTPPath :: string
  pm_TLSSNI :: string
  pm_TLSVersion :: string
  pm_ALPN :: "string list"
  pm_DNSQuery :: string
  pm_DNSRecordType :: string
  pm_SSHBanner :: string

record SensorCounters =
  sc_UptimeSeconds :: "u64 option"
  sc_CapturedPackets :: "u64 option"
  sc_CaptureDrops :: "u64 option"
  sc_NFQueueDrops :: "u64 option"
  sc_SourceTimestamp :: "gotime option"

record Observation =
  ob_ID :: string
  ob_Source :: SourcePosition
  ob_Kind :: string
  ob_ObservedAt :: "gotime option"
  ob_IngestedAt :: gotime
  ob_FlowID :: u64
  ob_HasFlowID :: bool
  ob_TransactionID :: "u64 option"
  ob_Tuple :: "Tuple option"
  ob_FlowTuple :: "Tuple option"
  ob_FlowStart :: "gotime option"
  ob_FlowEnd :: "gotime option"
  ob_Direction :: string
  ob_App :: ApplicationIdentity
  ob_Alert :: "AlertObservation option"
  ob_Protocol :: "ProtocolMetadata option"
  ob_Stats :: "SensorCounters option"
  ob_MissingEvidence :: "string list"
  ob_Truncated :: bool

section \<open>Identities\<close>

definition ApplicationIdentityZero :: ApplicationIdentity where
  "ApplicationIdentityZero =
     \<lparr>app_Name = '''', app_RawName = '''', app_Source = '''', app_Confidence = '''', app_FirstSeen = None,
      app_LastSeen = None, app_Revision = 0, app_Conflicted = False, app_EvidenceID = ''''\<rparr>"

definition NormalizeApplication :: "string \<Rightarrow> ApplicationIdentity" where
  "NormalizeApplication raw =
     (let v = ToUpper (TrimSpace raw) in
      if v = '''' \<or> v = ''UNKNOWN'' \<or> v = ''FAILED'' \<or> v = ''UNDETECTED'' then UnknownApplication
      else
        let identity = ApplicationIdentityZero\<lparr>app_Name := v, app_RawName := raw,
              app_Source := ApplicationSourceSuricataAppProto, app_Confidence := ApplicationConfidenceHigh\<rparr> in
        if v \<in> set [''HTTP'', ''TLS'', ''DNS'', ''SSH''] then identity
        else identity\<lparr>app_Name := ''OTHER'', app_Confidence := ApplicationConfidenceMedium\<rparr>)"

definition application_from_protocol :: "ProtocolMetadata \<Rightarrow> ApplicationIdentity \<Rightarrow> ApplicationIdentity" where
  "application_from_protocol p identity =
     (if pm_HTTPHost p \<noteq> '''' \<or> pm_HTTPMethod p \<noteq> '''' \<or> pm_HTTPPath p \<noteq> '''' then NormalizeApplication ''HTTP''
      else if pm_TLSSNI p \<noteq> '''' \<or> pm_TLSVersion p \<noteq> '''' then NormalizeApplication ''TLS''
      else if pm_DNSQuery p \<noteq> '''' \<or> pm_DNSRecordType p \<noteq> '''' then NormalizeApplication ''DNS''
      else if pm_SSHBanner p \<noteq> '''' then NormalizeApplication ''SSH''
      else identity)"

definition ApplicationFromObservation :: "Observation \<Rightarrow> ApplicationIdentity" where
  "ApplicationFromObservation obs =
     (let identity = NormalizeZero (ob_App obs);
          identity = (if app_Name identity = ''UNKNOWN''
                      then (case ob_Protocol obs of None \<Rightarrow> identity
                            | Some p \<Rightarrow> application_from_protocol p identity)
                      else identity);
          identity = (case ob_ObservedAt obs of None \<Rightarrow> identity
                      | Some v \<Rightarrow> identity\<lparr>app_FirstSeen := Some v, app_LastSeen := Some v\<rparr>) in
      NormalizeZero identity)"

section \<open>Merging\<close>

definition confidence_rank :: "ApplicationConfidence \<Rightarrow> int" where
  "confidence_rank v =
     (if v = ApplicationConfidenceVerified then 5 else if v = ApplicationConfidenceHigh then 4
      else if v = ApplicationConfidenceMedium then 3 else if v = ApplicationConfidenceLow then 2 else 1)"

definition applicationObservedTime :: "ApplicationIdentity \<Rightarrow> gotime \<times> bool" where
  "applicationObservedTime v =
     (case app_LastSeen v of Some t \<Rightarrow> (t, True)
      | None \<Rightarrow> (case app_FirstSeen v of Some t \<Rightarrow> (t, True) | None \<Rightarrow> (0, False)))"

definition time_order :: "ApplicationIdentity \<Rightarrow> ApplicationIdentity \<Rightarrow> int" where
  "time_order previous new =
     (let (previousTime, previousHasTime) = applicationObservedTime previous;
          (nextTime, nextHasTime) = applicationObservedTime new in
      if previousHasTime \<and> nextHasTime
      then (if nextTime > previousTime then 1 else if nextTime < previousTime then - 1 else 0)
      else if nextHasTime then 1 else 0)"

definition merge_identity :: "ApplicationIdentity \<Rightarrow> ApplicationIdentity \<Rightarrow> ApplicationIdentity" where
  "merge_identity previous new =
     (let rp = confidence_rank (app_Confidence previous); rn = confidence_rank (app_Confidence new);
          timeOrder = time_order previous new in
      if app_Name previous = app_Name new then (if rn > rp then new else previous)
      else if rn < rp then previous
      else if timeOrder > 0 then new\<lparr>app_Conflicted := False\<rparr>
      else if timeOrder = 0 \<and> rn = rp then previous\<lparr>app_Conflicted := True\<rparr>
      else if rn > rp then new
      else previous)"

text \<open>\<open>if v != nil && (w == nil || v.Before(*w)) { w = v }\<close>, and the same with \<open>After\<close>.\<close>

definition earlier :: "gotime option \<Rightarrow> gotime option \<Rightarrow> gotime option" where
  "earlier v w =
     (case v of None \<Rightarrow> w
      | Some t \<Rightarrow> (case w of None \<Rightarrow> Some t | Some u \<Rightarrow> if t < u then Some t else Some u))"

definition later :: "gotime option \<Rightarrow> gotime option \<Rightarrow> gotime option" where
  "later v w =
     (case v of None \<Rightarrow> w
      | Some t \<Rightarrow> (case w of None \<Rightarrow> Some t | Some u \<Rightarrow> if t > u then Some t else Some u))"

definition MergeApplication :: "ApplicationIdentity \<Rightarrow> ApplicationIdentity \<Rightarrow> ApplicationIdentity" where
  "MergeApplication previous new =
     (let previous = NormalizeZero previous; new = NormalizeZero new in
      if app_Name previous = ''UNKNOWN'' then new\<lparr>app_Revision := app_Revision previous + 1\<rparr>
      else if app_Name new = ''UNKNOWN'' then previous
      else
        let result = merge_identity previous new;
            result = result\<lparr>app_FirstSeen := earlier (app_FirstSeen previous) (app_FirstSeen result)\<rparr>;
            result = result\<lparr>app_FirstSeen := earlier (app_FirstSeen new) (app_FirstSeen result)\<rparr>;
            result = result\<lparr>app_LastSeen := later (app_LastSeen previous) (app_LastSeen result)\<rparr>;
            result = result\<lparr>app_LastSeen := later (app_LastSeen new) (app_LastSeen result)\<rparr>;
            result = result\<lparr>app_Revision := app_Revision previous + 1\<rparr> in
        NormalizeZero result)"

section \<open>What a merge keeps\<close>

definition known :: "ApplicationIdentity \<Rightarrow> bool" where
  "known a \<longleftrightarrow> app_Name (NormalizeZero a) \<noteq> ''UNKNOWN''"

abbreviation authority :: "ApplicationIdentity \<Rightarrow> int" where
  "authority a \<equiv> confidence_rank (app_Confidence a)"

lemma NormalizeZero_fields [simp]:
  "app_FirstSeen (NormalizeZero a) = app_FirstSeen a" "app_LastSeen (NormalizeZero a) = app_LastSeen a"
  "app_Revision (NormalizeZero a) = app_Revision a" "app_Conflicted (NormalizeZero a) = app_Conflicted a"
  "confidence_rank (app_Confidence (NormalizeZero a)) = confidence_rank (app_Confidence a)"
  by (simp_all add: NormalizeZero_def Let_def confidence_rank_def)

lemma NormalizeZero_idem [simp]: "NormalizeZero (NormalizeZero a) = NormalizeZero a"
  by (simp add: NormalizeZero_def Let_def)

lemma NormalizeZero_nonempty [simp]: "app_Name (NormalizeZero a) \<noteq> ''''"
  by (simp add: NormalizeZero_def Let_def)

lemma NormalizeZero_name: "app_Name a \<noteq> '''' \<Longrightarrow> app_Name (NormalizeZero a) = app_Name a"
  by (simp add: NormalizeZero_def Let_def)

lemma merge_identity_cases:
  "(merge_identity p n = p \<or> merge_identity p n = p\<lparr>app_Conflicted := True\<rparr>) \<and> authority n \<le> authority p
   \<or> (merge_identity p n = n \<or> merge_identity p n = n\<lparr>app_Conflicted := False\<rparr>) \<and> authority p \<le> authority n"
  unfolding merge_identity_def Let_def by (simp add: linorder_not_less)

lemma earlier_simps: "earlier v (earlier w v) = earlier w v" "earlier v (earlier v w) = earlier v w"
  "earlier v v = v"
  by (auto simp: earlier_def split: option.splits)

lemma later_simps: "later v (later w v) = later w v" "later v (later v w) = later v w" "later v v = v"
  by (auto simp: later_def split: option.splits)

lemma earlier_eval: "earlier None w = w" "earlier (Some t) None = Some t" "earlier (Some t) (Some u) = Some (min t u)"
  by (simp_all add: earlier_def min_def)

lemma later_eval: "later None w = w" "later (Some t) None = Some t" "later (Some t) (Some u) = Some (max t u)"
  by (simp_all add: later_def max_def)

lemma earlier_commute: "earlier v w = earlier w v"
  by (auto simp: earlier_def split: option.splits)

lemma later_commute: "later v w = later w v"
  by (auto simp: later_def split: option.splits)

lemma MergeApplication_unknown: "known p \<Longrightarrow> \<not> known n \<Longrightarrow> MergeApplication p n = NormalizeZero p"
  by (simp add: MergeApplication_def known_def Let_def)

text \<open>The parts of an identity that say what was seen.\<close>

abbreviation evidence :: "ApplicationIdentity \<Rightarrow> string \<times> ApplicationSource \<times> ApplicationConfidence" where
  "evidence a \<equiv> (app_Name (NormalizeZero a), app_Source (NormalizeZero a), app_Confidence (NormalizeZero a))"

lemma NormalizeZero_update [simp]:
  "NormalizeZero (a\<lparr>app_FirstSeen := f\<rparr>) = (NormalizeZero a)\<lparr>app_FirstSeen := f\<rparr>"
  "NormalizeZero (a\<lparr>app_LastSeen := l\<rparr>) = (NormalizeZero a)\<lparr>app_LastSeen := l\<rparr>"
  "NormalizeZero (a\<lparr>app_Revision := r\<rparr>) = (NormalizeZero a)\<lparr>app_Revision := r\<rparr>"
  "NormalizeZero (a\<lparr>app_Conflicted := c\<rparr>) = (NormalizeZero a)\<lparr>app_Conflicted := c\<rparr>"
  by (simp_all add: NormalizeZero_def Let_def)

lemma MergeApplication_known:
  assumes "known p" "known n"
  defines "r \<equiv> MergeApplication p n"
  shows "known r" and "authority r = max (authority p) (authority n)"
    and "app_FirstSeen r = earlier (app_FirstSeen n) (app_FirstSeen p)"
    and "app_LastSeen r = later (app_LastSeen n) (app_LastSeen p)"
    and "evidence r = evidence p \<and> authority n \<le> authority p \<or> evidence r = evidence n \<and> authority p \<le> authority n"
proof -
  let ?p = "NormalizeZero p" and ?n = "NormalizeZero n"
  have r: "r = NormalizeZero ((merge_identity ?p ?n)
      \<lparr>app_FirstSeen := earlier (app_FirstSeen n) (earlier (app_FirstSeen p) (app_FirstSeen (merge_identity ?p ?n))),
       app_LastSeen := later (app_LastSeen n) (later (app_LastSeen p) (app_LastSeen (merge_identity ?p ?n))),
       app_Revision := app_Revision p + 1\<rparr>)"
    using assms by (simp add: r_def MergeApplication_def known_def Let_def)
  consider (old) "merge_identity ?p ?n = ?p \<or> merge_identity ?p ?n = ?p\<lparr>app_Conflicted := True\<rparr>"
      "authority n \<le> authority p"
    | (new) "merge_identity ?p ?n = ?n \<or> merge_identity ?p ?n = ?n\<lparr>app_Conflicted := False\<rparr>"
      "authority p \<le> authority n"
    using merge_identity_cases [of ?p ?n] by auto
  then have "known r \<and> authority r = max (authority p) (authority n)
    \<and> app_FirstSeen r = earlier (app_FirstSeen n) (app_FirstSeen p)
    \<and> app_LastSeen r = later (app_LastSeen n) (app_LastSeen p)
    \<and> (evidence r = evidence p \<and> authority n \<le> authority p \<or> evidence r = evidence n \<and> authority p \<le> authority n)"
  proof cases
    case old
    then show ?thesis using assms(1) by (auto simp: r known_def earlier_simps later_simps)
  next
    case new
    then show ?thesis using assms(2)
      by (auto simp: r known_def earlier_simps later_simps earlier_commute [of "app_FirstSeen p"]
        later_commute [of "app_LastSeen p"])
  qed
  then show "known r" "authority r = max (authority p) (authority n)"
    "app_FirstSeen r = earlier (app_FirstSeen n) (app_FirstSeen p)"
    "app_LastSeen r = later (app_LastSeen n) (app_LastSeen p)"
    "evidence r = evidence p \<and> authority n \<le> authority p \<or> evidence r = evidence n \<and> authority p \<le> authority n"
    by blast+
qed

text \<open>The instants a field takes in a set of identities, and the least and the greatest of them.\<close>

definition instants :: "(ApplicationIdentity \<Rightarrow> gotime option) \<Rightarrow> ApplicationIdentity set \<Rightarrow> gotime set" where
  "instants f es = (\<Union>e\<in>es. set_option (f e))"

definition least_of :: "gotime set \<Rightarrow> gotime option" where
  "least_of ts = (if ts = {} then None else Some (Min ts))"

definition greatest_of :: "gotime set \<Rightarrow> gotime option" where
  "greatest_of ts = (if ts = {} then None else Some (Max ts))"

lemma earlier_least: "finite ts \<Longrightarrow> earlier v (least_of ts) = least_of (set_option v \<union> ts)"
  by (cases v; cases "ts = {}") (simp_all add: earlier_eval least_of_def)

lemma later_greatest: "finite ts \<Longrightarrow> later v (greatest_of ts) = greatest_of (set_option v \<union> ts)"
  by (cases v; cases "ts = {}") (simp_all add: later_eval greatest_of_def)

lemma finite_instants [simp]: "finite es \<Longrightarrow> finite (instants f es)"
  by (auto simp: instants_def)

lemma instants_insert: "instants f (insert e es) = set_option (f e) \<union> instants f es"
  by (simp add: instants_def)

lemma known_NormalizeZero: "known (NormalizeZero a) = known a"
  by (simp add: known_def)

lemma merge_all:
  assumes "known a"
  defines "S \<equiv> \<lambda>es. insert a (set (filter known es))"
  shows "known (foldl MergeApplication a es)
    \<and> authority (foldl MergeApplication a es) = Max (authority ` S es)
    \<and> app_FirstSeen (foldl MergeApplication a es) = least_of (instants app_FirstSeen (S es))
    \<and> app_LastSeen (foldl MergeApplication a es) = greatest_of (instants app_LastSeen (S es))
    \<and> evidence (foldl MergeApplication a es) \<in> evidence ` S es"
proof (induction es rule: rev_induct)
  case Nil
  have "earlier (app_FirstSeen a) (least_of {}) = app_FirstSeen a" "later (app_LastSeen a) (greatest_of {}) = app_LastSeen a"
    by (cases "app_FirstSeen a"; simp add: earlier_eval least_of_def)
      (cases "app_LastSeen a"; simp add: later_eval greatest_of_def)
  then show ?case using assms(1)
    by (simp add: S_def instants_def earlier_least later_greatest)
next
  case (snoc e es)
  let ?p = "foldl MergeApplication a es"
  show ?case
  proof (cases "known e")
    case False
    then have "S (es @ [e]) = S es" by (auto simp: S_def)
    then show ?thesis using snoc MergeApplication_unknown [of ?p e] False by (simp add: known_NormalizeZero)
  next
    case True
    have S: "S (es @ [e]) = insert e (S es)" using True by (auto simp: S_def)
    have fin: "finite (S es)" "S es \<noteq> {}" by (auto simp: S_def)
    note m = MergeApplication_known [of ?p e, OF _ True]
    show ?thesis using snoc m fin
      by (auto simp: S instants_insert earlier_least later_greatest max.commute)
  qed
qed

text \<open>
  C39: application evidence only accumulates. Merging a list of observations into a known
  identity gives the highest confidence of all the evidence, the earliest first and the latest last
  sighting, and an identity and source that some evidence has. Evidence without an application is
  ignored, and confidence and sightings do not depend on the order in which evidence arrives or on
  how often it is repeated.
\<close>

theorem application_evidence_accumulates:
  assumes "known a"
  shows "authority (foldl MergeApplication a es) = Max (authority ` insert a (set (filter known es)))
    \<and> (\<exists>e\<in>insert a (set (filter known es)). evidence (foldl MergeApplication a es) = evidence e)
    \<and> app_FirstSeen (foldl MergeApplication a es) = least_of (instants app_FirstSeen (insert a (set (filter known es))))
    \<and> app_LastSeen (foldl MergeApplication a es) = greatest_of (instants app_LastSeen (insert a (set (filter known es))))
    \<and> (set es = set es' \<longrightarrow>
      (authority (foldl MergeApplication a es), app_FirstSeen (foldl MergeApplication a es), app_LastSeen (foldl MergeApplication a es))
      = (authority (foldl MergeApplication a es'), app_FirstSeen (foldl MergeApplication a es'), app_LastSeen (foldl MergeApplication a es')))"
  using merge_all [OF assms, of es] merge_all [OF assms, of es'] by auto

definition tls_evidence :: "gotime \<Rightarrow> ApplicationIdentity" where
  "tls_evidence t = (NormalizeApplication ''tls'')\<lparr>app_FirstSeen := Some t, app_LastSeen := Some t\<rparr>"

definition other_evidence :: ApplicationIdentity where
  "other_evidence = (NormalizeApplication ''smtp'')\<lparr>app_FirstSeen := Some 9, app_LastSeen := Some 9\<rparr>"

theorem application_evidence_accumulates_witness:
  "known other_evidence
   \<and> app_Name (foldl MergeApplication other_evidence [tls_evidence 5, UnknownApplication, tls_evidence 7]) = ''TLS''
   \<and> app_FirstSeen (foldl MergeApplication other_evidence [tls_evidence 5, UnknownApplication, tls_evidence 7])
       = app_FirstSeen (foldl MergeApplication other_evidence [tls_evidence 7, tls_evidence 5, UnknownApplication])"
proof -
  have "known other_evidence" by code_simp
  moreover have "app_Name (foldl MergeApplication other_evidence [tls_evidence 5, UnknownApplication, tls_evidence 7]) = ''TLS''"
    by code_simp
  moreover have "set [tls_evidence 5, UnknownApplication, tls_evidence 7] = set [tls_evidence 7, tls_evidence 5, UnknownApplication]"
    by auto
  ultimately show ?thesis
    using application_evidence_accumulates [of other_evidence "[tls_evidence 5, UnknownApplication, tls_evidence 7]"]
    by (metis prod.inject)
qed


end
