(* ===== verification/Inspection_Reducer.thy ===== *)
theory Inspection_Reducer
imports App_Identity Security_Events Connectivity
begin

text \<open>
  The step that folds one observation into the inspection state of a session
  (\<open>internal/engine/inspection_reducer.go\<close>), with the runtime events it emits
  (\<open>internal/domain/runtime_events.go\<close>).
\<close>

section \<open>Data\<close>

type_synonym RuntimeEventKind = string
type_synonym RuntimeEventClass = string

abbreviation EventApplicationIdentified :: RuntimeEventKind where
  "EventApplicationIdentified \<equiv> ''ApplicationIdentified''"
abbreviation EventSecurityAlert :: RuntimeEventKind where "EventSecurityAlert \<equiv> ''SecurityAlert''"
abbreviation EventClassSecurity :: RuntimeEventClass where "EventClassSecurity \<equiv> ''security''"
abbreviation EventClassInspection :: RuntimeEventClass where "EventClassInspection \<equiv> ''inspection''"

record RuntimeEvent =
  rev_SchemaVersion :: u16
  rev_Sequence :: u64
  rev_Kind :: RuntimeEventKind
  rev_Class :: RuntimeEventClass
  rev_SessionID :: string
  rev_Timestamp :: gotime
  rev_Generation :: u64
  rev_Revision :: u64
  rev_Reason :: string
  rev_DroppedBefore :: u64
  rev_EventID :: string
  rev_InspectionRevision :: u64

definition RuntimeEventZero :: RuntimeEvent where
  "RuntimeEventZero =
     \<lparr>rev_SchemaVersion = 0, rev_Sequence = 0, rev_Kind = '''', rev_Class = '''', rev_SessionID = '''',
      rev_Timestamp = 0, rev_Generation = 0, rev_Revision = 0, rev_Reason = '''', rev_DroppedBefore = 0,
      rev_EventID = '''', rev_InspectionRevision = 0\<rparr>"

record InspectionReduction =
  red_Next :: SessionInspection
  red_Threat :: "ThreatEvent option"
  red_Intents :: "InspectionIntent list"
  red_Notifications :: "RuntimeEvent list"

section \<open>Application policy\<close>

definition strongApplication :: "ApplicationIdentity \<Rightarrow> bool" where
  "strongApplication app =
     (if app_Conflicted app \<or> app_Source app = ApplicationSourcePortHeuristic then False
      else app_Confidence app = ApplicationConfidenceHigh \<or> app_Confidence app = ApplicationConfidenceVerified)"

definition app_allowed :: "string list \<Rightarrow> string \<Rightarrow> bool" where
  "app_allowed allowedApps name \<longleftrightarrow> list_ex (\<lambda>allowed. EqualFold (TrimSpace allowed) name) allowedApps"

definition EvaluateAppRestriction ::
  "InspectionSelection \<Rightarrow> ApplicationIdentity \<Rightarrow> gotime option \<Rightarrow> gotime \<Rightarrow> AppPolicyState \<times> string" where
  "EvaluateAppRestriction selection app deadline now =
     (if isel_AllowedApps selection = [] then (AppPolicyNotApplicable, ''policy has no application restriction'')
      else
        let app = NormalizeZero app in
        if app_Conflicted app then (AppPolicyUnknownAllowed, ''application evidence conflicts; fail-open'')
        else if app_Name app = ''UNKNOWN'' \<or> \<not> strongApplication app then
          (if (case deadline of None \<Rightarrow> False | Some d \<Rightarrow> \<not> now < d)
           then (AppPolicyUnknownAllowed, ''application detection timeout; fail-open'')
           else (AppPolicyPending, ''waiting for strong application evidence''))
        else if app_allowed (isel_AllowedApps selection) (app_Name app)
        then (AppPolicyMatched, ''application is allowed by policy'')
        else (AppPolicyMismatch, ''application is not allowed by policy''))"

definition ComputeEffectiveDecision :: "Decision \<Rightarrow> SessionInspection option \<Rightarrow> bool \<Rightarrow> Decision" where
  "ComputeEffectiveDecision base inspectionState revoked =
     (if revoked then DecisionDrop
      else
        case inspectionState of
          None \<Rightarrow> base
        | Some i \<Rightarrow>
            if enf_Mechanism (si_Enforcement i) = EnforcementNFTSessionGuard
               \<and> enf_Status (si_Enforcement i) = EnforcementApplied
               \<and> enf_RequestedAction (si_Enforcement i) = DecisionDrop
            then DecisionDrop else base)"

section \<open>Threats\<close>

definition mapSuricataSeverity :: "int option \<Rightarrow> Severity" where
  "mapSuricataSeverity raw =
     (case raw of None \<Rightarrow> SeverityUnknown
      | Some n \<Rightarrow> if n = 1 then SeverityHigh else if n = 2 then SeverityMedium
                 else if n = 3 then SeverityLow else SeverityUnknown)"

definition severity_rank :: "Severity \<Rightarrow> int" where
  "severity_rank v =
     (if v = SeverityHigh \<or> v = SeverityCritical then 3 else if v = SeverityMedium then 2
      else if v = SeverityLow then 1 else 0)"

definition maxThreatSeverity :: "Severity \<Rightarrow> Severity \<Rightarrow> Severity" where
  "maxThreatSeverity a b = (if severity_rank b > severity_rank a then b else a)"

definition boundedStrings :: "string list \<Rightarrow> string \<Rightarrow> int \<Rightarrow> string list" where
  "boundedStrings vs v maxLen =
     (let result = sort (dedup (filter (\<lambda>item. item \<noteq> '''') (vs @ [v]))) in
      if int (length result) > maxLen then take (nat maxLen) result else result)"

definition threat_base :: "Observation \<Rightarrow> RuntimeSession \<Rightarrow> InspectionSelection \<Rightarrow> ThreatEvent" where
  "threat_base obs session selection =
     (let event = ThreatEventZero
        \<lparr>te_EventID := ob_ID obs, te_ObservedAt := ob_ObservedAt obs, te_IngestedAt := ob_IngestedAt obs,
         te_EventClass := ''security'', te_Source := ''SURICATA'',
         te_SensorID := spo_SensorID (ob_Source obs), te_SensorEpoch := spo_SensorEpoch (ob_Source obs),
         te_SensorConfigHash := spo_SensorConfigHash (ob_Source obs), te_RulesetID := spo_RulesetID (ob_Source obs),
         te_CaptureMode := spo_Mode (ob_Source obs), te_ObservedTuple := ob_Tuple obs,
         te_FlowTuple := ob_FlowTuple obs, te_SessionID := rs_SessionID session,
         te_PolicyID := isel_PolicyID selection, te_PolicyGeneration := isel_Generation selection,
         te_CorrelationState := CorrelationCorrelated, te_CorrelationReason := ''runtime session resolved'',
         te_Application := ApplicationFromObservation obs, te_Severity := SeverityUnknown,
         te_Verdict := VerdictAlert,
         te_Enforcement := \<lparr>enf_Mechanism = EnforcementNone, enf_Scope = EnforcementScopePacket,
           enf_RequestedAction = '''', enf_Status = EnforcementNotRequested, enf_Reason = '''',
           enf_ObservedAt = None, enf_OperationID = ''''\<rparr>\<rparr>;
          event = (if ob_HasFlowID obs then event\<lparr>te_SuricataFlowID := show_dec (uint (ob_FlowID obs))\<rparr> else event);
          event = (case ob_TransactionID obs of None \<Rightarrow> event
                   | Some n \<Rightarrow> event\<lparr>te_TransactionID := Some (show_dec (uint n))\<rparr>) in
      case ob_Tuple obs of None \<Rightarrow> event
      | Some t \<Rightarrow> event\<lparr>te_ProtocolRaw := show_dec (uint (Protocol t))\<rparr>)"

definition block_reason :: "AlertObservation \<Rightarrow> string \<Rightarrow> string" where
  "block_reason alert verdict =
     (if EqualFold verdict ''drop'' \<or> EqualFold verdict ''blocked'' then ''packet verdict reported by Suricata''
      else if EqualFold (al_SignatureAction alert) ''blocked'' \<and> TrimSpace verdict = ''''
      then ''signature action reported blocked; final packet verdict unavailable''
      else '''')"

definition with_alert :: "Observation \<Rightarrow> AlertObservation \<Rightarrow> ThreatEvent \<Rightarrow> ThreatEvent" where
  "with_alert obs alert event =
     (let event = event
        \<lparr>te_SignatureID := al_SignatureID alert, te_SignatureRevision := al_SignatureRevision alert,
         te_Signature := al_Signature alert, te_Category := al_Category alert,
         te_SourceSeverity := al_Severity alert, te_SignatureAction := al_SignatureAction alert\<rparr>;
          event = (case al_PacketVerdict alert of None \<Rightarrow> event | Some v \<Rightarrow> event\<lparr>te_PacketVerdict := v\<rparr>);
          event = event\<lparr>te_Severity := mapSuricataSeverity (al_Severity alert)\<rparr>;
          packetDrop = (EqualFold (te_PacketVerdict event) ''drop'' \<or> EqualFold (te_PacketVerdict event) ''blocked'');
          signatureBlocked = EqualFold (te_SignatureAction event) ''blocked'' in
      if spo_Mode (ob_Source obs) \<noteq> InspectionModeIPS \<and> (packetDrop \<or> signatureBlocked)
      then event\<lparr>te_Verdict := VerdictUnknown, te_Enforcement := (te_Enforcement event)
             \<lparr>enf_Reason := ''non-inline sensor reported blocked traffic; inline enforcement unavailable''\<rparr>\<rparr>
      else if spo_Mode (ob_Source obs) = InspectionModeIPS then
        (let reason = block_reason alert (te_PacketVerdict event) in
         if reason \<noteq> ''''
         then event\<lparr>te_Verdict := VerdictDrop, te_Enforcement :=
                \<lparr>enf_Mechanism = EnforcementSuricataNFQueue, enf_Scope = EnforcementScopePacket,
                 enf_RequestedAction = DecisionDrop, enf_Status = EnforcementReported, enf_Reason = reason,
                 enf_ObservedAt = ob_ObservedAt obs, enf_OperationID = ''''\<rparr>\<rparr>
         else event)
      else event)"

definition ThreatFromObservation :: "Observation \<Rightarrow> RuntimeSession \<Rightarrow> InspectionSelection \<Rightarrow> ThreatEvent" where
  "ThreatFromObservation obs session selection =
     (let event = threat_base obs session selection in
      case ob_Alert obs of None \<Rightarrow> event | Some alert \<Rightarrow> with_alert obs alert event)"

section \<open>The reducer\<close>

definition observed_at :: "Observation \<Rightarrow> gotime" where
  "observed_at obs = (case ob_ObservedAt obs of None \<Rightarrow> ob_IngestedAt obs | Some t \<Rightarrow> t)"

definition note_observation :: "Observation \<Rightarrow> SessionInspection \<Rightarrow> SessionInspection" where
  "note_observation obs next' =
     (if ob_ID obs \<noteq> ''''
      then
        let next' = next'\<lparr>si_Coverage := CoverageObserved\<rparr>;
            next' = (if si_FirstObservedAt next' = None
                     then next'\<lparr>si_FirstObservedAt := Some (observed_at obs)\<rparr> else next') in
        next'\<lparr>si_LastObservedAt := Some (observed_at obs),
              si_Sources := boundedStrings (si_Sources next')
                (spo_SensorID (ob_Source obs) @ '':'' @ spo_SensorEpoch (ob_Source obs)) 2\<rparr>
      else next')"

definition note_application :: "Observation \<Rightarrow> SessionInspection \<Rightarrow> SessionInspection" where
  "note_application obs next' =
     (let identity = (ApplicationFromObservation obs)\<lparr>app_EvidenceID := ob_ID obs\<rparr> in
      next'\<lparr>si_Application :=
        (if app_Name identity \<noteq> ''UNKNOWN'' then MergeApplication (si_Application next') identity
         else NormalizeZero (si_Application next'))\<rparr>)"

definition is_alert :: "Observation \<Rightarrow> bool" where
  "is_alert obs \<longleftrightarrow> (case ob_Alert obs of None \<Rightarrow> False | Some a \<Rightarrow> \<not> al_InternalDiscovery a)"

definition note_threat :: "Observation \<Rightarrow> ThreatEvent \<Rightarrow> SessionInspection \<Rightarrow> SessionInspection" where
  "note_threat obs threat next' =
     (if is_alert obs \<and> si_LastEventID next' \<noteq> te_EventID threat
      then
        let next' = next'\<lparr>si_ThreatCount := si_ThreatCount next' + 1, si_LastEventID := te_EventID threat,
              si_MaxSeverity := maxThreatSeverity (si_MaxSeverity next') (te_Severity threat),
              si_LatestVerdict := te_Verdict threat\<rparr>;
            enforcement = si_Enforcement next' in
        if enf_Mechanism enforcement \<noteq> EnforcementNFTSessionGuard
           \<or> (enf_Status enforcement \<noteq> EnforcementPending \<and> enf_Status enforcement \<noteq> EnforcementApplied)
        then next'\<lparr>si_Enforcement := te_Enforcement threat\<rparr> else next'
      else next')"

definition supersede_guard :: "InspectionSelection \<Rightarrow> AppPolicyState \<Rightarrow> SessionInspection \<Rightarrow> SessionInspection" where
  "supersede_guard selection state next' =
     (if enf_Mechanism (si_Enforcement next') = EnforcementNFTSessionGuard
         \<and> enf_Status (si_Enforcement next') = EnforcementPending
         \<and> (state \<noteq> AppPolicyMismatch \<or> isel_Mode selection \<noteq> InspectionModeIPS
            \<or> \<not> strongApplication (si_Application next'))
      then next'\<lparr>si_Enforcement := (si_Enforcement next')\<lparr>enf_Status := EnforcementUnavailable,
             enf_Reason := ''pending application guard superseded by current evidence''\<rparr>\<rparr>
      else next')"

definition start_deadline :: "InspectionSelection \<Rightarrow> gotime \<Rightarrow> SessionInspection \<Rightarrow> SessionInspection" where
  "start_deadline selection now next' =
     (if isel_AllowedApps selection \<noteq> [] \<and> si_AppDeadline next' = None
      then
        let timeout = wrapInt64 (isel_AppDetectionTimeoutMillis selection * millisecond);
            timeout = (if timeout \<le> 0 then 5 * second else timeout) in
        next'\<lparr>si_AppDeadline := Some (now + timeout)\<rparr>
      else next')"

definition guardInFlightOrApplied :: "SessionInspection \<Rightarrow> bool" where
  "guardInFlightOrApplied next' \<longleftrightarrow>
     enf_Mechanism (si_Enforcement next') = EnforcementNFTSessionGuard
     \<and> enf_RequestedAction (si_Enforcement next') = DecisionDrop
     \<and> (enf_Status (si_Enforcement next') = EnforcementPending
        \<or> enf_Status (si_Enforcement next') = EnforcementApplied)"

definition guard_operation :: "RuntimeSession \<Rightarrow> SessionInspection \<Rightarrow> string" where
  "guard_operation current next' =
     ''app-guard-'' @ rs_SessionID current @ ''-'' @ show_dec (uint (si_Revision next' + 1))"

definition request_guard :: "RuntimeSession \<Rightarrow> string \<Rightarrow> SessionInspection \<Rightarrow> SessionInspection" where
  "request_guard current reason next' =
     next'\<lparr>si_Enforcement :=
       \<lparr>enf_Mechanism = EnforcementNFTSessionGuard, enf_Scope = EnforcementScopeSession,
        enf_RequestedAction = DecisionDrop, enf_Status = EnforcementPending, enf_Reason = reason,
        enf_ObservedAt = None, enf_OperationID = guard_operation current next'\<rparr>\<rparr>"

definition guard_intent ::
  "RuntimeSession \<Rightarrow> InspectionSelection \<Rightarrow> string \<Rightarrow> SessionInspection \<Rightarrow> InspectionIntent" where
  "guard_intent current selection reason next' =
     \<lparr>int_Kind = IntentInstallAppGuard, int_OperationID = guard_operation current next',
      int_SessionID = rs_SessionID current, int_Identity = rs_Identity current,
      int_Generation = isel_Generation selection, int_ExpectedInspectionRevision = si_Revision next' + 1,
      int_RequestedAction = DecisionDrop, int_Owner = ''APP_POLICY'', int_Reason = reason\<rparr>"

definition initial_inspection :: "RuntimeSession \<Rightarrow> InspectionSelection \<Rightarrow> SessionInspection" where
  "initial_inspection current selection =
     (case rs_Inspection current of None \<Rightarrow> DefaultSessionInspection | Some i \<Rightarrow> i)
       \<lparr>si_Generation := isel_Generation selection, si_ProfileID := isel_ProfileID selection,
        si_Mode := isel_Mode selection\<rparr>"

text \<open>The inspection state after the observation, before a guard is requested.\<close>

definition observed_inspection ::
  "RuntimeSession \<Rightarrow> InspectionSelection \<Rightarrow> Observation \<Rightarrow> gotime \<Rightarrow> SessionInspection" where
  "observed_inspection current selection obs now =
     (let next' = (initial_inspection current selection)\<lparr>si_State := InspectionStateInspecting\<rparr>;
          next' = note_observation obs next';
          next' = note_application obs next';
          next' = note_threat obs (ThreatFromObservation obs current selection) next';
          (state, reason) = EvaluateAppRestriction selection (si_Application next') (si_AppDeadline next') now;
          next' = next'\<lparr>si_AppPolicyState := state, si_Reason := reason\<rparr>;
          next' = supersede_guard selection state next' in
      start_deadline selection now next')"

definition guard_needed :: "InspectionSelection \<Rightarrow> SessionInspection \<Rightarrow> bool" where
  "guard_needed selection next' \<longleftrightarrow>
     si_AppPolicyState next' = AppPolicyMismatch \<and> isel_Mode selection = InspectionModeIPS
     \<and> \<not> app_Conflicted (si_Application next') \<and> strongApplication (si_Application next')
     \<and> \<not> guardInFlightOrApplied next'"

definition ReduceInspection ::
  "gotime \<Rightarrow> RuntimeSession \<Rightarrow> InspectionSelection \<Rightarrow> Observation \<Rightarrow> gotime \<Rightarrow> InspectionReduction" where
  "ReduceInspection clock current selection obs now =
     (let now = (if now = 0 then clock else now) in
      if isel_Mode selection = InspectionModeOff
      then \<lparr>red_Next = (initial_inspection current selection)
              \<lparr>si_State := InspectionStateNotRequested, si_Coverage := CoverageNone,
               si_AppPolicyState := AppPolicyNotApplicable, si_Reason := ''policy does not select inspection''\<rparr>,
            red_Threat = None, red_Intents = [], red_Notifications = []\<rparr>
      else
        let next' = observed_inspection current selection obs now;
            threat = ThreatFromObservation obs current selection;
            alerts = (if is_alert obs
              then [RuntimeEventZero\<lparr>rev_Kind := EventSecurityAlert, rev_Class := EventClassSecurity,
                      rev_SessionID := rs_SessionID current, rev_EventID := te_EventID threat,
                      rev_Generation := isel_Generation selection, rev_Timestamp := now\<rparr>]
              else []);
            reason = si_Reason next';
            identified = (if (case rs_Inspection current of None \<Rightarrow> True
                              | Some i \<Rightarrow> app_Name (si_Application i) \<noteq> app_Name (si_Application next'))
              then [RuntimeEventZero\<lparr>rev_Kind := EventApplicationIdentified, rev_Class := EventClassInspection,
                      rev_SessionID := rs_SessionID current, rev_Generation := isel_Generation selection,
                      rev_Timestamp := now\<rparr>]
              else []) in
        \<lparr>red_Next = (if guard_needed selection next' then request_guard current reason next' else next'),
         red_Threat = (if is_alert obs then Some threat else None),
         red_Intents = (if guard_needed selection next' then [guard_intent current selection reason next'] else []),
         red_Notifications = alerts @ identified\<rparr>)"

end
