(* ===== verification/Inspection_Guard.thy ===== *)
theory Inspection_Guard
imports Inspection_Reducer Store_Safety
begin

text \<open>
  When the reducer asks for an application guard, and what a threat report may claim.
\<close>

section \<open>Enforcement through the steps of the reducer\<close>

lemma threat_base_enforcement:
  "enf_Mechanism (te_Enforcement (threat_base obs session selection)) = EnforcementNone"
  "enf_Status (te_Enforcement (threat_base obs session selection)) = EnforcementNotRequested"
  "te_Verdict (threat_base obs session selection) = VerdictAlert"
  "te_PacketVerdict (threat_base obs session selection) = ''''"
  by (simp_all add: threat_base_def Let_def ThreatEventZero_def split: option.splits)

lemma with_alert_cases:
  fixes alert
  assumes "enf_Mechanism (te_Enforcement e) = EnforcementNone" "enf_Status (te_Enforcement e) = EnforcementNotRequested"
    "te_Verdict e = VerdictAlert" "te_PacketVerdict e = ''''"
  defines "v \<equiv> case al_PacketVerdict alert of None \<Rightarrow> '''' | Some v \<Rightarrow> v"
  shows "te_Verdict (with_alert obs alert e) = VerdictDrop
      \<longleftrightarrow> spo_Mode (ob_Source obs) = InspectionModeIPS \<and> block_reason alert v \<noteq> ''''"
    and "enf_Mechanism (te_Enforcement (with_alert obs alert e)) =
      (if spo_Mode (ob_Source obs) = InspectionModeIPS \<and> block_reason alert v \<noteq> '''' then EnforcementSuricataNFQueue
       else EnforcementNone)"
    and "enf_Status (te_Enforcement (with_alert obs alert e)) =
      (if spo_Mode (ob_Source obs) = InspectionModeIPS \<and> block_reason alert v \<noteq> '''' then EnforcementReported
       else EnforcementNotRequested)"
  using assms(1-4) by (auto simp: with_alert_def Let_def v_def split: option.splits)

lemma threat_mechanism:
  "enf_Mechanism (te_Enforcement (ThreatFromObservation obs session selection)) \<noteq> EnforcementNFTSessionGuard"
  using threat_base_enforcement [of obs session selection]
  by (auto simp: ThreatFromObservation_def Let_def with_alert_cases(2) split: option.splits)

lemma note_fields [simp]:
  "si_Enforcement (note_observation obs n) = si_Enforcement n"
  "si_Application (note_observation obs n) = si_Application n"
  "si_Revision (note_observation obs n) = si_Revision n"
  "si_Generation (note_observation obs n) = si_Generation n"
  "si_Mode (note_observation obs n) = si_Mode n"
  "si_Enforcement (note_application obs n) = si_Enforcement n"
  "si_Revision (note_application obs n) = si_Revision n"
  "si_Generation (note_application obs n) = si_Generation n"
  "si_Mode (note_application obs n) = si_Mode n"
  "si_Application (note_threat obs th n) = si_Application n"
  "si_Revision (note_threat obs th n) = si_Revision n"
  "si_Generation (note_threat obs th n) = si_Generation n"
  "si_Mode (note_threat obs th n) = si_Mode n"
  "si_Application (supersede_guard selection state n) = si_Application n"
  "si_AppPolicyState (supersede_guard selection state n) = si_AppPolicyState n"
  "si_Reason (supersede_guard selection state n) = si_Reason n"
  "si_Revision (supersede_guard selection state n) = si_Revision n"
  "si_Generation (supersede_guard selection state n) = si_Generation n"
  "si_Mode (supersede_guard selection state n) = si_Mode n"
  "si_Enforcement (start_deadline selection now n) = si_Enforcement n"
  "si_Application (start_deadline selection now n) = si_Application n"
  "si_AppPolicyState (start_deadline selection now n) = si_AppPolicyState n"
  "si_Reason (start_deadline selection now n) = si_Reason n"
  "si_Revision (start_deadline selection now n) = si_Revision n"
  "si_Generation (start_deadline selection now n) = si_Generation n"
  "si_Mode (start_deadline selection now n) = si_Mode n"
  by (simp_all add: note_observation_def note_application_def note_threat_def supersede_guard_def
    start_deadline_def Let_def)

lemma note_threat_guard:
  "guardInFlightOrApplied (note_threat obs (ThreatFromObservation obs session selection) n) = guardInFlightOrApplied n"
  using threat_mechanism [of obs session selection]
  by (auto simp: note_threat_def guardInFlightOrApplied_def Let_def)

lemma guardInFlightOrApplied_cong:
  "si_Enforcement a = si_Enforcement b \<Longrightarrow> guardInFlightOrApplied a = guardInFlightOrApplied b"
  by (simp add: guardInFlightOrApplied_def)

definition held :: "RuntimeSession \<Rightarrow> bool" where
  "held current \<longleftrightarrow> (case rs_Inspection current of None \<Rightarrow> False | Some i \<Rightarrow> guardInFlightOrApplied i)"

lemma initial_held: "guardInFlightOrApplied (initial_inspection current selection) = held current"
  by (simp add: held_def initial_inspection_def guardInFlightOrApplied_def DefaultSessionInspection_def split: option.splits)

lemma strong_NormalizeZero [simp]: "strongApplication (NormalizeZero a) = strongApplication a"
  by (simp add: strongApplication_def NormalizeZero_def Let_def)

lemma strong_undisputed: "strongApplication a \<Longrightarrow> \<not> app_Conflicted a"
  by (simp add: strongApplication_def split: if_splits)

text \<open>The application is known on strong evidence and is none of the allowed ones.\<close>

definition forbidden :: "InspectionSelection \<Rightarrow> ApplicationIdentity \<Rightarrow> bool" where
  "forbidden selection app \<longleftrightarrow> isel_AllowedApps selection \<noteq> [] \<and> known app \<and> strongApplication app
     \<and> \<not> app_allowed (isel_AllowedApps selection) (app_Name (NormalizeZero app))"

lemma mismatch_iff:
  "fst (EvaluateAppRestriction selection app deadline now) = AppPolicyMismatch \<longleftrightarrow> forbidden selection app"
  using strong_undisputed [of app] by (auto simp: EvaluateAppRestriction_def forbidden_def known_def Let_def)

lemma mismatch_reason:
  "fst (EvaluateAppRestriction selection app deadline now) = AppPolicyMismatch
   \<Longrightarrow> snd (EvaluateAppRestriction selection app deadline now) = ''application is not allowed by policy''"
  by (auto simp: EvaluateAppRestriction_def Let_def split: if_splits)

lemma observed_facts:
  fixes current selection obs now
  defines "n \<equiv> observed_inspection current selection obs now"
  shows "si_AppPolicyState n = AppPolicyMismatch \<longleftrightarrow> forbidden selection (si_Application n)"
    and "si_Revision n = (case rs_Inspection current of None \<Rightarrow> 0 | Some i \<Rightarrow> si_Revision i)"
    and "si_Generation n = isel_Generation selection" and "si_Mode n = isel_Mode selection"
    and "si_AppPolicyState n = AppPolicyMismatch \<Longrightarrow> isel_Mode selection = InspectionModeIPS
      \<Longrightarrow> strongApplication (si_Application n) \<Longrightarrow> guardInFlightOrApplied n = held current"
    and "si_AppPolicyState n = AppPolicyMismatch \<Longrightarrow> si_Reason n = ''application is not allowed by policy''"
proof -
  define m where "m = note_threat obs (ThreatFromObservation obs current selection)
    (note_application obs (note_observation obs
      ((initial_inspection current selection)\<lparr>si_State := InspectionStateInspecting\<rparr>)))"
  obtain state reason where ev: "EvaluateAppRestriction selection (si_Application m) (si_AppDeadline m) now = (state, reason)"
    by fastforce
  have n: "n = start_deadline selection now (supersede_guard selection state
      (m\<lparr>si_AppPolicyState := state, si_Reason := reason\<rparr>))"
    using ev by (simp add: n_def observed_inspection_def m_def Let_def)
  show "si_AppPolicyState n = AppPolicyMismatch \<longleftrightarrow> forbidden selection (si_Application n)"
    using mismatch_iff [of selection "si_Application m" "si_AppDeadline m" now] ev by (simp add: n)
  show "si_Revision n = (case rs_Inspection current of None \<Rightarrow> 0 | Some i \<Rightarrow> si_Revision i)"
    by (simp add: n m_def initial_inspection_def DefaultSessionInspection_def split: option.splits)
  show "si_Generation n = isel_Generation selection" "si_Mode n = isel_Mode selection"
    by (simp_all add: n m_def initial_inspection_def)
  show "si_Reason n = ''application is not allowed by policy''" if "si_AppPolicyState n = AppPolicyMismatch"
    using that mismatch_reason [of selection "si_Application m" "si_AppDeadline m" now] ev by (simp add: n)
  assume *: "si_AppPolicyState n = AppPolicyMismatch" "isel_Mode selection = InspectionModeIPS"
    "strongApplication (si_Application n)"
  then have "state = AppPolicyMismatch" "strongApplication (si_Application m)" by (simp_all add: n)
  with *(2) have "si_Enforcement n = si_Enforcement m" by (simp add: n supersede_guard_def)
  then have "guardInFlightOrApplied n = guardInFlightOrApplied m" by (rule guardInFlightOrApplied_cong)
  also have "\<dots> = guardInFlightOrApplied (initial_inspection current selection)"
    unfolding m_def note_threat_guard by (rule guardInFlightOrApplied_cong) simp
  finally show "guardInFlightOrApplied n = held current" by (simp add: initial_held)
qed

lemma guard_needed_iff:
  fixes current selection obs now
  defines "n \<equiv> observed_inspection current selection obs now"
  shows "guard_needed selection n \<longleftrightarrow>
    isel_Mode selection = InspectionModeIPS \<and> forbidden selection (si_Application n) \<and> \<not> held current"
  using observed_facts [of current selection obs now]
  by (auto simp: guard_needed_def n_def forbidden_def dest: strong_undisputed)

definition guard_due :: "InspectionSelection \<Rightarrow> RuntimeSession \<Rightarrow> ApplicationIdentity \<Rightarrow> bool" where
  "guard_due selection current app \<longleftrightarrow>
     isel_Mode selection = InspectionModeIPS \<and> forbidden selection app \<and> \<not> held current"

lemma reduce_guard:
  fixes current selection obs now clock
  defines "red \<equiv> ReduceInspection clock current selection obs now"
  shows "red_Intents red = (if guard_due selection current (si_Application (red_Next red))
      then [guard_intent current selection ''application is not allowed by policy'' (red_Next red)] else [])"
    and "guard_due selection current (si_Application (red_Next red))
      \<Longrightarrow> red_Next red = request_guard current ''application is not allowed by policy''
        (observed_inspection current selection obs (if now = 0 then clock else now))"
proof -
  let ?n = "observed_inspection current selection obs (if now = 0 then clock else now)"
  let ?reason = "''application is not allowed by policy''"
  have app: "si_Application (red_Next red) = si_Application ?n" if "isel_Mode selection \<noteq> InspectionModeOff"
    using that by (simp add: red_def ReduceInspection_def Let_def request_guard_def)
  have due: "guard_needed selection ?n \<longleftrightarrow> guard_due selection current (si_Application ?n)"
    using guard_needed_iff by (simp add: guard_due_def)
  have reason: "si_Reason ?n = ?reason" if "guard_needed selection ?n"
    using that observed_facts(6) by (simp add: guard_needed_def)
  have "red_Next red = request_guard current ?reason ?n \<and> red_Intents red = [guard_intent current selection ?reason ?n]"
    if "guard_needed selection ?n" "isel_Mode selection \<noteq> InspectionModeOff"
    using that reason by (simp add: red_def ReduceInspection_def Let_def)
  moreover have "red_Intents red = []" if "\<not> guard_needed selection ?n \<or> isel_Mode selection = InspectionModeOff"
    using that by (auto simp: red_def ReduceInspection_def Let_def)
  moreover have "guard_intent current selection r (request_guard current r' n) = guard_intent current selection r n" for r r' n
    by (simp add: guard_intent_def guard_operation_def request_guard_def)
  ultimately show "red_Intents red = (if guard_due selection current (si_Application (red_Next red))
      then [guard_intent current selection ?reason (red_Next red)] else [])"
    "guard_due selection current (si_Application (red_Next red)) \<Longrightarrow> red_Next red = request_guard current ?reason ?n"
    using app due by (auto simp: guard_due_def)
qed

section \<open>Properties\<close>

text \<open>
  C18: an application guard is requested exactly when it is due. The reducer asks for one
  guard, and records it as pending under the same operation, when the policy inspects inline, the
  merged application is known on strong and undisputed evidence and is none of the allowed ones, and
  no guard is pending or applied already. In every other case it asks for none.
\<close>

theorem guard_requested_exactly:
  fixes current selection obs now clock
  defines "red \<equiv> ReduceInspection clock current selection obs now"
  shows "red_Intents red =
    (if isel_Mode selection = InspectionModeIPS \<and> forbidden selection (si_Application (red_Next red)) \<and> \<not> held current
     then [guard_intent current selection ''application is not allowed by policy'' (red_Next red)] else [])
    \<and> (red_Intents red = [] \<or> guardInFlightOrApplied (red_Next red)
      \<and> map int_OperationID (red_Intents red) = [enf_OperationID (si_Enforcement (red_Next red))])"
proof (rule conjI)
  note r = reduce_guard [where clock = clock and current = current and selection = selection and obs = obs
      and now = now, folded red_def]
  have "red_Intents red = [] \<or> guardInFlightOrApplied (red_Next red)
      \<and> map int_OperationID (red_Intents red) = [enf_OperationID (si_Enforcement (red_Next red))]"
    if "guard_due selection current (si_Application (red_Next red))"
    using r(1) r(2) [OF that] that
    by (auto simp: request_guard_def guardInFlightOrApplied_def guard_intent_def guard_operation_def)
  then show "red_Intents red = [] \<or> guardInFlightOrApplied (red_Next red)
      \<and> map int_OperationID (red_Intents red) = [enf_OperationID (si_Enforcement (red_Next red))]"
    using r(1) by auto
  show "red_Intents red =
    (if isel_Mode selection = InspectionModeIPS \<and> forbidden selection (si_Application (red_Next red)) \<and> \<not> held current
     then [guard_intent current selection ''application is not allowed by policy'' (red_Next red)] else [])"
    using r(1) by (simp add: guard_due_def)
qed

section \<open>Valid values\<close>

text \<open>
  Every enumerated field of an inspection state, of a threat report and of a guard intent has one of
  the values its type names. An enforcement that asks for nothing has no requested action.
\<close>

definition valid_severity :: "Severity \<Rightarrow> bool" where
  "valid_severity s \<longleftrightarrow> s \<in> set [SeverityUnknown, SeverityInfo, SeverityLow, SeverityMedium, SeverityHigh, SeverityCritical]"

definition valid_enforcement :: "EnforcementResult \<Rightarrow> bool" where
  "valid_enforcement e \<longleftrightarrow> EnforcementMechanism_Valid (enf_Mechanism e) \<and> EnforcementScope_Valid (enf_Scope e)
     \<and> (enf_RequestedAction e = '''' \<or> Decision_Valid (enf_RequestedAction e)) \<and> EnforcementStatus_Valid (enf_Status e)"

definition valid_application :: "ApplicationIdentity \<Rightarrow> bool" where
  "valid_application a \<longleftrightarrow> ApplicationSource_Valid (app_Source (NormalizeZero a))
     \<and> ApplicationConfidence_Valid (app_Confidence (NormalizeZero a))"

definition valid_inspection :: "SessionInspection \<Rightarrow> bool" where
  "valid_inspection i \<longleftrightarrow> InspectionMode_Valid (si_Mode i) \<and> InspectionState_Valid (si_State i)
     \<and> CoverageState_Valid (si_Coverage i) \<and> AppPolicyState_Valid (si_AppPolicyState i)
     \<and> valid_severity (si_MaxSeverity i) \<and> LatestVerdict_Valid (si_LatestVerdict i)
     \<and> valid_enforcement (si_Enforcement i) \<and> valid_application (si_Application i)"

definition valid_threat :: "ThreatEvent \<Rightarrow> bool" where
  "valid_threat e \<longleftrightarrow> InspectionMode_Valid (te_CaptureMode e) \<and> CorrelationState_Valid (te_CorrelationState e)
     \<and> valid_severity (te_Severity e) \<and> LatestVerdict_Valid (te_Verdict e) \<and> valid_enforcement (te_Enforcement e)
     \<and> valid_application (te_Application e)"

definition valid_intent :: "InspectionIntent \<Rightarrow> bool" where
  "valid_intent i \<longleftrightarrow> int_Kind i \<in> set [IntentInstallAppGuard, IntentRenewAppGuard, IntentRemoveAppGuard]
     \<and> Decision_Valid (int_RequestedAction i)"

named_theorems valid_defs

lemmas [valid_defs] = valid_enforcement_def EnforcementMechanism_Valid_def EnforcementScope_Valid_def
  EnforcementStatus_Valid_def AppPolicyState_Valid_def LatestVerdict_Valid_def CoverageState_Valid_def
  InspectionState_Valid_def InspectionMode_Valid_def Decision_Valid_def valid_severity_def

lemma valid_NormalizeZero: "valid_application (NormalizeZero a) = valid_application a"
  by (simp add: valid_application_def)

lemma valid_evidence:
  "evidence a = evidence b \<Longrightarrow> valid_application a = valid_application b"
  by (simp add: valid_application_def)

lemma valid_merge:
  assumes "valid_application p" "valid_application n"
  shows "valid_application (MergeApplication p n)"
proof (cases "known p")
  case False
  then have "MergeApplication p n = (NormalizeZero n)\<lparr>app_Revision := app_Revision p + 1\<rparr>"
    by (simp add: MergeApplication_def known_def Let_def)
  then show ?thesis using assms(2) by (simp add: valid_application_def)
next
  case True
  show ?thesis
  proof (cases "known n")
    case False
    then show ?thesis using assms(1) True by (simp add: MergeApplication_unknown valid_NormalizeZero)
  next
    case kn: True
    from MergeApplication_known(5) [OF True kn] show ?thesis
      using assms valid_evidence by blast
  qed
qed

lemma valid_NormalizeApplication: "valid_application (NormalizeApplication raw)"
  by (simp add: NormalizeApplication_def Let_def valid_application_def NormalizeZero_def UnknownApplication_def
    ApplicationIdentityZero_def ApplicationSource_Valid_def ApplicationConfidence_Valid_def)

lemma valid_from_observation:
  assumes "valid_application (ob_App obs)"
  shows "valid_application (ApplicationFromObservation obs)"
proof -
  have "valid_application (application_from_protocol p a)" if "valid_application a" for p a
    using that by (simp add: application_from_protocol_def valid_NormalizeApplication)
  moreover have "valid_application (a\<lparr>app_FirstSeen := f, app_LastSeen := l\<rparr>) = valid_application a" for a f l
    by (simp add: valid_application_def)
  ultimately show ?thesis
    using assms by (simp add: ApplicationFromObservation_def Let_def valid_NormalizeZero split: option.splits)
qed

lemma valid_mapSuricataSeverity: "valid_severity (mapSuricataSeverity raw)"
  by (simp add: mapSuricataSeverity_def valid_severity_def split: option.split)

lemma valid_maxThreatSeverity: "valid_severity a \<Longrightarrow> valid_severity b \<Longrightarrow> valid_severity (maxThreatSeverity a b)"
  by (simp add: maxThreatSeverity_def)

lemma valid_with_alert:
  assumes "valid_threat e"
  shows "valid_threat (with_alert obs alert e)"
proof -
  have "valid_enforcement ((te_Enforcement e)\<lparr>enf_Reason := r\<rparr>)" for r
    using assms by (simp add: valid_threat_def valid_enforcement_def)
  moreover have "valid_enforcement \<lparr>enf_Mechanism = EnforcementSuricataNFQueue, enf_Scope = EnforcementScopePacket,
      enf_RequestedAction = DecisionDrop, enf_Status = EnforcementReported, enf_Reason = r, enf_ObservedAt = t,
      enf_OperationID = o'\<rparr>" for r t o'
    by (simp add: valid_defs)
  ultimately show ?thesis using assms
    by (simp add: with_alert_def Let_def valid_threat_def LatestVerdict_Valid_def valid_mapSuricataSeverity split: option.split)
qed

lemma valid_threat_base:
  assumes "valid_application (ob_App obs)" "InspectionMode_Valid (spo_Mode (ob_Source obs))"
  shows "valid_threat (threat_base obs session selection)"
  using assms(2) valid_from_observation [OF assms(1)]
  by (simp add: threat_base_def Let_def valid_threat_def CorrelationState_Valid_def valid_enforcement_def
      EnforcementMechanism_Valid_def EnforcementScope_Valid_def EnforcementStatus_Valid_def LatestVerdict_Valid_def
      valid_severity_def split: option.split)

lemma valid_ThreatFromObservation:
  assumes "valid_application (ob_App obs)" "InspectionMode_Valid (spo_Mode (ob_Source obs))"
  shows "valid_threat (ThreatFromObservation obs session selection)"
  using valid_threat_base [OF assms] valid_with_alert
  by (simp add: ThreatFromObservation_def Let_def split: option.split)

lemma valid_steps:
  "valid_inspection n \<Longrightarrow> valid_inspection (note_observation obs n)"
  "valid_inspection n \<Longrightarrow> valid_application (ob_App obs) \<Longrightarrow> valid_inspection (note_application obs n)"
  "valid_inspection n \<Longrightarrow> valid_threat threat \<Longrightarrow> valid_inspection (note_threat obs threat n)"
  "valid_inspection n \<Longrightarrow> valid_inspection (supersede_guard selection state n)"
  "valid_inspection n \<Longrightarrow> valid_inspection (start_deadline selection now n)"
  "valid_inspection n \<Longrightarrow> valid_inspection (request_guard current reason n)"
proof -
  assume n: "valid_inspection n"
  show "valid_inspection (note_observation obs n)" using n
    by (simp add: valid_inspection_def note_observation_def Let_def CoverageState_Valid_def)
  show "valid_inspection (note_application obs n)" if "valid_application (ob_App obs)"
  proof -
    let ?i = "(ApplicationFromObservation obs)\<lparr>app_EvidenceID := ob_ID obs\<rparr>"
    have "NormalizeZero (a\<lparr>app_EvidenceID := x\<rparr>) = (NormalizeZero a)\<lparr>app_EvidenceID := x\<rparr>" for a x
      by (simp add: NormalizeZero_def Let_def)
    then have "valid_application ?i" using valid_from_observation [OF that] by (simp add: valid_application_def)
    then show ?thesis using n valid_merge [of "si_Application n" ?i]
      by (simp add: valid_inspection_def note_application_def Let_def valid_NormalizeZero)
  qed
  show "valid_inspection (note_threat obs threat n)" if "valid_threat threat"
    using n that by (simp add: valid_inspection_def valid_threat_def note_threat_def Let_def valid_maxThreatSeverity)
  show "valid_inspection (supersede_guard selection state n)" using n
    by (simp add: valid_inspection_def supersede_guard_def valid_enforcement_def EnforcementStatus_Valid_def
      EnforcementMechanism_Valid_def)
  show "valid_inspection (start_deadline selection now n)" using n
    by (simp add: valid_inspection_def start_deadline_def Let_def)
  show "valid_inspection (request_guard current reason n)" using n
    by (simp add: valid_inspection_def request_guard_def valid_defs)
qed

lemma valid_policy_state: "AppPolicyState_Valid (fst (EvaluateAppRestriction selection app deadline now))"
  by (simp add: EvaluateAppRestriction_def Let_def AppPolicyState_Valid_def)

lemma valid_initial:
  assumes "\<And>i. rs_Inspection current = Some i \<Longrightarrow> valid_inspection i" "InspectionMode_Valid (isel_Mode selection)"
  shows "valid_inspection (initial_inspection current selection)"
  using assms
  by (cases "rs_Inspection current")
    (auto simp: initial_inspection_def valid_inspection_def DefaultSessionInspection_def valid_defs
      valid_application_def UnknownApplication_def NormalizeZero_def ApplicationSource_Valid_def
      ApplicationConfidence_Valid_def)



text \<open>A session, a policy that allows DNS only, and an observation of HTTP.\<close>

definition example_session :: RuntimeSession where
  "example_session = the (Get example_store example_id)"

definition example_selection :: InspectionSelection where
  "example_selection =
     \<lparr>isel_PolicyID = ''p'', isel_ProfileID = ''ips'', isel_Mode = InspectionModeIPS, isel_RulesetID = ''r'',
      isel_AllowedApps = [''dns''], isel_AppDetectionTimeoutMillis = 0, isel_Generation = 0\<rparr>"

definition example_observation :: Observation where
  "example_observation =
     \<lparr>ob_ID = ''o1'', ob_Source = \<lparr>spo_SensorID = ''s'', spo_SensorEpoch = ''e'', spo_SensorConfigHash = '''',
        spo_RulesetID = '''', spo_Mode = InspectionModeIPS, spo_FileGeneration = '''', spo_ByteStart = 0,
        spo_ByteEnd = 0\<rparr>,
      ob_Kind = ''http'', ob_ObservedAt = Some 5, ob_IngestedAt = 6, ob_FlowID = 0, ob_HasFlowID = False,
      ob_TransactionID = None, ob_Tuple = None, ob_FlowTuple = None, ob_FlowStart = None, ob_FlowEnd = None,
      ob_Direction = '''', ob_App = NormalizeApplication ''http'', ob_Alert = None, ob_Protocol = None,
      ob_Stats = None, ob_MissingEvidence = [], ob_Truncated = False\<rparr>"

text \<open>The same observation with an alert of the highest severity.\<close>

definition alert_observation :: Observation where
  "alert_observation = example_observation\<lparr>ob_Alert := Some \<lparr>al_SignatureID = 1, al_HasSignatureID = True, al_SignatureRevision = 1,
     al_Signature = ''s'', al_Category = '''', al_Severity = Some 1, al_SignatureAction = ''blocked'',
     al_PacketVerdict = None, al_InternalDiscovery = False\<rparr>\<rparr>"

definition alert_reduction :: InspectionReduction where
  "alert_reduction = ReduceInspection 9 example_session example_selection alert_observation 9"


end
