(* ===== verification/Correlation.thy ===== *)
theory Correlation
imports App_Identity Store_Safety
begin

text \<open>
  The resolver that attributes an observation of the sensor to a session
  (\<open>internal/inspection/correlation/resolver.go\<close>). It asks the session store for the candidates of the
  flow keys of the observation and remembers which sensor flow it has bound to which session. What it
  needs of the store is the locale \<open>session_lookup\<close>, which \<open>ResolveCandidates\<close> provides.
\<close>

section \<open>State and results\<close>

record BindingKey =
  bk_SensorID :: string
  bk_SensorEpoch :: string
  bk_FlowID :: u64

record binding =
  bd_SessionID :: string
  bd_Identity :: ConntrackIdentity

record Resolution =
  res_State :: CorrelationState
  res_Session :: "RuntimeSession option"
  res_Reason :: string
  res_Recent :: bool
  res_RefreshCandidate :: "RuntimeSession option"

record Resolver =
  cr_scope :: Scope
  cr_bindings :: "(BindingKey, binding) fmap"
  cr_epochs :: "(string, string) fmap"
  cr_maxBindings :: int

type_synonym session_lookup_fn = "Key \<Rightarrow> gotime \<Rightarrow> int \<Rightarrow> RuntimeSession list \<times> bool"

definition NewResolver :: "Scope \<Rightarrow> int \<Rightarrow> Resolver" where
  "NewResolver scope maxBindings =
     \<lparr>cr_scope = scope, cr_bindings = fmempty, cr_epochs = fmempty,
      cr_maxBindings = (if maxBindings \<le> 0 then 10000 else maxBindings)\<rparr>"

section \<open>Operations\<close>

definition ResetEpoch :: "string \<Rightarrow> string \<Rightarrow> Resolver \<Rightarrow> Resolver" where
  "ResetEpoch sensorID epoch r =
     r\<lparr>cr_bindings := fmfilter (\<lambda>key. \<not> (bk_SensorID key = sensorID \<and> bk_SensorEpoch key \<noteq> epoch)) (cr_bindings r),
       cr_epochs := fmupd sensorID epoch (cr_epochs r)\<rparr>"

definition observeEpoch :: "string \<Rightarrow> string \<Rightarrow> Resolver \<Rightarrow> Resolver" where
  "observeEpoch sensorID epoch r =
     (let previous = (case fmlookup (cr_epochs r) sensorID of None \<Rightarrow> '''' | Some e \<Rightarrow> e);
          r = (if previous \<noteq> '''' \<and> previous \<noteq> epoch
               then r\<lparr>cr_bindings := fmfilter (\<lambda>key. \<not> (bk_SensorID key = sensorID \<and> bk_SensorEpoch key \<noteq> epoch))
                        (cr_bindings r)\<rparr>
               else r) in
      r\<lparr>cr_epochs := fmupd sensorID epoch (cr_epochs r)\<rparr>)"

text \<open>\<open>victim\<close> is the first key of the iteration over the map when it is full.\<close>

definition remember :: "BindingKey \<Rightarrow> BindingKey \<Rightarrow> binding \<Rightarrow> Resolver \<Rightarrow> Resolver" where
  "remember victim key v r =
     (let bindings = (if int (fmlen (cr_bindings r)) \<ge> cr_maxBindings r
                      then fmdrop victim (cr_bindings r) else cr_bindings r) in
      r\<lparr>cr_bindings := fmupd key v bindings\<rparr>)"

definition observationKeys :: "Scope \<Rightarrow> Observation \<Rightarrow> Key list" where
  "observationKeys scope obs =
     dedup (map (\<lambda>t. \<lparr>Key_Scope = scope, Key_Tuple = t\<rparr>)
       (filter Tuple_Valid (List.map_filter id [ob_Tuple obs, ob_FlowTuple obs])))"

definition sameIncarnation :: "ConntrackIdentity \<Rightarrow> ConntrackIdentity \<Rightarrow> bool" where
  "sameIncarnation a b =
     (if ci_ID a \<noteq> 0 \<and> ci_ID b \<noteq> 0 \<and> ci_ID a \<noteq> ci_ID b then False
      else if ci_KernelStart a \<noteq> 0 \<and> ci_KernelStart b \<noteq> 0 \<and> ci_KernelStart a \<noteq> ci_KernelStart b then False
      else ci_BootID a = ci_BootID b \<and> ci_NetworkNS a = ci_NetworkNS b \<and> ci_Zone a = ci_Zone b
           \<and> ci_Original a = ci_Original b)"

definition strongIdentity :: "ConntrackIdentity \<Rightarrow> bool" where
  "strongIdentity v \<longleftrightarrow> ci_ID v \<noteq> 0 \<and> ci_KernelStart v \<noteq> 0 \<and> Tuple_Valid (ci_Original v)"

definition unresolved :: "CorrelationState \<Rightarrow> string \<Rightarrow> Resolution" where
  "unresolved state reason =
     \<lparr>res_State = state, res_Session = None, res_Reason = reason, res_Recent = False, res_RefreshCandidate = None\<rparr>"

definition attributed :: "RuntimeSession \<Rightarrow> string \<Rightarrow> Resolution" where
  "attributed v reason =
     \<lparr>res_State = CorrelationCorrelated, res_Session = Some v, res_Reason = reason,
      res_Recent = (rs_State v = SessionClosed), res_RefreshCandidate = None\<rparr>"

text \<open>The loop over the flow keys for a sensor flow that is already bound; \<open>None\<close>: it falls through.\<close>

fun resolve_known :: "session_lookup_fn \<Rightarrow> gotime \<Rightarrow> binding \<Rightarrow> Key list \<Rightarrow> Resolution option" where
  "resolve_known lookup t bound [] = None"
| "resolve_known lookup t bound (k # ks) =
     (case lookup k t 8 of
        (items, truncated) \<Rightarrow>
          if truncated then Some (unresolved CorrelationAmbiguous ''candidate limit exceeded'')
          else if length items > 1 then Some (unresolved CorrelationAmbiguous ''multiple session tuple matches'')
          else
            (case find (\<lambda>item. rs_SessionID item = bd_SessionID bound \<and> strongIdentity (rs_Identity item)
                          \<and> sameIncarnation (rs_Identity item) (bd_Identity bound)) items of
               Some item \<Rightarrow> Some (attributed item ''sensor flow binding'')
             | None \<Rightarrow> resolve_known lookup t bound ks))"

text \<open>The candidates of all keys by session; \<open>None\<close>: a lookup was truncated.\<close>

fun collect_candidates ::
  "session_lookup_fn \<Rightarrow> gotime \<Rightarrow> Key list \<Rightarrow> (string, RuntimeSession) fmap \<Rightarrow> (string, RuntimeSession) fmap option" where
  "collect_candidates lookup t [] candidates = Some candidates"
| "collect_candidates lookup t (k # ks) candidates =
     (case lookup k t 8 of
        (items, truncated) \<Rightarrow>
          if truncated then None
          else collect_candidates lookup t ks (fold (\<lambda>v. fmupd (rs_SessionID v) v) items candidates))"

definition resolve_tuples :: "session_lookup_fn \<Rightarrow> gotime \<Rightarrow> Key list \<Rightarrow> Resolution" where
  "resolve_tuples lookup t ks =
     (if ks = [] then unresolved CorrelationUncorrelated ''tuple unavailable''
      else
        (case collect_candidates lookup t ks fmempty of
           None \<Rightarrow> unresolved CorrelationAmbiguous ''candidate limit exceeded''
         | Some candidates \<Rightarrow>
             if fmlen candidates = 0 then unresolved CorrelationUncorrelated ''no session tuple match''
             else if fmlen candidates \<noteq> 1
             then unresolved CorrelationAmbiguous ''multiple session tuple matches''
             else
               let selected = the (fmlookup candidates (hd (sorted_list_of_fset (fmdom candidates)))) in
               if \<not> strongIdentity (rs_Identity selected)
               then (unresolved CorrelationUncorrelated ''no strong session tuple match'')
                      \<lparr>res_RefreshCandidate :=
                         (if rs_State selected \<noteq> SessionClosed \<and> ci_ID (rs_Identity selected) \<noteq> 0
                             \<and> Tuple_Valid (ci_Original (rs_Identity selected))
                          then Some selected else None)\<rparr>
               else attributed selected ''tuple alias matched''))"

definition Resolve_observation ::
  "session_lookup_fn option \<Rightarrow> BindingKey \<Rightarrow> Observation \<Rightarrow> Resolver \<Rightarrow> Resolver \<times> Resolution" where
  "Resolve_observation lookup_fn victim obs r =
     (case (lookup_fn, ob_ObservedAt obs) of
        (None, _) \<Rightarrow> (r, unresolved CorrelationUncorrelated ''session lookup unavailable'')
      | (_, None) \<Rightarrow> (r, unresolved CorrelationUncorrelated ''observed timestamp unavailable'')
      | (Some lookup, Some t) \<Rightarrow>
          let source = ob_Source obs;
              r = (if spo_SensorID source \<noteq> '''' \<and> spo_SensorEpoch source \<noteq> ''''
                   then observeEpoch (spo_SensorID source) (spo_SensorEpoch source) r else r);
              key = \<lparr>bk_SensorID = spo_SensorID source, bk_SensorEpoch = spo_SensorEpoch source,
                     bk_FlowID = ob_FlowID obs\<rparr>;
              ks = observationKeys (cr_scope r) obs;
              bound = (if ob_HasFlowID obs then fmlookup (cr_bindings r) key else None) in
          (case Option.bind bound (\<lambda>b. resolve_known lookup t b ks) of
             Some resolution \<Rightarrow> (r, resolution)
           | None \<Rightarrow>
               let resolution = resolve_tuples lookup t ks in
               (case res_Session resolution of
                  Some v \<Rightarrow>
                    (if ob_HasFlowID obs
                     then remember victim key \<lparr>bd_SessionID = rs_SessionID v, bd_Identity = rs_Identity v\<rparr> r
                     else r, resolution)
                | None \<Rightarrow> (r, resolution))))"


section \<open>The contract of the lookup\<close>

lemma fold_candidates_dom:
  "fmdom (fold (\<lambda>v. fmupd (rs_SessionID v) v) items m) = fset_of_list (map rs_SessionID items) |\<union>| fmdom m"
  by (induction items arbitrary: m) auto

lemma fold_candidates_lookup:
  "fmlookup (fold (\<lambda>v. fmupd (rs_SessionID v) v) items m) i = Some v
   \<Longrightarrow> fmlookup m i = Some v \<or> v \<in> set items \<and> rs_SessionID v = i"
proof (induction items arbitrary: m)
  case (Cons a items)
  from Cons.IH [of "fmupd (rs_SessionID a) a m"] Cons.prems show ?case by (auto split: if_splits)
qed simp

text \<open>
  A session is owned by the flow keys of an observation when it is the only one that matches one of
  them; a result is sound when it names such a session, and only if it says so.
\<close>

definition owned :: "(Key \<Rightarrow> RuntimeSession set) \<Rightarrow> Key list \<Rightarrow> RuntimeSession \<Rightarrow> bool" where
  "owned M ks v \<longleftrightarrow> (\<exists>k \<in> set ks. v \<in> M k \<and> rs_SessionID ` M k = {rs_SessionID v})"

definition sound :: "(Key \<Rightarrow> RuntimeSession set) \<Rightarrow> Key list \<Rightarrow> Resolution \<Rightarrow> bool" where
  "sound M ks res \<longleftrightarrow>
     (case res_Session res of
        None \<Rightarrow> res_State res \<noteq> CorrelationCorrelated
      | Some v \<Rightarrow> res = attributed v (res_Reason res) \<and> strongIdentity (rs_Identity v) \<and> owned M ks v)"

text \<open>
  \<open>matching s t k\<close> are the sessions that own the flow key at the time. A lookup returns some of them,
  no session twice, and unless it reports that it was cut short, one for every session there is.
\<close>

locale session_lookup =
  fixes lookup :: "'s \<Rightarrow> session_lookup_fn" and ok :: "'s \<Rightarrow> bool"
    and matching :: "'s \<Rightarrow> gotime \<Rightarrow> Key \<Rightarrow> RuntimeSession set"
  assumes lookup_sound: "ok s \<Longrightarrow> lookup s k t n = (vs, trunc) \<Longrightarrow> set vs \<subseteq> matching s t k"
    and lookup_distinct: "ok s \<Longrightarrow> lookup s k t n = (vs, trunc) \<Longrightarrow> distinct (map rs_SessionID vs)"
    and lookup_complete: "ok s \<Longrightarrow> lookup s k t n = (vs, False)
      \<Longrightarrow> rs_SessionID ` matching s t k = rs_SessionID ` set vs"
begin

lemma known_sound:
  assumes "ok s" "resolve_known (lookup s) t b ks = Some res"
  shows "sound (matching s t) ks res"
  using assms(2)
proof (induction ks)
  case (Cons k ks)
  obtain items trunc where l: "lookup s k t 8 = (items, trunc)" by fastforce
  show ?case
  proof (cases "trunc \<or> length items > 1 \<or> find (\<lambda>item. rs_SessionID item = bd_SessionID b \<and> strongIdentity (rs_Identity item)
                          \<and> sameIncarnation (rs_Identity item) (bd_Identity b)) items = None")
    case True
    with Cons l show ?thesis
      by (auto simp: sound_def unresolved_def owned_def split: option.splits if_splits)
  next
    case False
    then obtain v where v: "find (\<lambda>item. rs_SessionID item = bd_SessionID b \<and> strongIdentity (rs_Identity item)
                          \<and> sameIncarnation (rs_Identity item) (bd_Identity b)) items = Some v"
      "\<not> trunc" "length items \<le> 1" by auto
    then have mem: "v \<in> set items" "strongIdentity (rs_Identity v)" by (auto simp: find_Some_iff)
    then have items: "items = [v]" using v(3) by (cases items) auto
    have "v \<in> matching s t k" "rs_SessionID ` matching s t k = {rs_SessionID v}"
      using lookup_sound [OF assms(1) l] lookup_complete [OF assms(1), of k t 8 items] l v(2) by (auto simp: items)
    moreover have "res = attributed v ''sensor flow binding''" using Cons.prems l v by auto
    ultimately show ?thesis using mem(2) by (auto simp: sound_def attributed_def owned_def)
  qed
qed simp

lemma collected:
  assumes "ok s" "collect_candidates (lookup s) t ks m = Some m'"
  shows "fset (fmdom m') = fset (fmdom m) \<union> (\<Union>k\<in>set ks. rs_SessionID ` matching s t k)"
    and "fmlookup m' i = Some v \<Longrightarrow> fmlookup m i = Some v \<or> rs_SessionID v = i \<and> (\<exists>k\<in>set ks. v \<in> matching s t k)"
  using assms(2)
proof (induction ks arbitrary: m)
  case (Cons k ks)
  {
    case 1
    obtain items where l: "lookup s k t 8 = (items, False)"
      "collect_candidates (lookup s) t ks (fold (\<lambda>v. fmupd (rs_SessionID v) v) items m) = Some m'"
      using 1 by (auto split: prod.splits if_splits)
    show ?case
      using Cons.IH(1) [OF l(2)] lookup_complete [OF assms(1) l(1)]
      by (auto simp: fold_candidates_dom fset_of_list.rep_eq)
  next
    case 2
    obtain items where l: "lookup s k t 8 = (items, False)"
      "collect_candidates (lookup s) t ks (fold (\<lambda>v. fmupd (rs_SessionID v) v) items m) = Some m'"
      using 2(2) by (auto split: prod.splits if_splits)
    show ?case
      using Cons.IH(2) [OF 2(1) l(2)] fold_candidates_lookup [of items m i v] lookup_sound [OF assms(1) l(1)] by auto
  }
qed auto

lemma single_candidate:
  assumes "ok s" "collect_candidates (lookup s) t ks fmempty = Some m" "fmlen m = 1"
  obtains v where "fmlookup m (hd (sorted_list_of_fset (fmdom m))) = Some v" "owned (matching s t) ks v"
    "(\<Union>k\<in>set ks. rs_SessionID ` matching s t k) = {rs_SessionID v}"
proof -
  obtain i where i: "fmdom m = {|i|}" using fcard_1_iff [THEN iffD1, OF assms(3)] by (elim exE)
  have "i |\<in>| fmdom m" by (simp add: i)
  then obtain v where v: "fmlookup m i = Some v" by (rule fmdomE)
  from collected(2) [OF assms(1,2) v] obtain k where k: "rs_SessionID v = i" "k \<in> set ks" "v \<in> matching s t k" by auto
  have u: "(\<Union>k\<in>set ks. rs_SessionID ` matching s t k) = {i}"
    using collected(1) [OF assms(1,2)] by (simp add: i)
  then have "rs_SessionID ` matching s t k = {i}" using k by blast
  then have "owned (matching s t) ks v" using k by (auto simp: owned_def)
  moreover have "hd (sorted_list_of_fset (fmdom m)) = i" by (simp add: i sorted_list_of_fset.rep_eq)
  ultimately show thesis using that [of v] v u k(1) by simp
qed

text \<open>
  Completeness: when the keys belong to one session, that session has a strong identity wherever it
  matches, and no lookup is cut short, the observation is attributed to it.
\<close>

lemma known_complete:
  assumes "ok s" "\<forall>k\<in>set ks. \<not> snd (lookup s k t 8) \<and> rs_SessionID ` matching s t k \<subseteq> {i}"
    and "resolve_known (lookup s) t b ks = Some res"
  shows "\<exists>v. res_Session res = Some v \<and> rs_SessionID v = i"
  using assms(2,3)
proof (induction ks)
  case (Cons k ks)
  obtain items where l: "lookup s k t 8 = (items, False)" using Cons.prems(1) by (cases "lookup s k t 8") auto
  have "set items \<subseteq> matching s t k" by (rule lookup_sound [OF assms(1) l])
  then have ids: "set (map rs_SessionID items) \<subseteq> {i}" using Cons.prems(1) by auto
  then have "length items \<le> 1"
    using distinct_card [OF lookup_distinct [OF assms(1) l]] card_mono [OF _ ids] by simp
  moreover have "rs_SessionID v = i" if "find P items = Some v" for P v
  proof -
    have "v \<in> set items" using that by (auto simp: find_Some_iff)
    with ids show ?thesis by auto
  qed
  ultimately show ?case
    using Cons l by (auto simp: attributed_def split: option.splits if_splits)
qed simp

lemma collect_total:
  "\<forall>k\<in>set ks. \<not> snd (lookup s k t 8) \<Longrightarrow> \<exists>m'. collect_candidates (lookup s) t ks m = Some m'"
  by (induction ks arbitrary: m) (auto split: prod.splits)

lemma tuples_complete:
  assumes "ok s" "\<forall>k\<in>set ks. \<not> snd (lookup s k t 8)"
    and "(\<Union>k\<in>set ks. rs_SessionID ` matching s t k) = {i}"
    and "\<forall>k\<in>set ks. \<forall>v\<in>matching s t k. strongIdentity (rs_Identity v)"
  shows "\<exists>v. res_Session (resolve_tuples (lookup s) t ks) = Some v \<and> rs_SessionID v = i"
proof -
  obtain m where m: "collect_candidates (lookup s) t ks fmempty = Some m" using collect_total [OF assms(2)] by blast
  have "fset (fmdom m) = {i}" using collected(1) [OF assms(1) m] assms(3) by simp
  then have one: "fmlen m = 1" by (simp add: fcard.rep_eq)
  obtain v where v: "fmlookup m (hd (sorted_list_of_fset (fmdom m))) = Some v" "owned (matching s t) ks v"
      "(\<Union>k\<in>set ks. rs_SessionID ` matching s t k) = {rs_SessionID v}"
    by (rule single_candidate [OF assms(1) m one])
  have "strongIdentity (rs_Identity v)" using v(2) assms(4) by (auto simp: owned_def)
  moreover have "ks \<noteq> []" using assms(3) by auto
  ultimately show ?thesis using v assms(3) m one by (simp add: resolve_tuples_def Let_def attributed_def)
qed

lemma tuples_sound: "ok s \<Longrightarrow> sound (matching s t) ks (resolve_tuples (lookup s) t ks)"
  by (auto simp: resolve_tuples_def sound_def unresolved_def attributed_def Let_def
      elim: single_candidate split: option.splits)

lemma observation_sound:
  assumes "ok s" "ob_ObservedAt obs = Some t"
    and "Resolve_observation (Some (lookup s)) victim obs r = (r', res)"
  shows "sound (matching s t) (observationKeys (cr_scope r) obs) res"
proof -
  have scope: "cr_scope (observeEpoch a b r) = cr_scope r" for a b by (simp add: observeEpoch_def Let_def)
  show ?thesis
    using assms(2,3) known_sound [OF assms(1)] tuples_sound [OF assms(1), of t "observationKeys (cr_scope r) obs"]
    by (auto simp: Resolve_observation_def Let_def scope Option.bind_eq_Some_conv split: option.splits if_splits)
qed

lemma observation_complete:
  fixes s obs r
  defines "ks \<equiv> observationKeys (cr_scope r) obs"
  assumes "ok s" "ob_ObservedAt obs = Some t"
    and "\<forall>k\<in>set ks. \<not> snd (lookup s k t 8)"
    and "(\<Union>k\<in>set ks. rs_SessionID ` matching s t k) = {i}"
    and "\<forall>k\<in>set ks. \<forall>v\<in>matching s t k. strongIdentity (rs_Identity v)"
  shows "\<exists>v. res_Session (snd (Resolve_observation (Some (lookup s)) victim obs r)) = Some v \<and> rs_SessionID v = i"
proof -
  have scope: "cr_scope (observeEpoch a b r) = cr_scope r" for a b by (simp add: observeEpoch_def Let_def)
  have k: "\<forall>k\<in>set ks. \<not> snd (lookup s k t 8) \<and> rs_SessionID ` matching s t k \<subseteq> {i}" using assms(4,5) by blast
  obtain v where v: "res_Session (resolve_tuples (lookup s) t ks) = Some v" "rs_SessionID v = i"
    using tuples_complete [OF assms(2,4-6)] by blast
  show ?thesis
    using assms(3) known_complete [OF assms(2) k] v
    by (auto simp: Resolve_observation_def Let_def scope ks_def [symmetric] Option.bind_eq_Some_conv
        split: option.splits if_splits)
qed

end


section \<open>The session store provides the lookup\<close>

text \<open>
  A store with the order in which each set of its tuple index is visited. The sessions that match are
  the live ones indexed under the key and the closed ones of the history that had it as an alias, when
  their lifetime covers the time.
\<close>

type_synonym ordered_store = "RuntimeStore \<times> (Key \<Rightarrow> string list)"

definition store_lookup :: "ordered_store \<Rightarrow> session_lookup_fn" where
  "store_lookup w key t limit = ResolveCandidates (snd w key) (fst w) key t limit"

definition store_ok :: "ordered_store \<Rightarrow> bool" where
  "store_ok w \<longleftrightarrow>
     store_inv (fst w)
     \<and> (\<forall>k. distinct (snd w k) \<and> set (snd w k) = fset (get_set (st_byTuple (fst w)) k))"

definition live_match :: "RuntimeStore \<Rightarrow> gotime \<Rightarrow> Key \<Rightarrow> RuntimeSession \<Rightarrow> bool" where
  "live_match s t k v \<longleftrightarrow>
     fmlookup (st_byID s) (rs_SessionID v) = Some v \<and> k \<in> set (bounded_aliases s v) \<and> sessionOverlaps v t"

definition store_matching :: "ordered_store \<Rightarrow> gotime \<Rightarrow> Key \<Rightarrow> RuntimeSession set" where
  "store_matching w t k =
     {v. live_match (fst w) t k v
         \<or> v \<in> set (st_closed (fst w)) \<and> sessionOverlaps v t \<and> sessionHasAlias v k}"

lemma closed_candidates_facts:
  "set (closed_candidates k t seen vs) \<subseteq> {v \<in> set vs. sessionOverlaps v t \<and> sessionHasAlias v k}"
  "distinct (map rs_SessionID (closed_candidates k t seen vs))
   \<and> rs_SessionID ` set (closed_candidates k t seen vs) \<inter> set seen = {}"
  "v \<in> set vs \<Longrightarrow> sessionOverlaps v t \<Longrightarrow> sessionHasAlias v k
   \<Longrightarrow> rs_SessionID v \<in> set seen \<union> rs_SessionID ` set (closed_candidates k t seen vs)"
  by (induction k t seen vs rule: closed_candidates.induct) auto

lemma set_sessions_in: "v \<in> set (sessions_in s order) \<longleftrightarrow> (\<exists>i\<in>set order. fmlookup (st_byID s) i = Some v)"
  by (induction order) (auto simp: sessions_in_def map_filter_simps split: option.splits)

lemma active_facts:
  assumes "store_ok (s, order)"
  shows "set (active_candidates s t (order k)) = {v. live_match s t k v}"
    and "map rs_SessionID (active_candidates s t (order k))
      = filter (\<lambda>i. case fmlookup (st_byID s) i of None \<Rightarrow> False | Some v \<Rightarrow> sessionOverlaps v t) (order k)"
proof -
  have inv: "store_inv s" "distinct (order k)" "set (order k) = fset (get_set (st_byTuple s) k)"
    using assms by (auto simp: store_ok_def)
  have own: "rs_SessionID v = i" if "fmlookup (st_byID s) i = Some v" for i v
    using inv(1) that index_inv_id by (auto simp: store_inv_def)
  have "(\<exists>i\<in>set (order k). fmlookup (st_byID s) i = Some v) \<longleftrightarrow>
      fmlookup (st_byID s) (rs_SessionID v) = Some v \<and> k \<in> set (bounded_aliases s v)" (is "?l \<longleftrightarrow> ?r") for v
  proof
    assume ?l
    then obtain i where i: "i \<in> set (order k)" "fmlookup (st_byID s) i = Some v" by blast
    with tuple_index [OF inv(1), of i k] inv(3) own [OF i(2)] show ?r by auto
  next
    assume r: ?r
    with tuple_index [OF inv(1), of "rs_SessionID v" k] inv(3) show ?l by auto
  qed
  then show "set (active_candidates s t (order k)) = {v. live_match s t k v}"
    by (auto simp: active_candidates_def live_match_def set_sessions_in)
  have live: "\<exists>v. fmlookup (st_byID s) i = Some v" if "i \<in> set (order k)" for i
    using tuple_index [OF inv(1), of i k] that inv(3) by auto
  have "map rs_SessionID (filter (\<lambda>v. sessionOverlaps v t) (List.map_filter (fmlookup (st_byID s)) is))
      = filter (\<lambda>i. case fmlookup (st_byID s) i of None \<Rightarrow> False | Some v \<Rightarrow> sessionOverlaps v t) is"
    if "set is \<subseteq> set (order k)" for "is"
    using that by (induction "is") (auto simp: map_filter_simps own split: option.splits)
  then show "map rs_SessionID (active_candidates s t (order k))
      = filter (\<lambda>i. case fmlookup (st_byID s) i of None \<Rightarrow> False | Some v \<Rightarrow> sessionOverlaps v t) (order k)"
    by (simp add: active_candidates_def sessions_in_def)
qed

lemma store_lookup_facts:
  assumes ok: "store_ok w" and l: "store_lookup w k t n = (vs, trunc)"
  shows "set vs \<subseteq> store_matching w t k" "distinct (map rs_SessionID vs)"
    and "\<not> trunc \<Longrightarrow> rs_SessionID ` store_matching w t k = rs_SessionID ` set vs"
proof -
  obtain s order where w: "w = (s, order)" by (cases w)
  note a = active_facts [OF ok [unfolded w], of t k]
  define seen where "seen = map rs_SessionID (active_candidates s t (order k))"
  define all where "all = active_candidates s t (order k) @ closed_candidates k t seen (rev (st_closed s))"
  note c = closed_candidates_facts(1,2) [of k t seen "rev (st_closed s)"]
  have vs: "vs = take (candidate_limit n) all" "trunc = (length all > candidate_limit n)"
    using l by (auto simp: store_lookup_def ResolveCandidates_def take_limited_def w all_def seen_def a(2) Let_def)
  have sub: "set all \<subseteq> store_matching w t k" using a(1) c(1) by (auto simp: all_def store_matching_def w)
  then show "set vs \<subseteq> store_matching w t k" using vs(1) by (auto dest: in_set_takeD)
  have "distinct seen" using ok by (auto simp: seen_def a(2) store_ok_def w)
  then have "distinct (map rs_SessionID all)" using c(2) by (auto simp: all_def seen_def)
  then show "distinct (map rs_SessionID vs)" using vs(1) by (simp add: take_map [symmetric])
  show "rs_SessionID ` store_matching w t k = rs_SessionID ` set vs" if "\<not> trunc"
  proof -
    have "vs = all" using that vs by simp
    moreover have "rs_SessionID v \<in> rs_SessionID ` set all" if "v \<in> store_matching w t k" for v
      using that a(1) closed_candidates_facts(3) [of v "rev (st_closed s)" t k seen]
      by (auto simp: store_matching_def w all_def seen_def)
    ultimately show ?thesis using sub by auto
  qed
qed

interpretation store: session_lookup store_lookup store_ok store_matching
  by unfold_locales (erule (1) store_lookup_facts, (simp)?)+


section \<open>Bindings\<close>

lemma fcard_ffilter_le: "fcard (ffilter P A) \<le> fcard A"
  by (intro fcard_mono) auto

lemma remember_bounded:
  assumes "int (fmlen (cr_bindings r)) \<le> cr_maxBindings r" "0 < cr_maxBindings r"
    and "int (fmlen (cr_bindings r)) = cr_maxBindings r \<Longrightarrow> victim |\<in>| fmdom (cr_bindings r)"
  shows "int (fmlen (cr_bindings (remember victim key v r))) \<le> cr_maxBindings r"
proof -
  let ?m = "if int (fmlen (cr_bindings r)) \<ge> cr_maxBindings r then fmdrop victim (cr_bindings r) else cr_bindings r"
  have "int (fcard (fmdom ?m)) < cr_maxBindings r"
  proof (cases "int (fmlen (cr_bindings r)) \<ge> cr_maxBindings r")
    case True
    then have "victim |\<in>| fmdom (cr_bindings r)" using assms(1,3) by simp
    then have "fcard (fmdom (cr_bindings r) |-| {|victim|}) < fmlen (cr_bindings r)" by (rule fcard_fminus1_less)
    with True assms(1) show ?thesis by (simp add: fmdom_drop)
  qed (simp add: not_le)
  moreover have "fcard (finsert key (fmdom ?m)) \<le> Suc (fcard (fmdom ?m))" by (simp add: fcard_finsert_if)
  ultimately show ?thesis by (simp add: remember_def Let_def)
qed

lemma epochs_bounded:
  "fmlen (cr_bindings (observeEpoch a b r)) \<le> fmlen (cr_bindings r)"
  "fmlen (cr_bindings (ResetEpoch a b r)) \<le> fmlen (cr_bindings r)"
  by (simp_all add: observeEpoch_def ResetEpoch_def Let_def fcard_ffilter_le)

section \<open>Live sessions\<close>

lemma live_attribution:
  assumes "reachable limits s"
    and "\<forall>k. distinct (order k) \<and> set (order k) = fset (get_set (st_byTuple s) k)"
    and "Resolve_observation (Some (store_lookup (s, order))) victim obs r = (r', res)"
    and "res_Session res = Some v" "\<not> res_Recent res"
  shows "Get s (rs_SessionID v) = Some v"
proof -
  have inv: "store_inv s" by (rule reachable_inv [OF assms(1)])
  then have ok: "store_ok (s, order)" using assms(2) by (simp add: store_ok_def)
  obtain t where t: "ob_ObservedAt obs = Some t"
    using assms(3,4) by (cases "ob_ObservedAt obs") (auto simp: Resolve_observation_def unresolved_def)
  have res: "res = attributed v (res_Reason res)" "owned (store_matching (s, order) t) (observationKeys (cr_scope r) obs) v"
    using store.observation_sound [OF ok t assms(3)] assms(4) by (auto simp: sound_def)
  have "rs_State v \<noteq> SessionClosed" using assms(5) arg_cong [OF res(1), of res_Recent] by (simp add: attributed_def)
  moreover have "rs_State u = SessionClosed" if "u \<in> set (st_closed s)" for u
    using inv that by (auto simp: store_inv_def history_inv_def list_all_iff closed_ok_def)
  ultimately show ?thesis using res(2) by (auto simp: owned_def store_matching_def live_match_def Get_def)
qed

section \<open>Properties\<close>

text \<open>
  C3: attribution is sound and complete. Over any store that operations can build, and in whatever
  order its index is visited, an observation is reported as correlated exactly when a session is
  given; that session has a strong identity and is the only one, live or recently closed, that owned
  one of the observation's flow keys at the time of the observation. Conversely, if the flow keys
  belong to one session only, which has a strong identity, and no lookup is cut short, the
  observation is attributed to that session, whatever flows were bound before.
\<close>

theorem correlation_sound_complete:
  assumes "reachable limits s"
    and "\<forall>k. distinct (order k) \<and> set (order k) = fset (get_set (st_byTuple s) k)"
    and "ob_ObservedAt obs = Some t"
    and "Resolve_observation (Some (store_lookup (s, order))) victim obs r = (r', res)"
    and "ks = observationKeys (cr_scope r) obs" "M = store_matching (s, order) t"
  shows "(res_State res = CorrelationCorrelated \<longleftrightarrow> res_Session res \<noteq> None)
    \<and> (res_Session res = Some v \<longrightarrow> strongIdentity (rs_Identity v) \<and> res_Recent res = (rs_State v = SessionClosed)
        \<and> (\<exists>k \<in> set ks. v \<in> M k \<and> (\<forall>w \<in> M k. rs_SessionID w = rs_SessionID v)))
    \<and> ((\<Union>k \<in> set ks. rs_SessionID ` M k) = {i} \<and> (\<forall>k \<in> set ks. \<forall>w \<in> M k. strongIdentity (rs_Identity w))
          \<and> (\<forall>k \<in> set ks. \<not> snd (store_lookup (s, order) k t 8))
        \<longrightarrow> (\<exists>w. res_Session res = Some w \<and> rs_SessionID w = i))"
proof -
  have ok: "store_ok (s, order)" using reachable_inv [OF assms(1)] assms(2) by (simp add: store_ok_def)
  have sound: "sound M ks res" using store.observation_sound [OF ok assms(3,4)] by (simp add: assms(5,6))
  then have a: "res_State res = CorrelationCorrelated \<longleftrightarrow> res_Session res \<noteq> None"
    by (cases "res_Session res") (auto simp: sound_def attributed_def dest: arg_cong [where f = res_State])
  have b: "strongIdentity (rs_Identity v) \<and> res_Recent res = (rs_State v = SessionClosed)
      \<and> (\<exists>k \<in> set ks. v \<in> M k \<and> (\<forall>w \<in> M k. rs_SessionID w = rs_SessionID v))" if "res_Session res = Some v"
  proof -
    have res: "res = attributed v (res_Reason res)" "strongIdentity (rs_Identity v)" "owned M ks v"
      using sound that by (auto simp: sound_def)
    have "res_Recent res = (rs_State v = SessionClosed)"
      using arg_cong [OF res(1), of res_Recent] by (simp add: attributed_def)
    with res(2,3) show ?thesis by (auto simp: owned_def)
  qed
  have c: "\<exists>w. res_Session res = Some w \<and> rs_SessionID w = i"
    if "(\<Union>k \<in> set ks. rs_SessionID ` M k) = {i}" "\<forall>k \<in> set ks. \<forall>w \<in> M k. strongIdentity (rs_Identity w)"
      "\<forall>k \<in> set ks. \<not> snd (store_lookup (s, order) k t 8)"
    using store.observation_complete [OF ok assms(3), of r i victim] that assms(4) by (simp add: assms(5,6))
  show ?thesis using a b c by blast
qed


definition strong_store :: RuntimeStore where
  "strong_store =
     run_op example_env (Op_Apply (example_record\<lparr>rec_Identity := example_identity\<lparr>ci_KernelStart := 77\<rparr>\<rparr>) (1000 * second))
       (NewRuntimeStore DefaultRuntimeLimits)"

lemma reachable_strong: "reachable DefaultRuntimeLimits strong_store"
  unfolding strong_store_def by (rule reachable_op [OF reachable_new])

definition index_order :: "Key \<Rightarrow> string list" where
  "index_order k = sorted_list_of_fset (get_set (st_byTuple strong_store) k)"

definition seen_observation :: Observation where
  "seen_observation =
     \<lparr>ob_ID = ''o1'', ob_Source = \<lparr>spo_SensorID = ''s'', spo_SensorEpoch = ''e'', spo_SensorConfigHash = '''',
        spo_RulesetID = '''', spo_Mode = InspectionModeIPS, spo_FileGeneration = '''', spo_ByteStart = 0,
        spo_ByteEnd = 0\<rparr>,
      ob_Kind = ''http'', ob_ObservedAt = Some (1001 * second), ob_IngestedAt = 0, ob_FlowID = 9, ob_HasFlowID = True,
      ob_TransactionID = None, ob_Tuple = Some (Tuple_Reverse example_tuple), ob_FlowTuple = Some example_tuple,
      ob_FlowStart = None, ob_FlowEnd = None,
      ob_Direction = '''', ob_App = UnknownApplication, ob_Alert = None, ob_Protocol = None,
      ob_Stats = None, ob_MissingEvidence = [], ob_Truncated = False\<rparr>"

definition example_resolution :: "Resolver \<times> Resolution" where
  "example_resolution =
     Resolve_observation (Some (store_lookup (strong_store, index_order)))
       \<lparr>bk_SensorID = '''', bk_SensorEpoch = '''', bk_FlowID = 0\<rparr> seen_observation
       (NewResolver \<lparr>NetworkNamespace = ''n'', ConntrackZone = 0\<rparr> 4)"

theorem correlation_sound_complete_witness:
  "map_option (\<lambda>v. ci_KernelStart (rs_Identity v)) (res_Session (snd example_resolution)) = Some 77
   \<and> res_State (snd example_resolution) = CorrelationCorrelated
   \<and> fmlen (cr_bindings (fst example_resolution)) = 1"
proof -
  have order: "\<forall>k. distinct (index_order k) \<and> set (index_order k) = fset (get_set (st_byTuple strong_store) k)"
    by (simp add: index_order_def sorted_list_of_fset.rep_eq)
  have t: "ob_ObservedAt seen_observation = Some (1001 * second)" by (simp add: seen_observation_def)
  have run: "Resolve_observation (Some (store_lookup (strong_store, index_order)))
       \<lparr>bk_SensorID = '''', bk_SensorEpoch = '''', bk_FlowID = 0\<rparr> seen_observation
       (NewResolver \<lparr>NetworkNamespace = ''n'', ConntrackZone = 0\<rparr> 4) = (fst example_resolution, snd example_resolution)"
    by (simp add: example_resolution_def)
  have "map_option (\<lambda>v. ci_KernelStart (rs_Identity v)) (res_Session (snd example_resolution)) = Some 77"
    "fmlen (cr_bindings (fst example_resolution)) = 1" by code_simp+
  with correlation_sound_complete [OF reachable_strong order t run refl refl] show ?thesis by auto
qed

end
