(* ===== verification/Spec2Isabelle.thy ===== *)
theory Spec2Isabelle
imports Store_Views Store_Runs Config_Activation Config_Normalization Gate_Application Kernel_Epoch Event_Cursor Inspection_Guard Correlation
begin

text \<open>
  Verification of the NGFW gateway, a firewall written in Go: \<open>src/internal\<close> holds its packages and
  \<open>src/cmd\<close> its three programs. An administrator edits a candidate configuration and commits it. The
  compiler turns the configuration into a connectivity program, which decides each connection from
  its zones, addresses and service. Connection tracking events of the kernel feed a session table, in
  which the engine records the decision of each session. A sensor reports what it sees of the
  traffic; a report is attributed to a session, folded into its inspection state, and may ask for a
  guard that blocks the session. Verdicts are cached in the kernel's connection mark, under an epoch
  that a new configuration replaces. Security events go to a bounded store that readers page through.

  \<^bold>\<open>The theories and the code.\<close>

  \<^item> \<open>Ngfw_Prelude\<close>: Go's integers, byte strings, the functions of \<open>strings\<close>, \<open>strconv\<close> and \<open>fmt\<close> the
    sources use, and the lemmas on lists and finite maps that the components share. \<open>Netip\<close> and
    \<open>Netip_Text\<close>: addresses and prefixes of \<open>net/netip\<close>, parsed, printed and read back.
  \<^item> \<open>Flow\<close> (\<open>domain/flow.go\<close>, \<open>flow/tuple.go\<close>): tuples, flow keys and the aliases of a connection.
    \<open>Service_Selectors\<close> (\<open>domain/service.go\<close>): the selector grammar and its canonical lists.
    \<open>Domain\<close> and \<open>Session_Types\<close>: the records of configurations and of sessions.
  \<^item> \<open>Connectivity\<close> (\<open>connectivity/program.go\<close>): compilation, first-match evaluation, zone inference.
    \<open>Gate_Selection\<close> and \<open>Gate_Application\<close> (\<open>connectivity/inspection.go\<close>, \<open>request_gate.go\<close>): the
    inspection and request-gate layers of the compiler and the profile and gate of a packet view.
  \<^item> \<open>Reachability\<close> (\<open>config/policy_reachability.go\<close>), \<open>Policy_Duplicates\<close>
    (\<open>config/policy_canonical.go\<close>) and \<open>Tls_Exclusions\<close> (\<open>config/tls_exclusion.go\<close>): the diagnostics
    of a configuration. \<open>Gate_Config\<close> (\<open>config/inspection.go\<close>, \<open>config/request_gate.go\<close>) and
    \<open>Config_Validation\<close> (\<open>Validator.Validate\<close> of \<open>config/manager.go\<close>): its validation;
    \<open>Config_Checks\<close> relates the validator to the compiler.
  \<^item> \<open>Config_Manager\<close> (\<open>config/manager.go\<close>, \<open>editor.go\<close>, \<open>file.go\<close>): candidate, commit, rollback,
    persistence and restart; \<open>Config_Activation\<close> and \<open>Config_Normalization\<close> hold what they guarantee.
  \<^item> \<open>Runtime_Store\<close> (\<open>session/runtime_store.go\<close>, \<open>history.go\<close>, \<open>inspection.go\<close>): the session table,
    one function per method on a record of the method receiver's fields. \<open>Store_Invariant\<close>,
    \<open>Store_Operations\<close>, \<open>Store_Safety\<close>, \<open>Store_Runs\<close>, \<open>Store_Incarnations\<close> and \<open>Store_Views\<close>: its
    invariant, that every operation keeps it, and what callers may rely on.
  \<^item> \<open>App_Identity\<close> (\<open>inspection/source.go\<close>, \<open>application.go\<close>), \<open>Correlation\<close>
    (\<open>inspection/correlation/resolver.go\<close>), \<open>Inspection_Reducer\<close> and \<open>Inspection_Guard\<close>
    (\<open>engine/inspection_reducer.go\<close>): from an observation of the sensor to a guard.
  \<^item> \<open>Security_Events\<close>, \<open>Event_Queue\<close> and \<open>Event_Cursor\<close> (\<open>engine/security_events.go\<close>): the event store,
    its refinement to a queue, and reading with a cursor.
  \<^item> \<open>Cache_Mark\<close> (\<open>dataplane/mark.go\<close>) and \<open>Kernel_Epoch\<close> (\<open>dataplane/epoch.go\<close>, \<open>writeAtomic\<close> of
    \<open>dataplane/forwarding.go\<close>): the cached verdict and the epochs that make it expire.

  \<^bold>\<open>What is shown.\<close> The policy of lowest priority that matches decides a packet, a reported policy
  never does, and normalizing a configuration or adding gates changes no verdict. A validated
  configuration compiles, up to one gap between the two prefix parsers. Commits and rollbacks keep
  the running configuration valid and in the data plane, unless the restoration of an old one fails
  and is reported; a restart resumes it, unless a call failed after the file was replaced. Every
  sequence of store operations keeps the indexes and the bounds, and lookups agree with a search.
  Two kernel connections with known, different identifiers are never joined. A record does not
  bring back a session that the closed history still remembers, and an expiry closes a session only
  if nothing happened to it since the snapshot it rests on. A revocation stays, except for the
  operation that marks a session as not evaluated. An observation is attributed to the one session
  it belongs to or to none; this theory joins that with the reducer and the store: an observation of
  a forbidden application ends in a blocked session. The event store is a bounded queue whose
  readers notice a loss, and the epochs of one boot are not reused as long as their file is not lost.

  \<^bold>\<open>Interfaces.\<close> Four locales carry the laws between components: \<open>canonical_form\<close> (interpreted as
  \<open>services\<close>), \<open>first_match\<close> (\<open>rules\<close> and \<open>exclusions\<close>), \<open>sequence_log\<close> (\<open>events\<close>) and
  \<open>session_lookup\<close> (\<open>store\<close>).

  \<^bold>\<open>Modelling choices.\<close> Go maps are finite maps and sets finite sets; where Go ranges over a map, the
  order is an argument or is shown not to matter. A method that holds the mutex is one function on
  the state; \<open>ExpiredCandidates\<close> takes its lock twice and is a function of two states. An edit of the
  candidate that falls between the locks of a commit is not modelled. One call of the resolver sees
  one state of the session table. \<open>Clone\<close> is the identity, as values are not shared. Instants are
  nanoseconds with 0 the zero time. JSON, hashes, the clock, activation of the data plane and the
  outcome of every system call are parameters; that JSON reads back what it wrote is a hypothesis,
  about strings that are valid UTF-8. Letter case is that of ASCII, which identifiers and names are.
  Error and diagnostic texts are constructors.

  \<^bold>\<open>Bounds.\<close> The loop of the IPv6 parser has at most eight rounds, as it adds a group in each. The
  eviction loop of the event store is a partial function, shown to return. Reading with a cursor has
  fuel, and one round more than the number of stored events is enough. Theorems on sequence numbers
  bound the number of operations by \<open>2 ^ 64\<close>, where the counter wraps around.

  \<^bold>\<open>Defects that the proofs met\<close> are lemmas where they stand, among them \<open>unavailable_erases_decision\<close>,
  \<open>query_overflow_panics\<close>, \<open>lost_file_reuses_an_epoch\<close>, \<open>rejected_event_empties_the_store\<close>,
  \<open>padded_config_rejected\<close>, \<open>failed_commit_runs_after_restart\<close> and \<open>upper_case_zone_rejected\<close>.

  \<^bold>\<open>Not modelled.\<close> The generation of nft and ip text and its execution (\<open>dataplane\<close> otherwise), whose
  effect is the kernel's; the netlink transport (\<open>conntrack\<close>), sensor files and their JSON
  (\<open>inspection/eve\<close>) and external processes (\<open>inspection/sensor\<close>, \<open>requestworker\<close>, \<open>requestpcap\<close>), which
  produce the inputs of the modelled parts; the goroutines and timers of \<open>engine\<close> that call them; the
  queue of waiting observations (\<open>correlation/pending.go\<close>); the request-gate service of \<open>engine\<close>, the
  IPC packages and the proxy, which are sockets, HTTP and TLS; the content inspectors and the
  legacy evaluation path (\<open>policy\<close>, \<open>risk\<close>, \<open>session/store.go\<close>, \<open>engine/engine.go\<close>), which no command
  runs; the management API, accounts and telemetry; and the commands themselves.
\<close>

section \<open>From an observation to a blocked session\<close>

lemma UpdateInspection_Inr:
  assumes "UpdateInspection s i identity generation revision n = (s', Inr v)"
  obtains current where "fmlookup (st_byID s) i = Some current"
    "revision = (case rs_Inspection current of None \<Rightarrow> 0 | Some x \<Rightarrow> si_Revision x)"
    "(s', v) = updateInspectionLocked s i current n (revision + 1)"
  using assms by (auto simp: UpdateInspection_def Let_def split: option.splits if_splits prod.splits)

lemma updateInspectionLocked_facts:
  assumes "updateInspectionLocked s i current n revision = (s', v)"
  shows "fmlookup (st_byID s') i = Some v" "rs_Inspection v = Some (n\<lparr>si_Revision := revision\<rparr>)"
    "rs_SessionID v = rs_SessionID current" "rs_Identity v = rs_Identity current"
    "rs_EffectiveDecision v = ComputeEffectiveDecision (rs_Decision current) (rs_Inspection v) (rs_Revoked current)"
  using assms by (auto simp: updateInspectionLocked_def Let_def put_session_def ComputeEffectiveDecision_def guardApplied_def)

lemma guard_blocks_live:
  assumes "reachable limits s" and "Get s i = Some current"
    and "intent \<in> set (red_Intents (ReduceInspection clock current selection obs now))"
    and "UpdateInspection s i (rs_Identity current) (isel_Generation selection) revision
      (red_Next (ReduceInspection clock current selection obs now)) = (s', Inr v)"
    and "revision + 1 \<noteq> - 1"
    and "enf_Mechanism result = EnforcementNFTSessionGuard" "enf_Status result = EnforcementApplied"
      "enf_RequestedAction result = DecisionDrop"
  shows "MatchesSession intent v (isel_Generation selection)
    \<and> (\<exists>t w. CompleteInspectionIntent s' intent result = (t, Inr w) \<and> Get t i = Some w
      \<and> rs_EffectiveDecision w = DecisionDrop)
    \<and> red_Intents (ReduceInspection clock' v selection' obs' now') = []"
proof (intro conjI)
  define red where "red = ReduceInspection clock current selection obs now"
  define n where "n = observed_inspection current selection obs (if now = 0 then clock else now)"
  let ?reason = "''application is not allowed by policy''"
  note r = reduce_guard [where clock = clock and current = current and selection = selection and obs = obs
      and now = now, folded red_def n_def]
  have due: "guard_due selection current (si_Application (red_Next red))"
    and intent: "intent = guard_intent current selection ?reason (red_Next red)"
    using assms(3) r(1) by (auto simp: red_def [symmetric] split: if_splits)
  have nxt: "red_Next red = request_guard current ?reason n" by (rule r(2) [OF due])
  have facts: "si_AppPolicyState n = AppPolicyMismatch" "si_Mode n = InspectionModeIPS"
    "si_Generation n = isel_Generation selection" "strongApplication (si_Application n)"
    "si_Revision n = (case rs_Inspection current of None \<Rightarrow> 0 | Some x \<Rightarrow> si_Revision x)"
    using due observed_facts [where current = current and selection = selection and obs = obs
        and now = "if now = 0 then clock else now", folded n_def]
    by (simp_all add: guard_due_def nxt request_guard_def forbidden_def)
  have id: "rs_SessionID current = i" "i \<noteq> ''''"
    using index_inv_id [of s i current] reachable_inv [OF assms(1)] assms(2) by (auto simp: Get_def store_inv_def)
  obtain c where "fmlookup (st_byID s) i = Some c"
    "revision = (case rs_Inspection c of None \<Rightarrow> 0 | Some x \<Rightarrow> si_Revision x)"
    "(s', v) = updateInspectionLocked s i c (red_Next red) (revision + 1)"
    by (rule UpdateInspection_Inr [OF assms(4) [folded red_def]])
  with assms(2) facts(5)
  have u: "updateInspectionLocked s i current (red_Next red) (revision + 1) = (s', v)" "revision = si_Revision n"
    by (simp_all add: Get_def)
  note v = updateInspectionLocked_facts [OF u(1)]
  show m: "MatchesSession intent v (isel_Generation selection)"
    using facts v(2-4) id u(2)
    by (simp add: MatchesSession_def intent guard_intent_def nxt request_guard_def guard_operation_def
      strongApplication_def Let_def split: if_splits)
  have i: "int_SessionID intent = i" "int_Generation intent = isel_Generation selection"
    using id by (simp_all add: intent guard_intent_def)
  show "\<exists>t w. CompleteInspectionIntent s' intent result = (t, Inr w) \<and> Get t i = Some w
      \<and> rs_EffectiveDecision w = DecisionDrop"
  proof -
    let ?j = "(red_Next red)\<lparr>si_Revision := revision + 1\<rparr>"
    obtain t w where w: "updateInspectionLocked s' i v (?j\<lparr>si_Enforcement := result\<rparr>) (revision + 1 + 1) = (t, w)"
      by fastforce
    have "CompleteInspectionIntent s' intent result = (t, Inr w)"
      using w v(1,2) m i assms(5) by (simp add: CompleteInspectionIntent_def)
    with updateInspectionLocked_facts [OF w] assms(6-8) show ?thesis
      by (auto simp: Get_def ComputeEffectiveDecision_def)
  qed
  have "held v" using v(2) by (simp add: held_def nxt request_guard_def guardInFlightOrApplied_def)
  then show "red_Intents (ReduceInspection clock' v selection' obs' now') = []"
    by (simp add: reduce_guard(1) guard_due_def)
qed

text \<open>
  C2: what a sensor sees of a forbidden application ends in a blocked session. Take any store that
  operations can build and an observation that the resolver attributes to a session that is not
  closed, and for which the reducer asks for a guard. Once the runtime has stored the new inspection
  state, the session accepts the intent, and reporting the guard as applied succeeds and leaves that
  session with the effective decision DROP. Until then, no further observation asks for a second
  guard. The hypothesis on the revision says that the session has not been updated 2 to the 64 minus
  2 times.
\<close>

theorem guard_blocks_session:
  assumes "reachable limits s"
    and "\<forall>k. distinct (order k) \<and> set (order k) = fset (get_set (st_byTuple s) k)"
    and "Resolve_observation (Some (store_lookup (s, order))) victim obs r = (r', res)"
      "res_Session res = Some current" "\<not> res_Recent res"
    and "intent \<in> set (red_Intents (ReduceInspection clock current selection obs now))"
    and "UpdateInspection s (rs_SessionID current) (rs_Identity current) (isel_Generation selection) revision
      (red_Next (ReduceInspection clock current selection obs now)) = (s', Inr v)"
    and "revision + 1 \<noteq> - 1"
    and "enf_Mechanism result = EnforcementNFTSessionGuard" "enf_Status result = EnforcementApplied"
      "enf_RequestedAction result = DecisionDrop"
  shows "MatchesSession intent v (isel_Generation selection)
    \<and> (\<exists>t w. CompleteInspectionIntent s' intent result = (t, Inr w) \<and> Get t (rs_SessionID current) = Some w
      \<and> rs_EffectiveDecision w = DecisionDrop)
    \<and> red_Intents (ReduceInspection clock' v selection' obs' now') = []"
  using assms(1) live_attribution [OF assms(1-5)] assms(6-) by (rule guard_blocks_live)

text \<open>The observation of HTTP over the stored connection, under the policy that allows DNS only.\<close>

definition http_observation :: Observation where
  "http_observation = seen_observation\<lparr>ob_App := NormalizeApplication ''http''\<rparr>"

definition http_resolution :: Resolution where
  "http_resolution =
     snd (Resolve_observation (Some (store_lookup (strong_store, index_order)))
       \<lparr>bk_SensorID = '''', bk_SensorEpoch = '''', bk_FlowID = 0\<rparr> http_observation
       (NewResolver \<lparr>NetworkNamespace = ''n'', ConntrackZone = 0\<rparr> 4))"

definition http_session :: RuntimeSession where
  "http_session = the (res_Session http_resolution)"

definition http_reduction :: InspectionReduction where
  "http_reduction = ReduceInspection 9 http_session example_selection http_observation 9"

definition guarded_store :: RuntimeStore where
  "guarded_store = fst (UpdateInspection strong_store (rs_SessionID http_session) (rs_Identity http_session) 0 0
     (red_Next http_reduction))"

definition guard_applied :: EnforcementResult where
  "guard_applied = \<lparr>enf_Mechanism = EnforcementNFTSessionGuard, enf_Scope = EnforcementScopeSession,
     enf_RequestedAction = DecisionDrop, enf_Status = EnforcementApplied, enf_Reason = '''', enf_ObservedAt = None,
     enf_OperationID = ''''\<rparr>"

theorem guard_blocks_session_witness:
  "length (red_Intents http_reduction) = 1
   \<and> (\<exists>t w. CompleteInspectionIntent guarded_store (hd (red_Intents http_reduction)) guard_applied = (t, Inr w)
        \<and> Get t (rs_SessionID http_session) = Some w \<and> rs_EffectiveDecision w = DecisionDrop)"
proof -
  have order: "\<forall>k. distinct (index_order k) \<and> set (index_order k) = fset (get_set (st_byTuple strong_store) k)"
    by (simp add: index_order_def sorted_list_of_fset.rep_eq)
  have found: "res_Session http_resolution \<noteq> None" "\<not> res_Recent http_resolution" by code_simp+
  then have current: "res_Session http_resolution = Some http_session" by (simp add: http_session_def)
  obtain r' where run: "Resolve_observation (Some (store_lookup (strong_store, index_order)))
       \<lparr>bk_SensorID = '''', bk_SensorEpoch = '''', bk_FlowID = 0\<rparr> http_observation
       (NewResolver \<lparr>NetworkNamespace = ''n'', ConntrackZone = 0\<rparr> 4) = (r', http_resolution)"
    unfolding http_resolution_def by (metis prod.collapse)
  have one: "length (red_Intents http_reduction) = 1" by code_simp
  then have mem: "hd (red_Intents http_reduction) \<in> set (red_Intents http_reduction)"
    by (cases "red_Intents http_reduction") auto
  have "\<not> isl (snd (UpdateInspection strong_store (rs_SessionID http_session) (rs_Identity http_session) 0 0
      (red_Next http_reduction)))" by code_simp
  then obtain v where upd: "UpdateInspection strong_store (rs_SessionID http_session) (rs_Identity http_session)
      (isel_Generation example_selection) 0 (red_Next http_reduction) = (guarded_store, Inr v)"
    by (cases "UpdateInspection strong_store (rs_SessionID http_session) (rs_Identity http_session) 0 0
      (red_Next http_reduction)"; cases "snd (UpdateInspection strong_store (rs_SessionID http_session)
      (rs_Identity http_session) 0 0 (red_Next http_reduction))") (auto simp: guarded_store_def example_selection_def)
  show ?thesis
    using guard_blocks_session [OF reachable_strong order run current found(2), of "hd (red_Intents http_reduction)"
      9 example_selection 9 0 guarded_store v guard_applied] one mem upd
    by (auto simp: http_reduction_def [symmetric] guard_applied_def)
qed

end
